(* ===== verification/Prelude.thy ===== *)
theory Prelude
  imports
    Main
    "HOL-Library.AList"
    "HOL-Library.Char_ord"
    "HOL-Library.List_Lexorder"
    "HOL-Library.Sublist"
    "HOL-Library.Word"
begin

text \<open>
  Shared ground of the development: how Go data is represented, the part of Go's standard
  library that the repository calls (\<^verbatim>\<open>strings\<close>, \<^verbatim>\<open>strconv\<close>), and the generic lemmas that the
  component theories use.

  \<^item> A Go string is a sequence of bytes; \<^typ>\<open>char\<close> is a byte, so a Go string is a
    \<^typ>\<open>string\<close> and \<^verbatim>\<open>len(s)\<close> is \<^term>\<open>length s\<close>.
  \<^item> A Go map is an association list with distinct keys.  Go visits the entries of a map in
    an unspecified order; the order of the association list stands for the order of the next
    visit.  No invariant of the development fixes that order (it only asks for distinct keys),
    so a theorem about a store holds for every order in which the run-time may visit its maps.
    A nil map and an empty map answer every look-up alike and are both the empty list.
  \<^item> A Go \<^verbatim>\<open>time.Time\<close> is a number of nanoseconds, with 0 for the zero time; \<^verbatim>\<open>time.Now()\<close> is an
    argument \<open>now\<close> of every operation that reads the clock.
  \<^item> A Go \<^verbatim>\<open>int\<close> is an \<^typ>\<open>int\<close>; where a value of it comes from text, the 64-bit range check of
    \<^verbatim>\<open>strconv\<close> is written out.  Counters that wrap are 64-bit words.
\<close>

section \<open>Collections of rewrite rules\<close>

named_theorems action_defs \<open>classification of protocol actions\<close>
named_theorems store_defs \<open>definitions of store operations\<close>
named_theorems frame_rules \<open>parts of a state that an operation leaves alone\<close>

section \<open>Types\<close>

type_synonym gotime = int
type_synonym duration = int
type_synonym goint = int
type_synonym int64 = "64 word"
type_synonym 'v gomap = "(string \<times> 'v) list"

definition isZero :: "gotime \<Rightarrow> bool" where
  "isZero t \<longleftrightarrow> t = 0"

section \<open>Maps\<close>

abbreviation mput :: "string \<Rightarrow> 'v \<Rightarrow> 'v gomap \<Rightarrow> 'v gomap" where
  "mput \<equiv> AList.update"

abbreviation mdel :: "string \<Rightarrow> 'v gomap \<Rightarrow> 'v gomap" where
  "mdel \<equiv> AList.delete"

abbreviation mkeys :: "'v gomap \<Rightarrow> string list" where
  "mkeys m \<equiv> map fst m"

abbreviation mvals :: "'v gomap \<Rightarrow> 'v list" where
  "mvals m \<equiv> map snd m"

text \<open>A map of pointers whose target is updated in place, when the key is present.\<close>

definition mmodify :: "string \<Rightarrow> ('v \<Rightarrow> 'v) \<Rightarrow> 'v gomap \<Rightarrow> 'v gomap" where
  "mmodify k f m = (case map_of m k of None \<Rightarrow> m | Some v \<Rightarrow> mput k (f v) m)"

text \<open>Looking a key up in a map of slices: a missing key reads as the nil slice.\<close>

definition mlist :: "'v list gomap \<Rightarrow> string \<Rightarrow> 'v list" where
  "mlist m k = (case map_of m k of None \<Rightarrow> [] | Some vs \<Rightarrow> vs)"

definition mgetd :: "'v \<Rightarrow> 'v gomap \<Rightarrow> string \<Rightarrow> 'v" where
  "mgetd d m k = (case map_of m k of None \<Rightarrow> d | Some v \<Rightarrow> v)"

declare update_conv' [simp] delete_conv' [simp] AList.distinct_update [simp] AList.distinct_delete [simp]

lemma map_of_mmodify:
  "map_of (mmodify k f m) = (map_of m)(k := map_option f (map_of m k))"
  by (rule ext) (simp add: mmodify_def split: option.split)

lemma mlist_mput [simp]: "mlist (mput k vs m) k' = (if k' = k then vs else mlist m k')"
  by (simp add: mlist_def)

lemma mgetd_mput [simp]: "mgetd d (mput k v m) k' = (if k' = k then v else mgetd d m k')"
  by (simp add: mgetd_def)

lemma distinct_mmodify [simp]: "distinct (mkeys m) \<Longrightarrow> distinct (mkeys (mmodify k f m))"
  by (simp add: mmodify_def split: option.split)

lemma mlist_Nil [simp]: "mlist [] k = []"
  by (simp add: mlist_def)

lemma mgetd_Nil [simp]: "mgetd d [] k = d"
  by (simp add: mgetd_def)

lemma mlist_mdel [simp]: "mlist (mdel k m) k' = (if k' = k then [] else mlist m k')"
  by (simp add: mlist_def)

lemma mvals_iff_lookup:
  assumes "distinct (mkeys m)"
  shows "v \<in> set (mvals m) \<longleftrightarrow> (\<exists>k. map_of m k = Some v)"
proof
  assume "v \<in> set (mvals m)"
  then obtain k where "(k, v) \<in> set m" by auto
  with assms show "\<exists>k. map_of m k = Some v" by (auto intro: map_of_is_SomeI)
next
  assume "\<exists>k. map_of m k = Some v"
  then obtain k where "map_of m k = Some v" ..
  then have "(k, v) \<in> set m" by (rule map_of_SomeD)
  then show "v \<in> set (mvals m)" by (force simp: image_iff)
qed

lemma Ball_mput:
  assumes "\<forall>(k', v') \<in> set m. P k' v'" and "P k v"
  shows "\<forall>(k', v') \<in> set (mput k v m). P k' v'"
  using assms by (induction m) auto

lemma Ball_mdel: "\<forall>(k', v') \<in> set m. P k' v' \<Longrightarrow> \<forall>(k', v') \<in> set (mdel k m). P k' v'"
  by (auto simp: AList.delete_eq)

text \<open>A map whose entries all satisfy a property of key and value.\<close>

definition keyed :: "(string \<Rightarrow> 'v \<Rightarrow> bool) \<Rightarrow> 'v gomap \<Rightarrow> bool" where
  "keyed P m \<longleftrightarrow> distinct (mkeys m) \<and> (\<forall>(k, v) \<in> set m. P k v)"

lemma keyed_Nil [simp]: "keyed P []"
  by (simp add: keyed_def)

lemma keyed_mput [intro!]: "keyed P m \<Longrightarrow> P k v \<Longrightarrow> keyed P (mput k v m)"
  unfolding keyed_def using Ball_mput [of m P k v] by simp

lemma keyed_mdel [intro!]: "keyed P m \<Longrightarrow> keyed P (mdel k m)"
  unfolding keyed_def using Ball_mdel [of m P k] by simp

lemma keyedD: "keyed P m \<Longrightarrow> map_of m k = Some v \<Longrightarrow> P k v"
  by (auto simp: keyed_def dest!: map_of_SomeD)

lemma keyed_mvals: "keyed P m \<Longrightarrow> v \<in> set (mvals m) \<longleftrightarrow> (\<exists>k. map_of m k = Some v)"
  by (simp only: keyed_def mvals_iff_lookup)

lemma keyed_mmodify: "keyed P m \<Longrightarrow> (\<And>v. map_of m k = Some v \<Longrightarrow> P k v \<Longrightarrow> P k (f v)) \<Longrightarrow> keyed P (mmodify k f m)"
  by (auto simp: mmodify_def split: option.split dest: keyedD)

lemma keyed_mlist: "keyed (\<lambda>k vs. \<forall>v \<in> set vs. P k v) m \<Longrightarrow> v \<in> set (mlist m k) \<Longrightarrow> P k v"
  using keyedD [of "\<lambda>k vs. \<forall>v \<in> set vs. P k v" m k] by (cases "map_of m k") (auto simp: mlist_def)

section \<open>Lists\<close>

text \<open>A loop from the back of a slice that changes the first element it finds and stops.\<close>

fun updateFirst :: "('a \<Rightarrow> bool) \<Rightarrow> ('a \<Rightarrow> 'a) \<Rightarrow> 'a list \<Rightarrow> 'a list" where
  "updateFirst P f [] = []"
| "updateFirst P f (x # xs) = (if P x then f x # xs else x # updateFirst P f xs)"

definition updateLast :: "('a \<Rightarrow> bool) \<Rightarrow> ('a \<Rightarrow> 'a) \<Rightarrow> 'a list \<Rightarrow> 'a list" where
  "updateLast P f xs = rev (updateFirst P f (rev xs))"

lemma updateFirst_none: "\<forall>x \<in> set xs. \<not> P x \<Longrightarrow> updateFirst P f xs = xs"
  by (induction xs) auto

lemma updateFirst_split: "\<forall>x \<in> set xs. \<not> P x \<Longrightarrow> P y \<Longrightarrow> updateFirst P f (xs @ y # ys) = xs @ f y # ys"
  by (induction xs) auto

lemma updateLast_none: "\<forall>x \<in> set xs. \<not> P x \<Longrightarrow> updateLast P f xs = xs"
  by (simp add: updateLast_def updateFirst_none)

lemma updateLast_split: "P y \<Longrightarrow> \<forall>x \<in> set ys. \<not> P x \<Longrightarrow> updateLast P f (xs @ y # ys) = xs @ f y # ys"
  by (simp add: updateLast_def updateFirst_split)

lemma length_updateFirst [simp]: "length (updateFirst P f xs) = length xs"
  by (induction xs) auto

lemma length_updateLast [simp]: "length (updateLast P f xs) = length xs"
  by (simp add: updateLast_def)

lemma map_updateFirst: "(\<And>x. g (f x) = g x) \<Longrightarrow> map g (updateFirst P f xs) = map g xs"
  by (induction xs) auto

lemma map_updateLast: "(\<And>x. g (f x) = g x) \<Longrightarrow> map g (updateLast P f xs) = map g xs"
  by (simp add: updateLast_def map_updateFirst rev_map [symmetric])

text \<open>Counting a list by a key, as \<^verbatim>\<open>m[k]++\<close> does.\<close>

definition mincr :: "string \<Rightarrow> nat gomap \<Rightarrow> nat gomap" where
  "mincr k m = mput k (mgetd 0 m k + 1) m"

lemma mgetd_fold_mincr:
  "mgetd 0 (fold (\<lambda>x. mincr (f x)) xs m) k = mgetd 0 m k + length (filter (\<lambda>x. f x = k) xs)"
  by (induction xs arbitrary: m) (auto simp: mincr_def)

lemma distinct_fold_mincr: "distinct (mkeys m) \<Longrightarrow> distinct (mkeys (fold (\<lambda>x. mincr (f x)) xs m))"
  by (induction xs arbitrary: m) (auto simp: mincr_def)

section \<open>Strings\<close>

text \<open>
  The runes that \<^verbatim>\<open>unicode.IsSpace\<close> accepts, in UTF-8: the six ASCII ones, U+0085, U+00A0, U+1680,
  U+2000 to U+200A, U+2028, U+2029, U+202F, U+205F and U+3000.  No encoding is a proper prefix or
  suffix of another and the lead bytes are not continuation bytes, so trimming runes and trimming
  these byte sequences are the same thing.
\<close>

definition ws_runes :: "string list" where
  "ws_runes =
    [[CHR 0x09], [CHR 0x0A], [CHR 0x0B], [CHR 0x0C], [CHR 0x0D], [CHR 0x20],
     [CHR 0xC2, CHR 0x85], [CHR 0xC2, CHR 0xA0], [CHR 0xE1, CHR 0x9A, CHR 0x80],
     [CHR 0xE2, CHR 0x80, CHR 0x80], [CHR 0xE2, CHR 0x80, CHR 0x81], [CHR 0xE2, CHR 0x80, CHR 0x82],
     [CHR 0xE2, CHR 0x80, CHR 0x83], [CHR 0xE2, CHR 0x80, CHR 0x84], [CHR 0xE2, CHR 0x80, CHR 0x85],
     [CHR 0xE2, CHR 0x80, CHR 0x86], [CHR 0xE2, CHR 0x80, CHR 0x87], [CHR 0xE2, CHR 0x80, CHR 0x88],
     [CHR 0xE2, CHR 0x80, CHR 0x89], [CHR 0xE2, CHR 0x80, CHR 0x8A], [CHR 0xE2, CHR 0x80, CHR 0xA8],
     [CHR 0xE2, CHR 0x80, CHR 0xA9], [CHR 0xE2, CHR 0x80, CHR 0xAF], [CHR 0xE2, CHR 0x81, CHR 0x9F],
     [CHR 0xE3, CHR 0x80, CHR 0x80]]"

definition starts_with_any :: "string list \<Rightarrow> string \<Rightarrow> bool" where
  "starts_with_any ws s \<longleftrightarrow> list_ex (\<lambda>w. prefix w s) ws"

function strip_prefixes :: "string list \<Rightarrow> string \<Rightarrow> string" where
  "strip_prefixes ws s =
     (case find (\<lambda>w. w \<noteq> [] \<and> prefix w s) ws of
        None \<Rightarrow> s
      | Some w \<Rightarrow> strip_prefixes ws (drop (length w) s))"
  by pat_completeness auto
termination
  by (relation "measure (\<lambda>(ws, s). length s)")
     (auto simp: find_Some_iff prefix_def)

declare strip_prefixes.simps [simp del]

definition TrimLeft :: "string \<Rightarrow> string" where
  "TrimLeft s = strip_prefixes ws_runes s"

definition TrimRight :: "string \<Rightarrow> string" where
  "TrimRight s = rev (strip_prefixes (map rev ws_runes) (rev s))"

definition TrimSpace :: "string \<Rightarrow> string" where
  "TrimSpace s = TrimRight (TrimLeft s)"

definition no_ws_left :: "string \<Rightarrow> bool" where
  "no_ws_left s \<longleftrightarrow> \<not> starts_with_any ws_runes s"

definition no_ws_right :: "string \<Rightarrow> bool" where
  "no_ws_right s \<longleftrightarrow> \<not> starts_with_any (map rev ws_runes) (rev s)"

lemma strip_prefixes_id: "\<not> starts_with_any ws s \<Longrightarrow> strip_prefixes ws s = s"
  by (subst strip_prefixes.simps)
     (auto simp: starts_with_any_def list_ex_iff find_Some_iff split: option.split)

lemma strip_prefixes_result:
  "[] \<notin> set ws \<Longrightarrow> \<not> starts_with_any ws (strip_prefixes ws s)"
proof (induction ws s rule: strip_prefixes.induct)
  case (1 ws s)
  show ?case
  proof (cases "find (\<lambda>w. w \<noteq> [] \<and> prefix w s) ws")
    case None
    then have eq: "strip_prefixes ws s = s"
      by (simp add: strip_prefixes.simps [of ws s])
    from None "1.prems" show ?thesis
      unfolding eq by (auto simp: find_None_iff starts_with_any_def list_ex_iff)
  next
    case (Some w)
    then show ?thesis
      using "1.IH" "1.prems" by (simp add: strip_prefixes.simps [of ws s])
  qed
qed

lemma strip_prefixes_suffix: "suffix (strip_prefixes ws s) s"
proof (induction ws s rule: strip_prefixes.induct)
  case (1 ws s)
  then show ?case
    by (subst strip_prefixes.simps)
       (auto split: option.split intro: suffix_order.trans suffix_drop)
qed

lemma ws_runes_nonempty: "[] \<notin> set ws_runes" "[] \<notin> set (map rev ws_runes)"
  by (simp_all add: ws_runes_def)

lemma TrimLeft_id [simp]: "no_ws_left s \<Longrightarrow> TrimLeft s = s"
  by (simp add: TrimLeft_def no_ws_left_def strip_prefixes_id)

lemma TrimRight_id [simp]: "no_ws_right s \<Longrightarrow> TrimRight s = s"
  by (simp add: TrimRight_def no_ws_right_def strip_prefixes_id)

lemma TrimSpace_id: "no_ws_left s \<Longrightarrow> no_ws_right s \<Longrightarrow> TrimSpace s = s"
  by (simp add: TrimSpace_def)

lemma starts_with_any_append:
  "\<not> starts_with_any ws s \<Longrightarrow> prefix t s \<Longrightarrow> \<not> starts_with_any ws t"
  by (auto simp: starts_with_any_def list_ex_iff intro: prefix_order.trans)

lemma no_ws_left_TrimLeft: "no_ws_left (TrimLeft s)"
  by (simp add: no_ws_left_def TrimLeft_def strip_prefixes_result ws_runes_nonempty(1))

lemma no_ws_right_TrimRight: "no_ws_right (TrimRight s)"
  using strip_prefixes_result [OF ws_runes_nonempty(2)] by (simp add: no_ws_right_def TrimRight_def)

lemma prefix_TrimRight: "prefix (TrimRight s) s"
  using strip_prefixes_suffix [of "map rev ws_runes" "rev s"]
  by (simp add: TrimRight_def suffix_to_prefix)

lemma no_ws_left_TrimSpace: "no_ws_left (TrimSpace s)"
  using starts_with_any_append [OF _ prefix_TrimRight] no_ws_left_TrimLeft [of s]
  unfolding TrimSpace_def no_ws_left_def by blast

lemma no_ws_right_TrimSpace: "no_ws_right (TrimSpace s)"
  by (simp add: TrimSpace_def no_ws_right_TrimRight)

lemma TrimSpace_idem [simp]: "TrimSpace (TrimSpace s) = TrimSpace s"
  by (simp add: TrimSpace_id no_ws_left_TrimSpace no_ws_right_TrimSpace)

text \<open>
  The lead byte decides most cases: a string that begins with a byte that begins no white-space
  rune cannot be trimmed on the left, and likewise on the right.
\<close>

definition ws_lead :: "char list" where
  "ws_lead = [CHR 0x09, CHR 0x0A, CHR 0x0B, CHR 0x0C, CHR 0x0D, CHR 0x20,
     CHR 0xC2, CHR 0xE1, CHR 0xE2, CHR 0xE3]"

lemma no_ws_left_Cons: "c \<notin> set ws_lead \<Longrightarrow> no_ws_left (c # s)"
  by (auto simp: no_ws_left_def starts_with_any_def ws_runes_def ws_lead_def)

lemma no_ws_left_Nil [simp]: "no_ws_left []"
  by (simp add: no_ws_left_def starts_with_any_def ws_runes_def)

lemma no_ws_right_Nil [simp]: "no_ws_right []"
  by (simp add: no_ws_right_def starts_with_any_def ws_runes_def)

lemma no_ws_right_snoc:
  assumes "c \<notin> set (map last ws_runes)"
  shows "no_ws_right (s @ [c])"
  using assms by (auto simp: no_ws_right_def starts_with_any_def ws_runes_def)

lemma no_ws_right_append:
  assumes "c \<notin> set (concat ws_runes)" and "no_ws_right t"
  shows "no_ws_right (s @ c # t)"
proof -
  have "\<not> prefix (rev w) (rev t @ c # rev s)" if w: "w \<in> set ws_runes" for w
  proof
    assume p: "prefix (rev w) (rev t @ c # rev s)"
    from w assms(1) have c: "c \<notin> set (rev w)" by auto
    have "rev w \<noteq> rev t @ c # zs" for zs
      using c by (metis in_set_conv_decomp)
    with p have "prefix (rev w) (rev t)"
      by (auto simp: prefix_append prefix_Cons)
    with assms(2) w show False
      by (auto simp: no_ws_right_def starts_with_any_def list_ex_iff)
  qed
  then show ?thesis
    by (auto simp: no_ws_right_def starts_with_any_def list_ex_iff)
qed

text \<open>\<^verbatim>\<open>strings.Split\<close> with a one-byte separator, \<^verbatim>\<open>strings.Join\<close>, the prefix and suffix functions.\<close>

fun Split :: "string \<Rightarrow> char \<Rightarrow> string list" where
  "Split [] sep = [[]]"
| "Split (c # s) sep =
     (if c = sep then [] # Split s sep
      else (case Split s sep of [] \<Rightarrow> [[c]] | p # ps \<Rightarrow> (c # p) # ps))"

fun Join :: "string list \<Rightarrow> string \<Rightarrow> string" where
  "Join [] sep = []"
| "Join [s] sep = s"
| "Join (s # t # ss) sep = s @ sep @ Join (t # ss) sep"

definition TrimPrefix :: "string \<Rightarrow> string \<Rightarrow> string" where
  "TrimPrefix s p = (if prefix p s then drop (length p) s else s)"

definition TrimSuffix :: "string \<Rightarrow> string \<Rightarrow> string" where
  "TrimSuffix s p = (if suffix p s then take (length s - length p) s else s)"

lemma Split_not_Nil [simp]: "Split s sep \<noteq> []"
  by (induction s) (auto split: list.split)

lemma Split_no_sep: "sep \<notin> set s \<Longrightarrow> Split s sep = [s]"
  by (induction s) auto

lemma Split_append_sep: "sep \<notin> set s \<Longrightarrow> Split (s @ sep # t) sep = s # Split t sep"
  by (induction s) auto

lemma Split_Join:
  "ss \<noteq> [] \<Longrightarrow> \<forall>s \<in> set ss. sep \<notin> set s \<Longrightarrow> Split (Join ss [sep]) sep = ss"
  by (induction ss "[sep]" rule: Join.induct) (auto simp: Split_no_sep Split_append_sep)

lemma TrimPrefix_append [simp]: "TrimPrefix (p @ s) p = s"
  by (simp add: TrimPrefix_def)

lemma TrimSuffix_append [simp]: "TrimSuffix (s @ p) p = s"
  by (simp add: TrimSuffix_def suffix_def)

text \<open>
  The loop that appears six times in the source: split at commas, trim each piece, drop the empty
  ones.
\<close>

definition splitTrim :: "string \<Rightarrow> string list" where
  "splitTrim s = (if s = [] then [] else filter (\<lambda>p. p \<noteq> []) (map TrimSpace (Split s (CHR '','')))) "

definition plain_item :: "string \<Rightarrow> bool" where
  "plain_item s \<longleftrightarrow> s \<noteq> [] \<and> CHR '','' \<notin> set s \<and> no_ws_left s \<and> no_ws_right s"

lemma Join_nonempty: "ss \<noteq> [] \<Longrightarrow> \<forall>s \<in> set ss. s \<noteq> [] \<Longrightarrow> Join ss sep \<noteq> []"
  by (induction ss sep rule: Join.induct) auto

lemma splitTrim_Join:
  assumes "\<forall>s \<in> set ss. plain_item s"
  shows "splitTrim (Join ss '','') = ss"
proof (cases "ss = []")
  case True
  then show ?thesis by (simp add: splitTrim_def)
next
  case False
  from assms have ne: "\<forall>s \<in> set ss. s \<noteq> []" by (simp add: plain_item_def)
  have "map TrimSpace ss = ss"
    using assms by (intro map_idI) (auto simp: plain_item_def TrimSpace_id)
  moreover have "filter (\<lambda>p. p \<noteq> []) ss = ss"
    using ne by simp
  moreover have "Split (Join ss '','') (CHR '','') = ss"
    using assms False by (intro Split_Join) (auto simp: plain_item_def)
  ultimately show ?thesis
    using Join_nonempty [OF False ne] by (simp add: splitTrim_def)
qed

text \<open>
  \<^verbatim>\<open>strings.ToUpper\<close> and \<^verbatim>\<open>strings.ToLower\<close>.  The ASCII letters are mapped, and so are the four
  non-ASCII runes whose image is an ASCII letter: U+0131 and U+017F (upper case I and S), U+0130
  and U+212A (lower case i and k).  Every other non-ASCII rune is mapped by Go to a non-ASCII rune;
  the model leaves its bytes alone.  The source only compares the results with ASCII words or with
  each other, so the two agree on every comparison with an ASCII word.
\<close>

definition upper_byte :: "char \<Rightarrow> char" where
  "upper_byte c = (let n = (of_char c :: nat) in if 97 \<le> n \<and> n \<le> 122 then char_of (n - 32) else c)"

definition lower_byte :: "char \<Rightarrow> char" where
  "lower_byte c = (let n = (of_char c :: nat) in if 65 \<le> n \<and> n \<le> 90 then char_of (n + 32) else c)"

fun ToUpper :: "string \<Rightarrow> string" where
  "ToUpper [] = []"
| "ToUpper [c] = [upper_byte c]"
| "ToUpper (c # d # s) =
     (if c = CHR 0xC4 \<and> d = CHR 0xB1 then CHR ''I'' # ToUpper s
      else if c = CHR 0xC5 \<and> d = CHR 0xBF then CHR ''S'' # ToUpper s
      else upper_byte c # ToUpper (d # s))"

fun ToLower :: "string \<Rightarrow> string" where
  "ToLower [] = []"
| "ToLower [c] = [lower_byte c]"
| "ToLower [c, d] =
     (if c = CHR 0xC4 \<and> d = CHR 0xB0 then [CHR ''i''] else lower_byte c # ToLower [d])"
| "ToLower (c # d # e # s) =
     (if c = CHR 0xC4 \<and> d = CHR 0xB0 then CHR ''i'' # ToLower (e # s)
      else if c = CHR 0xE2 \<and> d = CHR 0x84 \<and> e = CHR 0xAA then CHR ''k'' # ToLower s
      else lower_byte c # ToLower (d # e # s))"

section \<open>Numbers as text\<close>

text \<open>
  \<^verbatim>\<open>strconv.ParseInt(s, 10, 64)\<close>: the value and the error, as the function returns both.  A value out
  of range is replaced by the nearest bound together with a range error; the digit loop reports the
  first problem it meets, from left to right.
\<close>

datatype num_error = ErrSyntax | ErrRange

definition digit_of :: "char \<Rightarrow> nat option" where
  "digit_of c = (let n = of_char c :: nat in if 48 \<le> n \<and> n \<le> 57 then Some (n - 48) else None)"

fun parse_uint_loop :: "nat \<Rightarrow> string \<Rightarrow> nat \<times> num_error option" where
  "parse_uint_loop n [] = (n, None)"
| "parse_uint_loop n (c # cs) =
     (case digit_of c of
        None \<Rightarrow> (0, Some ErrSyntax)
      | Some d \<Rightarrow>
          if n * 10 + d > 18446744073709551615 then (18446744073709551615, Some ErrRange)
          else parse_uint_loop (n * 10 + d) cs)"

definition ParseUint :: "string \<Rightarrow> nat \<times> num_error option" where
  "ParseUint s = (if s = [] then (0, Some ErrSyntax) else parse_uint_loop 0 s)"

definition ParseInt :: "string \<Rightarrow> int \<times> num_error option" where
  "ParseInt s =
     (if s = [] then (0, Some ErrSyntax)
      else
        let neg = (hd s = CHR ''-'');
            body = (if hd s = CHR ''-'' \<or> hd s = CHR ''+'' then tl s else s);
            (un, err) = ParseUint body
        in if err = Some ErrSyntax then (0, Some ErrSyntax)
           else if \<not> neg \<and> un \<ge> 9223372036854775808 then (9223372036854775807, Some ErrRange)
           else if neg \<and> un > 9223372036854775808 then (-9223372036854775808, Some ErrRange)
           else (if neg then - int un else int un, None))"

text \<open>\<^verbatim>\<open>strconv.Atoi\<close> on a 64-bit platform, for callers that use the value only when there is no error.\<close>

definition Atoi :: "string \<Rightarrow> goint option" where
  "Atoi s = (case ParseInt s of (v, None) \<Rightarrow> Some v | (_, Some _) \<Rightarrow> None)"

definition is_int64 :: "int \<Rightarrow> bool" where
  "is_int64 v \<longleftrightarrow> -9223372036854775808 \<le> v \<and> v \<le> 9223372036854775807"

text \<open>\<^verbatim>\<open>fmt.Sprintf("%d", n)\<close>.\<close>

definition digit_chars :: string where
  "digit_chars = ''0123456789''"

fun utoa :: "nat \<Rightarrow> string" where
  "utoa n =
     (if n < 10 then [digit_chars ! n] else utoa (n div 10) @ [digit_chars ! (n mod 10)])"

declare utoa.simps [simp del]

definition itoa :: "int \<Rightarrow> string" where
  "itoa n = (if n < 0 then CHR ''-'' # utoa (nat (- n)) else utoa (nat n))"

lemma parse_uint_loop_snoc:
  "parse_uint_loop m xs = (k, None) \<Longrightarrow> digit_of c = Some d \<Longrightarrow> k * 10 + d \<le> 18446744073709551615
    \<Longrightarrow> parse_uint_loop m (xs @ [c]) = (k * 10 + d, None)"
  by (induction m xs rule: parse_uint_loop.induct) (auto split: option.splits if_splits)

lemma less_10_cases: "(d::nat) < 10 \<Longrightarrow> d \<in> {0, 1, 2, 3, 4, 5, 6, 7, 8, 9}"
  by auto

lemma digit_of_char: "d < 10 \<Longrightarrow> digit_of (digit_chars ! d) = Some d"
  by (drule less_10_cases) (auto simp: digit_of_def digit_chars_def Let_def)

lemma parse_uint_loop_utoa:
  "n \<le> 18446744073709551615 \<Longrightarrow> parse_uint_loop 0 (utoa n) = (n, None)"
proof (induction n rule: utoa.induct)
  case (1 n)
  show ?case
  proof (cases "n < 10")
    case True
    then show ?thesis by (simp add: utoa.simps [of n] digit_of_char)
  next
    case False
    then have "parse_uint_loop 0 (utoa (n div 10)) = (n div 10, None)"
      using 1 by simp
    then have "parse_uint_loop 0 (utoa (n div 10) @ [digit_chars ! (n mod 10)])
        = (n div 10 * 10 + n mod 10, None)"
      by (rule parse_uint_loop_snoc) (use "1.prems" in \<open>simp_all add: digit_of_char\<close>)
    with False show ?thesis by (simp add: utoa.simps [of n])
  qed
qed

lemma utoa_not_Nil [simp]: "utoa n \<noteq> []"
  by (subst utoa.simps) simp

lemma utoa_char_range: "c \<in> set (utoa n) \<Longrightarrow> c \<in> set digit_chars"
proof (induction n rule: utoa.induct)
  case (1 n)
  have d: "digit_chars ! d \<in> set digit_chars" if "d < 10" for d :: nat
    by (rule nth_mem) (use that in \<open>simp add: digit_chars_def\<close>)
  show ?case
  proof (cases "n < 10")
    case True
    with "1.prems" d [of n] show ?thesis by (simp add: utoa.simps [of n])
  next
    case False
    with "1.prems" have "c \<in> set (utoa (n div 10)) \<or> c = digit_chars ! (n mod 10)"
      by (auto simp: utoa.simps [of n])
    with "1.IH" [OF False] d [of "n mod 10"] show ?thesis by auto
  qed
qed

lemma utoa_hd: "hd (utoa n) \<in> set digit_chars"
  by (rule utoa_char_range [of _ n]) (simp add: hd_in_set)

lemma ParseInt_itoa:
  assumes "is_int64 v"
  shows "ParseInt (itoa v) = (v, None)"
proof (cases "v < 0")
  case True
  with assms have "nat (- v) \<le> 18446744073709551615" by (simp add: is_int64_def)
  from parse_uint_loop_utoa [OF this] True assms show ?thesis
    by (auto simp: ParseInt_def ParseUint_def itoa_def is_int64_def)
next
  case False
  with assms have "nat v \<le> 18446744073709551615" by (simp add: is_int64_def)
  moreover have "hd (utoa (nat v)) \<noteq> CHR ''-''" "hd (utoa (nat v)) \<noteq> CHR ''+''"
    using utoa_hd [of "nat v"] by (auto simp: digit_chars_def)
  ultimately show ?thesis
    using parse_uint_loop_utoa [of "nat v"] False assms
    by (auto simp: ParseInt_def ParseUint_def itoa_def is_int64_def)
qed

lemma Atoi_itoa: "is_int64 v \<Longrightarrow> Atoi (itoa v) = Some v"
  by (simp add: Atoi_def ParseInt_itoa)

lemma itoa_chars: "c \<in> set (itoa v) \<Longrightarrow> c \<in> insert (CHR ''-'') (set digit_chars)"
  using utoa_char_range [of c] by (cases "v < 0") (auto simp: itoa_def)

lemma itoa_not_Nil [simp]: "itoa v \<noteq> []"
  by (simp add: itoa_def)

lemma ParseInt_is_int64: "is_int64 (fst (ParseInt s))"
  by (auto simp: ParseInt_def is_int64_def Let_def split: prod.split)

lemma Atoi_is_int64: "Atoi s = Some v \<Longrightarrow> is_int64 v"
  using ParseInt_is_int64 [of s] by (auto simp: Atoi_def split: prod.splits option.splits)

end
