(* ===== verification/Mux.thy ===== *)
theory Mux
  imports Prelude
begin

text \<open>
  What the program uses of Go's HTTP server: the multiplexer \<^verbatim>\<open>http.ServeMux\<close> with method patterns, one-segment wildcards
  and the subtree of the root, and the responses that handlers write.  A request's path is the list of its decoded segments; a
  path that ends in a slash has an empty last segment, the root is a single empty segment.
\<close>

datatype seg = Lit string | Wild

record 'h route =
  rtMethod :: string
  rtSegs :: "seg list"
  rtTree :: bool
  rtHandler :: 'h

record request =
  rqMethod :: string
  rqPath :: "string list"
  rqBody :: string

definition post_request :: "string list \<Rightarrow> string \<Rightarrow> request" where
  "post_request path body = \<lparr>rqMethod = ''POST'', rqPath = path, rqBody = body\<rparr>"

definition get_request :: "string list \<Rightarrow> request" where
  "get_request path = \<lparr>rqMethod = ''GET'', rqPath = path, rqBody = []\<rparr>"

datatype 'h mux = Found 'h "string list" | Redirect | MethodNotAllowed | NotFound

section \<open>Matching\<close>

text \<open>
  A path is matched segment by segment.  At each one a literal is tried before a wildcard, with back-tracking, and a subtree pattern
  last.  The empty segment of a trailing slash is matched by a subtree pattern only.
\<close>

definition leaf :: "bool \<Rightarrow> (seg list \<times> bool \<times> 'h) list \<Rightarrow> 'h option" where
  "leaf tree ps = map_option (\<lambda>(_, _, h). h) (find (\<lambda>(segs, t, _). segs = [] \<and> t = tree) ps)"

definition child :: "seg \<Rightarrow> (seg list \<times> bool \<times> 'h) list \<Rightarrow> (seg list \<times> bool \<times> 'h) list" where
  "child g ps = map (\<lambda>(segs, t, h). (tl segs, t, h)) (filter (\<lambda>(segs, _, _). segs \<noteq> [] \<and> hd segs = g) ps)"

fun match_path :: "(seg list \<times> bool \<times> 'h) list \<Rightarrow> string list \<Rightarrow> ('h \<times> string list) option" where
  "match_path ps [] = map_option (\<lambda>h. (h, [])) (leaf False ps)"
| "match_path ps (s # rest) =
     (if s = [] \<and> rest = [] then map_option (\<lambda>h. (h, [])) (leaf True ps)
      else
        case match_path (child (Lit s) ps) rest of
          Some r \<Rightarrow> Some r
        | None \<Rightarrow>
            (case match_path (child Wild ps) rest of
               Some (h, vs) \<Rightarrow> Some (h, s # vs)
             | None \<Rightarrow> map_option (\<lambda>h. (h, [])) (leaf True ps)))"

definition of_method :: "string \<Rightarrow> 'h route list \<Rightarrow> (seg list \<times> bool \<times> 'h) list" where
  "of_method meth rs = map (\<lambda>r. (rtSegs r, rtTree r, rtHandler r)) (filter (\<lambda>r. rtMethod r = meth) rs)"

text \<open>A pattern for GET matches HEAD too.\<close>

definition match_request :: "'h route list \<Rightarrow> string \<Rightarrow> string list \<Rightarrow> ('h \<times> string list) option" where
  "match_request rs meth path =
     (case match_path (of_method meth rs) path of
        Some r \<Rightarrow> Some r
      | None \<Rightarrow> if meth = ''HEAD'' then match_path (of_method ''GET'' rs) path else None)"

text \<open>A path with an empty, a dot or a dot-dot segment inside is redirected to its clean form.\<close>

definition clean_path :: "string list \<Rightarrow> bool" where
  "clean_path path \<longleftrightarrow> path \<noteq> [] \<and> [] \<notin> set (butlast path) \<and> ''.'' \<notin> set path \<and> ''..'' \<notin> set path"

definition ServeMux :: "'h route list \<Rightarrow> request \<Rightarrow> 'h mux" where
  "ServeMux rs req =
     (if rqMethod req \<noteq> ''CONNECT'' \<and> \<not> clean_path (rqPath req) then Redirect
      else
        case match_request rs (rqMethod req) (rqPath req) of
          Some (h, vs) \<Rightarrow> Found h vs
        | None \<Rightarrow>
            if \<exists>r \<in> set rs. match_request rs (rtMethod r) (rqPath req) \<noteq> None then MethodNotAllowed else NotFound)"

definition get_route :: "seg list \<Rightarrow> 'h \<Rightarrow> 'h route" where
  "get_route segs h = \<lparr>rtMethod = ''GET'', rtSegs = segs, rtTree = False, rtHandler = h\<rparr>"

definition post_route :: "seg list \<Rightarrow> 'h \<Rightarrow> 'h route" where
  "post_route segs h = \<lparr>rtMethod = ''POST'', rtSegs = segs, rtTree = False, rtHandler = h\<rparr>"

definition get_tree :: "'h \<Rightarrow> 'h route" where
  "get_tree h = \<lparr>rtMethod = ''GET'', rtSegs = [], rtTree = True, rtHandler = h\<rparr>"

lemma of_method_simps [simp]:
  "of_method meth [] = []"
  "of_method meth (get_route segs h # rs) = (if meth = ''GET'' then (segs, False, h) # of_method meth rs else of_method meth rs)"
  "of_method meth (post_route segs h # rs) = (if meth = ''POST'' then (segs, False, h) # of_method meth rs else of_method meth rs)"
  "of_method meth (get_tree h # rs) = (if meth = ''GET'' then ([], True, h) # of_method meth rs else of_method meth rs)"
  by (auto simp: of_method_def get_route_def post_route_def get_tree_def)

lemma leaf_simps [simp]:
  "leaf t [] = None"
  "leaf t ((segs, t', h) # ps) = (if segs = [] \<and> t' = t then Some h else leaf t ps)"
  by (simp_all add: leaf_def)

lemma child_simps [simp]:
  "child g [] = []"
  "child g (([], t, h) # ps) = child g ps"
  "child g ((s # segs, t, h) # ps) = (if s = g then (segs, t, h) # child g ps else child g ps)"
  by (simp_all add: child_def)

lemma match_path_none [simp]: "match_path [] path = None"
  by (induction "[] :: (seg list \<times> bool \<times> 'h) list" path rule: match_path.induct) auto

text \<open>A table of one-segment pages in front of a subtree for everything else.\<close>

lemma match_leaves: "match_path (map (\<lambda>(n, h). ([], False, h)) (filter (\<lambda>(n, _). n = s) table)) rest =
    (if rest = [] then map_option (\<lambda>h. (h, [])) (map_of table s) else None)"
proof -
  let ?ps = "map (\<lambda>(n, h). ([], False, h)) (filter (\<lambda>(n, _). n = s) table)"
  have "child g ?ps = []" "leaf True ?ps = None" "leaf False ?ps = map_of table s" for g
    by (induction table) auto
  then show ?thesis by (cases rest) simp_all
qed

lemma match_flat:
  assumes "path \<noteq> []"
  shows "match_path (map (\<lambda>(n, h). ([Lit n], False, h)) table @ [([], True, d)]) path =
    Some (case path of [n] \<Rightarrow> (if n = [] then d else case map_of table n of Some h \<Rightarrow> h | None \<Rightarrow> d) | _ \<Rightarrow> d, [])"
proof -
  let ?ps = "map (\<lambda>(n, h). ([Lit n], False, h)) table @ [([], True, d)]"
  have l: "child (Lit s) ?ps = map (\<lambda>(n, h). ([], False, h)) (filter (\<lambda>(n, _). n = s) table)" for s
    by (induction table) auto
  have w: "child Wild ?ps = []" "leaf True ?ps = Some d" by (induction table) auto
  from assms obtain s rest where path: "path = s # rest" by (cases path) auto
  show ?thesis
    by (auto simp: path l w match_leaves simp del: map_append split: list.split option.split)
qed

text \<open>A handler that is found is one of a registered route of the method, or of a GET route for HEAD.\<close>

lemma leaf_mem: "leaf t ps = Some h \<Longrightarrow> h \<in> (\<lambda>(_, _, h). h) ` set ps"
  by (induction ps) (auto split: if_splits)

lemma child_mem: "(\<lambda>(_, _, h). h) ` set (child g ps) \<subseteq> (\<lambda>(_, _, h). h) ` set ps"
  by (force simp: child_def)

lemma match_path_handler: "match_path ps path = Some (h, vs) \<Longrightarrow> h \<in> (\<lambda>(_, _, h). h) ` set ps"
proof (induction ps path arbitrary: vs rule: match_path.induct)
  case (2 ps s rest)
  from "2.prems" consider "leaf True ps = Some h" | vs' where "match_path (child (Lit s) ps) rest = Some (h, vs')"
      "\<not> (s = [] \<and> rest = [])"
    | vs' where "match_path (child Wild ps) rest = Some (h, vs')" "match_path (child (Lit s) ps) rest = None"
      "\<not> (s = [] \<and> rest = [])"
    by (auto split: if_splits option.splits)
  then show ?case
  proof cases
    case 1
    then show ?thesis by (rule leaf_mem)
  next
    case 2
    show ?thesis by (rule subsetD [OF child_mem "2.IH"(1) [OF 2(2,1)]])
  next
    case 3
    show ?thesis by (rule subsetD [OF child_mem "2.IH"(2) [OF 3(3,2,1)]])
  qed
qed (auto dest: leaf_mem)

lemma match_request_handler:
  assumes "match_request rs meth path = Some (h, vs)"
  obtains r where "r \<in> set rs" "rtHandler r = h" "rtMethod r = meth \<or> rtMethod r = ''GET'' \<and> meth = ''HEAD''"
proof -
  from assms consider "match_path (of_method meth rs) path = Some (h, vs)"
    | "match_path (of_method ''GET'' rs) path = Some (h, vs)" "meth = ''HEAD''"
    by (auto simp: match_request_def split: option.splits if_splits)
  then show ?thesis
  proof cases
    case 1
    from match_path_handler [OF this] show ?thesis using that by (auto simp: of_method_def)
  next
    case 2
    from match_path_handler [OF this(1)] show ?thesis using that 2(2) by (auto simp: of_method_def)
  qed
qed

section \<open>Responses\<close>

text \<open>\<^const>\<open>None\<close> as the content type leaves it to the server, which sniffs it from the body.\<close>

record response =
  rsStatus :: nat
  rsType :: "string option"
  rsBody :: string

definition http_error :: "string \<Rightarrow> nat \<Rightarrow> response" where
  "http_error msg code = \<lparr>rsStatus = code, rsType = Some ''text/plain; charset=utf-8'', rsBody = msg @ [CHR 0x0A]\<rparr>"

text \<open>A value that does not encode leaves an empty body behind the status that was sent.\<close>

definition json_response :: "('v \<Rightarrow> string option) \<Rightarrow> 'v \<Rightarrow> response" where
  "json_response js v =
     \<lparr>rsStatus = 200, rsType = Some ''application/json'', rsBody = (case js v of Some b \<Rightarrow> b | None \<Rightarrow> [])\<rparr>"

text \<open>A reply, a redirection to the clean path, or a stream of events to a client that stays connected.\<close>

datatype reply = Reply response | RedirectReply | Stream nat

definition mux_reply :: "'h mux \<Rightarrow> reply" where
  "mux_reply r =
     (case r of
        Redirect \<Rightarrow> RedirectReply
      | MethodNotAllowed \<Rightarrow> Reply (http_error ''Method Not Allowed'' 405)
      | _ \<Rightarrow> Reply (http_error ''404 page not found'' 404))"

end
