(* ===== verification/Float64.thy ===== *)
theory Float64
  imports Complex_Main Prelude
begin

text \<open>
  Go's \<^verbatim>\<open>float64\<close>.  A finite double is the rational number it denotes; an arithmetic operation of the
  language is the exact operation on rationals followed by \<open>fl\<close>, rounding to 53 significant bits, to
  the even neighbour on a tie, as IEEE 754 prescribes and as Go evaluates an expression whose
  operations are not fused.  The exponent range is not bounded: infinities, NaN, negative zero and subnormal numbers
  are outside the model.
\<close>

type_synonym float64 = rat

section \<open>Rounding\<close>

text \<open>The integer part of the binary logarithm.\<close>

fun ilog :: "int \<Rightarrow> nat" where
  "ilog n = (if n < 2 then 0 else Suc (ilog (n div 2)))"

declare ilog.simps [simp del]

lemma ilog_bounds: "n \<ge> 1 \<Longrightarrow> 2 ^ ilog n \<le> n \<and> n < 2 ^ Suc (ilog n)"
proof (induction n rule: ilog.induct)
  case (1 n)
  show ?case
  proof (cases "n < 2")
    case True
    with 1 show ?thesis by (simp add: ilog.simps [of n])
  next
    case False
    with 1 have "2 ^ ilog (n div 2) \<le> n div 2" "n div 2 + 1 \<le> 2 * 2 ^ ilog (n div 2)" by force+
    moreover have "n \<le> 2 * (n div 2) + 1" by presburger
    ultimately have "2 * 2 ^ ilog (n div 2) \<le> n" "n < 2 * (2 * 2 ^ ilog (n div 2))" by linarith+
    with False show ?thesis by (simp add: ilog.simps [of n])
  qed
qed

text \<open>The exponent of a number: \<open>2 powi e \<le> \<bar>x\<bar> < 2 powi (e + 1)\<close>.\<close>

definition fexp :: "rat \<Rightarrow> int" where
  "fexp x =
     (case quotient_of \<bar>x\<bar> of
        (p, q) \<Rightarrow>
          let e = int (ilog p) - int (ilog q)
          in if 2 powi e \<le> \<bar>x\<bar> then e else e - 1)"

definition rne :: "rat \<Rightarrow> int" where
  "rne x =
     (let f = \<lfloor>x\<rfloor>; d = x - of_int f
      in if d < 1/2 then f else if d > 1/2 then f + 1 else if even f then f else f + 1)"

definition ulp :: "rat \<Rightarrow> rat" where
  "ulp x = 2 powi (fexp x - 52)"

definition fl :: "rat \<Rightarrow> float64" where
  "fl x = (if x = 0 then 0 else of_int (rne (x / ulp x)) * ulp x)"

lemma fexp_bounds:
  assumes "x \<noteq> 0"
  shows "2 powi fexp x \<le> \<bar>x\<bar>" "\<bar>x\<bar> < 2 powi (fexp x + 1)"
proof -
  obtain p q where pq: "quotient_of \<bar>x\<bar> = (p, q)" by fastforce
  from pq have q: "q > 0" by (rule quotient_of_denom_pos)
  from pq have x: "\<bar>x\<bar> = of_int p / of_int q" by (rule quotient_of_div)
  from assms have "0 < \<bar>x\<bar>" by simp
  with q have p: "p > 0" unfolding x by (simp add: zero_less_divide_iff)
  let ?a = "ilog p" and ?b = "ilog q"
  from ilog_bounds [of p] ilog_bounds [of q] p q
  have "of_int (2 ^ ?a) \<le> (of_int p :: rat)" "(of_int p :: rat) < of_int (2 ^ Suc ?a)"
    "of_int (2 ^ ?b) \<le> (of_int q :: rat)" "(of_int q :: rat) < of_int (2 ^ Suc ?b)"
    by (simp_all only: of_int_le_iff of_int_less_iff)
  then have b: "2 ^ ?a \<le> (of_int p :: rat)" "(of_int p :: rat) < 2 * 2 ^ ?a"
    "2 ^ ?b \<le> (of_int q :: rat)" "(of_int q :: rat) < 2 * 2 ^ ?b" by simp_all
  have e: "(2::rat) powi (int ?a - int ?b) = 2 ^ ?a / 2 ^ ?b"
    by (simp add: power_int_diff)
  have hi: "\<bar>x\<bar> < 2 * (2 ^ ?a / 2 ^ ?b)"
  proof -
    have "of_int p * 2 ^ ?b < (2 * 2 ^ ?a) * (2 ^ ?b :: rat)" using b(2) by (rule mult_strict_right_mono) simp
    also have "\<dots> \<le> (2 * 2 ^ ?a) * of_int q" using b(3) by simp
    finally show ?thesis using q by (simp add: x field_simps)
  qed
  have lo: "2 ^ ?a / 2 ^ ?b < 2 * \<bar>x\<bar>"
  proof -
    have "2 ^ ?a * of_int q < (2 ^ ?a :: rat) * (2 * 2 ^ ?b)" using b(4) by (rule mult_strict_left_mono) simp
    also have "\<dots> \<le> of_int p * (2 * 2 ^ ?b)" using b(1) by simp
    finally show ?thesis using q by (simp add: x field_simps)
  qed
  have f: "fexp x = (if 2 ^ ?a / 2 ^ ?b \<le> \<bar>x\<bar> then int ?a - int ?b else int ?a - int ?b - 1)"
    by (simp add: fexp_def pq Let_def e)
  have e1: "(2::rat) powi (int ?a - int ?b + 1) = 2 * (2 ^ ?a / 2 ^ ?b)"
    by (simp add: power_int_add e)
  have e2: "(2::rat) powi (int ?a - int ?b - 1) = (2 ^ ?a / 2 ^ ?b) / 2"
    by (simp add: power_int_diff)
  show "2 powi fexp x \<le> \<bar>x\<bar>" "\<bar>x\<bar> < 2 powi (fexp x + 1)"
    using hi lo by (auto simp: f e e1 e2)
qed

lemma pow2_mono: "a \<le> b \<Longrightarrow> (2::rat) powi a \<le> 2 powi b"
  by (rule power_int_increasing) simp_all

lemma pow2_lessD: "(2::rat) powi a < 2 powi b \<Longrightarrow> a < b"
  using pow2_mono [of b a] by linarith

lemma pow2_leD: "(2::rat) powi a \<le> 2 powi b \<Longrightarrow> a \<le> b"
  using power_int_strict_increasing [of b a "2::rat"] by (rule_tac ccontr) simp

lemma fexp_unique:
  assumes "2 powi e \<le> \<bar>x\<bar>" "\<bar>x\<bar> < 2 powi (e + 1)"
  shows "fexp x = e"
proof -
  have "(2::rat) powi e > 0" by simp
  with assms have "0 < \<bar>x\<bar>" by linarith
  then have "x \<noteq> 0" by simp
  from fexp_bounds [OF this] assms have "(2::rat) powi e < 2 powi (fexp x + 1)" "(2::rat) powi fexp x < 2 powi (e + 1)"
    by linarith+
  then have "e < fexp x + 1" "fexp x < e + 1" by (simp_all only: pow2_lessD)
  then show ?thesis by simp
qed

lemma ulp_pos [simp]: "ulp x > 0" "ulp x \<ge> 0" "ulp x \<noteq> 0"
  by (simp_all add: ulp_def)

lemma fl_0 [simp]: "fl 0 = 0"
  by (simp add: fl_def)

lemma rne_of_int [simp]: "rne (of_int n) = n"
  by (simp add: rne_def)

lemma rne_near: "of_int (rne x) - 1/2 \<le> x" "x \<le> of_int (rne x) + 1/2"
proof -
  have "of_int \<lfloor>x\<rfloor> \<le> x" "x < of_int \<lfloor>x\<rfloor> + 1" using floor_correct [of x] by simp_all
  then show "of_int (rne x) - 1/2 \<le> x" "x \<le> of_int (rne x) + 1/2"
    by (simp_all only: rne_def Let_def split: if_split) (simp_all, linarith+)
qed

lemma rne_mono:
  assumes "x \<le> y"
  shows "rne x \<le> rne y"
proof (rule ccontr)
  assume "\<not> rne x \<le> rne y"
  then have "rne y + 1 \<le> rne x" by simp
  then have "(of_int (rne y) :: rat) + 1 \<le> of_int (rne x)" by (metis of_int_1 of_int_add of_int_le_iff)
  with rne_near [of x] rne_near [of y] assms have "x = y" by linarith
  with \<open>rne y + 1 \<le> rne x\<close> show False by simp
qed

lemma rne_minus: "rne (- x) = - rne x"
proof (cases "x = of_int \<lfloor>x\<rfloor>")
  case True
  then show ?thesis by (metis of_int_minus rne_of_int)
next
  case False
  then have "\<lfloor>- x\<rfloor> = - \<lfloor>x\<rfloor> - 1"
    using of_int_floor_le [of x] floor_correct [of x] by (intro floor_unique) (simp_all, linarith+)
  then show ?thesis by (auto simp: rne_def Let_def)
qed

lemma fexp_minus [simp]: "fexp (- x) = fexp x"
  by (simp add: fexp_def)

lemma ulp_minus [simp]: "ulp (- x) = ulp x"
  by (simp add: ulp_def)

lemma fl_minus: "fl (- x) = - fl x"
  using rne_minus [of "x / ulp x"] by (simp add: fl_def)

text \<open>A number with at most 53 significant bits is not changed.\<close>

lemma fl_exact:
  assumes "\<bar>m\<bar> \<le> 2 ^ 53"
  shows "fl (of_int m * 2 powi k) = of_int m * 2 powi k"
proof (cases "m = 0")
  case False
  let ?x = "of_int m * 2 powi k :: rat"
  from False have x: "?x \<noteq> 0" by simp
  have "\<exists>n. ?x / ulp ?x = of_int n"
  proof (cases "fexp ?x - 52 \<le> k")
    case True
    have "?x / ulp ?x = of_int m * 2 powi (k - (fexp ?x - 52))"
      by (simp add: ulp_def power_int_diff)
    also have "\<dots> = of_int (m * 2 ^ nat (k - (fexp ?x - 52)))"
      using True by (simp add: power_int_def)
    finally show ?thesis by blast
  next
    case False
    from fexp_bounds(1) [OF x] have "2 powi fexp ?x \<le> of_int \<bar>m\<bar> * (2::rat) powi k"
      by (simp add: abs_mult)
    also have "\<dots> \<le> of_int (2 ^ 53) * 2 powi k"
      using assms by (intro mult_right_mono) (simp_all only: of_int_le_iff zero_le_power_int)
    also have "\<dots> = 2 powi (53 + k)" by (simp add: power_int_add)
    finally have le: "2 powi fexp ?x \<le> (2::rat) powi (53 + k)" .
    have "fexp ?x \<le> 53 + k" using le by (rule pow2_leD)
    with False have e: "fexp ?x = 53 + k" by simp
    from fexp_bounds(1) [OF x] have "(2::rat) ^ 53 * 2 powi k \<le> of_int \<bar>m\<bar> * 2 powi k"
      by (simp add: e abs_mult power_int_add)
    then have "(of_int (2 ^ 53) :: rat) \<le> of_int \<bar>m\<bar>" by simp
    with assms have "\<bar>m\<bar> = 2 ^ 53" unfolding of_int_le_iff by simp
    then have m: "m = sgn m * 2 ^ 53" by (metis abs_mult_sgn mult.commute)
    have "?x / ulp ?x = of_int m * (2 powi k / 2 powi (k + 1))"
      unfolding ulp_def e by (simp add: add.commute)
    also have "\<dots> = of_int (sgn m * 2 ^ 52)" by (subst m) (simp add: power_int_add)
    finally show ?thesis by blast
  qed
  then obtain n where n: "?x / ulp ?x = of_int n" ..
  then have "of_int (rne (?x / ulp ?x)) = ?x / ulp ?x" by (simp only: rne_of_int)
  with x show ?thesis unfolding fl_def by simp
qed simp

lemma fl_int: "\<bar>n\<bar> \<le> 2 ^ 53 \<Longrightarrow> fl (of_int n) = of_int n"
  using fl_exact [of n 0] by simp

lemma fl_pow2: "fl (2 powi k) = 2 powi k"
  using fl_exact [of 1 k] by simp

text \<open>The relative error is at most half a unit in the last place.\<close>

lemma fl_rel_error:
  assumes "x > 0"
  shows "\<bar>fl x - x\<bar> \<le> x / 2 ^ 53"
proof -
  have "\<bar>of_int (rne (x / ulp x)) - x / ulp x\<bar> \<le> 1/2"
    using rne_near [of "x / ulp x"] by linarith
  then have "\<bar>of_int (rne (x / ulp x)) - x / ulp x\<bar> * ulp x \<le> 1/2 * ulp x"
    by (rule mult_right_mono) simp
  then have "\<bar>(of_int (rne (x / ulp x)) - x / ulp x) * ulp x\<bar> \<le> 1/2 * ulp x"
    by (simp only: abs_mult abs_of_pos [OF ulp_pos(1)])
  then have "\<bar>fl x - x\<bar> \<le> ulp x / 2"
    using assms by (simp add: fl_def left_diff_distrib)
  also have "\<dots> = 2 powi fexp x / 2 ^ 53" by (simp add: ulp_def power_int_diff)
  also have "\<dots> \<le> x / 2 ^ 53" using fexp_bounds(1) [of x] assms by (simp add: divide_right_mono)
  finally show ?thesis .
qed

text \<open>Rounding is monotone: within a binade because \<open>rne\<close> is, across binades because powers of two are exact.\<close>

lemma fl_lower: "x > 0 \<Longrightarrow> 2 powi fexp x \<le> fl x"
proof -
  assume x: "x > 0"
  have "(2::rat) powi fexp x / ulp x = 2 powi (fexp x - (fexp x - 52))"
    unfolding ulp_def by (simp add: power_int_diff)
  then have q: "2 powi fexp x / ulp x = of_int (2 ^ 52)" by simp
  have "of_int (2 ^ 52) \<le> x / ulp x"
    using fexp_bounds(1) [of x] x unfolding q [symmetric] by (intro divide_right_mono) simp_all
  from rne_mono [OF this] have "2 ^ 52 \<le> rne (x / ulp x)" by (simp only: rne_of_int)
  then have "(of_int (2 ^ 52) :: rat) \<le> of_int (rne (x / ulp x))" by (simp only: of_int_le_iff)
  then have "of_int (2 ^ 52) * ulp x \<le> of_int (rne (x / ulp x)) * ulp x"
    by (rule mult_right_mono) simp
  moreover have "of_int (2 ^ 52) * ulp x = 2 powi fexp x" using q by (simp add: field_simps)
  ultimately have "of_int (rne (x / ulp x)) * ulp x \<ge> 2 powi fexp x" by argo
  with x show ?thesis by (simp add: fl_def)
qed

lemma fl_upper: "x > 0 \<Longrightarrow> fl x \<le> 2 powi (fexp x + 1)"
proof -
  assume x: "x > 0"
  have "(2::rat) powi (fexp x + 1) / ulp x = 2 powi (fexp x + 1 - (fexp x - 52))"
    unfolding ulp_def by (rule power_int_diff [symmetric]) simp
  then have q: "2 powi (fexp x + 1) / ulp x = of_int (2 ^ 53)" by simp
  have "x / ulp x \<le> of_int (2 ^ 53)"
    using fexp_bounds(2) [of x] x unfolding q [symmetric] by (intro divide_right_mono) simp_all
  from rne_mono [OF this] have "rne (x / ulp x) \<le> 2 ^ 53" by (simp only: rne_of_int)
  then have "(of_int (rne (x / ulp x)) :: rat) \<le> of_int (2 ^ 53)" by (simp only: of_int_le_iff)
  then have "of_int (rne (x / ulp x)) * ulp x \<le> of_int (2 ^ 53) * ulp x"
    by (rule mult_right_mono) simp
  moreover have "of_int (2 ^ 53) * ulp x = 2 powi (fexp x + 1)" using q by (simp add: field_simps)
  ultimately have "of_int (rne (x / ulp x)) * ulp x \<le> 2 powi (fexp x + 1)" by argo
  with x show ?thesis by (simp add: fl_def)
qed

lemma fl_pos: "x > 0 \<Longrightarrow> fl x > 0"
  using fl_lower [of x] zero_less_power_int [of "2::rat" "fexp x"] by linarith

lemma fexp_mono: "0 < x \<Longrightarrow> x \<le> y \<Longrightarrow> fexp x \<le> fexp y"
proof -
  assume a: "0 < x" "x \<le> y"
  then have "(2::rat) powi fexp x < 2 powi (fexp y + 1)"
    using fexp_bounds [of x] fexp_bounds [of y] by auto
  then show ?thesis using pow2_lessD by fastforce
qed

lemma fl_mono_pos:
  assumes "0 < x" "x \<le> y"
  shows "fl x \<le> fl y"
proof (cases "fexp x = fexp y")
  case True
  then have u: "ulp x = ulp y" by (simp add: ulp_def)
  have "x / ulp y \<le> y / ulp y" using assms by (intro divide_right_mono) simp_all
  from rne_mono [OF this] have "(of_int (rne (x / ulp y)) :: rat) \<le> of_int (rne (y / ulp y))"
    by (simp only: of_int_le_iff)
  then have "of_int (rne (x / ulp y)) * ulp y \<le> of_int (rne (y / ulp y)) * ulp y"
    by (rule mult_right_mono) simp
  with assms u show ?thesis by (simp add: fl_def)
next
  case False
  with fexp_mono [OF assms] have "fexp x + 1 \<le> fexp y" by simp
  from pow2_mono [OF this] fl_upper [of x] fl_lower [of y] assms show ?thesis by linarith
qed

lemma fl_mono: "x \<le> y \<Longrightarrow> fl x \<le> fl y"
proof -
  assume xy: "x \<le> y"
  consider "0 < x" | "x \<le> 0" "0 \<le> y" | "y < 0" using xy by linarith
  then show ?thesis
  proof cases
    case 1
    with xy show ?thesis by (simp add: fl_mono_pos)
  next
    case 2
    then have "fl x \<le> 0" "0 \<le> fl y"
      using fl_pos [of "- x"] fl_pos [of y] by (cases "x = 0"; cases "y = 0"; simp add: fl_minus)+
    then show ?thesis by simp
  next
    case 3
    with xy fl_mono_pos [of "- y" "- x"] show ?thesis by (simp add: fl_minus)
  qed
qed

lemma fl_ge_int: "of_int n \<le> x \<Longrightarrow> \<bar>n\<bar> \<le> 2 ^ 53 \<Longrightarrow> of_int n \<le> fl x"
  using fl_mono [of "of_int n" x] by (simp add: fl_int)

lemma fl_le_int: "x \<le> of_int n \<Longrightarrow> \<bar>n\<bar> \<le> 2 ^ 53 \<Longrightarrow> fl x \<le> of_int n"
  using fl_mono [of x "of_int n"] by (simp add: fl_int)

lemma fl_nonneg: "0 \<le> x \<Longrightarrow> 0 \<le> fl x"
  using fl_ge_int [of 0 x] by simp

section \<open>Conversions\<close>

text \<open>
  \<^verbatim>\<open>float64(n)\<close>, and \<^verbatim>\<open>int64(x)\<close>, which truncates towards zero; what it returns for a value that no
  \<^verbatim>\<open>int64\<close> represents depends on the processor and is a parameter.
\<close>

definition trunc :: "rat \<Rightarrow> int" where
  "trunc x = (if x < 0 then - \<lfloor>- x\<rfloor> else \<lfloor>x\<rfloor>)"

definition of_int64 :: "int \<Rightarrow> float64" where
  "of_int64 n = fl (of_int n)"

definition to_int64 :: "(rat \<Rightarrow> int) \<Rightarrow> float64 \<Rightarrow> int" where
  "to_int64 oor x = (if is_int64 (trunc x) then trunc x else oor x)"

lemma of_int64_small [simp]: "\<bar>n\<bar> \<le> 2 ^ 53 \<Longrightarrow> of_int64 n = of_int n"
  by (simp add: of_int64_def fl_int)

lemma trunc_of_int [simp]: "trunc (of_int n) = n"
  using floor_of_int [of "- n", where ?'a = rat] by (simp add: trunc_def)

section \<open>Decimal text\<close>

text \<open>
  \<^verbatim>\<open>fmt.Sprintf("%.6f", x)\<close>: the decimal with six places that is nearest to the exact value.
\<close>

definition pad6 :: "string \<Rightarrow> string" where
  "pad6 s = replicate (6 - length s) (CHR ''0'') @ s"

definition fmt6 :: "float64 \<Rightarrow> string" where
  "fmt6 x =
     (let m = rne (\<bar>x\<bar> * 1000000)
      in (if x < 0 then ''-'' else []) @ utoa (nat (m div 1000000)) @ ''.'' @ pad6 (utoa (nat (m mod 1000000))))"

text \<open>
  \<^verbatim>\<open>strconv.ParseFloat(s, 64)\<close>: digits with an optional sign and an optional fraction are rounded to the nearest double;
  the remaining notations (exponents, hexadecimal mantissas, \<^verbatim>\<open>inf\<close>, \<^verbatim>\<open>nan\<close>) and errors are a
  parameter.
\<close>

fun digits_val :: "nat \<Rightarrow> string \<Rightarrow> nat option" where
  "digits_val n [] = Some n"
| "digits_val n (c # cs) = (case digit_of c of None \<Rightarrow> None | Some d \<Rightarrow> digits_val (n * 10 + d) cs)"

definition parse_unsigned_decimal :: "string \<Rightarrow> rat option" where
  "parse_unsigned_decimal s =
     (let ip = takeWhile (\<lambda>c. c \<noteq> CHR ''.'') s;
          fp = tl (dropWhile (\<lambda>c. c \<noteq> CHR ''.'') s)
      in if ip @ fp = [] then None
         else map_option (\<lambda>n. of_nat n / 10 ^ length fp) (digits_val 0 (ip @ fp)))"

definition ParseFloat :: "(string \<Rightarrow> float64 option) \<Rightarrow> string \<Rightarrow> float64 option" where
  "ParseFloat other s =
     (let neg = (s \<noteq> [] \<and> hd s = CHR ''-'');
          body = (if s \<noteq> [] \<and> (hd s = CHR ''-'' \<or> hd s = CHR ''+'') then tl s else s)
      in case parse_unsigned_decimal body of
           Some v \<Rightarrow> Some (fl (if neg then - v else v))
         | None \<Rightarrow> other s)"

lemma digits_val_append:
  "digits_val n (xs @ ys) = (case digits_val n xs of None \<Rightarrow> None | Some m \<Rightarrow> digits_val m ys)"
  by (induction n xs rule: digits_val.induct) (auto split: option.split)

lemma digits_val_shift:
  "digits_val 0 xs = Some m \<Longrightarrow> digits_val n xs = Some (n * 10 ^ length xs + m)"
proof (induction xs arbitrary: m rule: rev_induct)
  case (snoc c xs)
  then obtain k d where "digits_val 0 xs = Some k" "digit_of c = Some d" "m = k * 10 + d"
    by (auto simp: digits_val_append split: option.splits)
  with snoc.IH show ?case by (simp add: digits_val_append algebra_simps)
qed simp

lemma digits_val_utoa: "digits_val 0 (utoa n) = Some n"
proof (induction n rule: utoa.induct)
  case (1 n)
  then show ?case
    by (cases "n < 10") (simp_all add: utoa.simps [of n] digit_of_char digits_val_append)
qed

lemma digits_val_zeros: "digits_val 0 (replicate k (CHR ''0'')) = Some 0"
  by (induction k) (simp_all add: digit_of_def)

lemma digits_val_pad6: "digits_val 0 (pad6 (utoa n)) = Some n"
  by (simp add: pad6_def digits_val_append digits_val_zeros digits_val_utoa)

lemma length_utoa: "n < 10 ^ k \<Longrightarrow> k > 0 \<Longrightarrow> length (utoa n) \<le> k"
proof (induction n arbitrary: k rule: utoa.induct)
  case (1 n)
  show ?case
  proof (cases "n < 10")
    case True
    with 1 show ?thesis by (simp add: utoa.simps [of n])
  next
    case False
    with 1 obtain j where k: "k = Suc j" "j > 0" by (cases k; cases "k - 1") auto
    with "1.prems" have "n div 10 < 10 ^ j" by (simp add: less_mult_imp_div_less)
    from "1.IH" [OF False this k(2)] False k show ?thesis by (simp add: utoa.simps [of n])
  qed
qed

lemma no_dot_utoa: "CHR ''.'' \<notin> set (utoa n)"
  using utoa_char_range [of "CHR ''.''" n] by (auto simp: digit_chars_def)

lemma fmt6_body:
  fixes m :: int
  assumes "m \<ge> 0"
  shows "parse_unsigned_decimal (utoa (nat (m div 1000000)) @ ''.'' @ pad6 (utoa (nat (m mod 1000000))))
    = Some (of_int m / 1000000)"
proof -
  let ?i = "utoa (nat (m div 1000000))" and ?f = "pad6 (utoa (nat (m mod 1000000)))"
  have "nat (m mod 1000000) < 10 ^ 6" by simp
  from length_utoa [OF this] have l: "length ?f = 6" by (simp add: pad6_def)
  have tw: "takeWhile (\<lambda>c. c \<noteq> CHR ''.'') (?i @ ''.'' @ ?f) = ?i"
    and dw: "dropWhile (\<lambda>c. c \<noteq> CHR ''.'') (?i @ ''.'' @ ?f) = ''.'' @ ?f"
    using no_dot_utoa by (simp_all add: takeWhile_append dropWhile_append)
  have "nat (m div 1000000) * 10 ^ 6 + nat (m mod 1000000) = nat m"
    using assms by (simp add: nat_div_distrib nat_mod_distrib)
  with digits_val_shift [OF digits_val_pad6, of "nat (m div 1000000)" "nat (m mod 1000000)"] l
  have "digits_val 0 (?i @ ?f) = Some (nat m)"
    by (simp add: digits_val_append digits_val_utoa)
  with assms l show ?thesis
    unfolding parse_unsigned_decimal_def tw dw Let_def by simp
qed

lemma ParseFloat_fmt6:
  assumes "x \<ge> 0"
  shows "ParseFloat other (fmt6 x) = Some (fl (of_int (rne (x * 1000000)) / 1000000))"
proof -
  from assms have m: "rne (x * 1000000) \<ge> 0" using rne_mono [of 0 "x * 1000000"] rne_of_int [of 0] by simp
  have "hd (utoa n) \<noteq> CHR ''-''" "hd (utoa n) \<noteq> CHR ''+''" for n
    using utoa_hd [of n] by (auto simp: digit_chars_def)
  with fmt6_body [OF m] assms show ?thesis
    by (simp add: ParseFloat_def fmt6_def Let_def hd_append)
qed

end
