(* ===== verification/IrcConfig.thy ===== *)
theory IrcConfig
  imports Float64
begin

text \<open>
  The configuration of an IRC connection, \<^verbatim>\<open>pkg/ircclient/config.go\<close>: the struct, its secure defaults and
  the check that every client must pass.  Durations are nanoseconds.
\<close>

record Config =
  icServer :: string
  icNick :: string
  icUsername :: string
  icPassword :: string
  icRealName :: string
  icTLS :: bool
  icTLSInsecureSkipVerify :: bool
  icSASL :: bool
  icSASLMech :: string
  icChannels :: "string list"
  icAutoRejoinOnKick :: bool
  icReconnect :: bool
  icMaxReconnectAttempts :: goint
  icPingFrequency :: duration
  icTimeout :: duration
  icQuitMessage :: string
  icDebug :: bool
  icRateLimit :: float64
  icRateLimitBurst :: goint
  icReconnectBackoff :: duration
  icMaxReconnectBackoff :: duration

abbreviation Second :: duration where
  "Second \<equiv> 1000000000"

definition DefaultConfig :: Config where
  "DefaultConfig =
     \<lparr>icServer = [], icNick = [], icUsername = [], icPassword = [], icRealName = [], icTLS = True,
      icTLSInsecureSkipVerify = False, icSASL = True, icSASLMech = ''PLAIN'', icChannels = [],
      icAutoRejoinOnKick = False, icReconnect = True, icMaxReconnectAttempts = 3,
      icPingFrequency = 120 * Second, icTimeout = 60 * Second, icQuitMessage = ''agent shutting down'',
      icDebug = False, icRateLimit = 2, icRateLimitBurst = 5, icReconnectBackoff = 1 * Second,
      icMaxReconnectBackoff = 120 * Second\<rparr>"

datatype config_error =
  ServerRequired | NickRequired | UsernameRequired | PasswordRequired | TLSRequired | SASLRequired

text \<open>The joined errors, in the order of the checks; no error is nil.\<close>

definition Validate :: "Config \<Rightarrow> config_error list" where
  "Validate c =
     (let errs = [];
          errs = (if icServer c = [] then errs @ [ServerRequired] else errs);
          errs = (if icNick c = [] then errs @ [NickRequired] else errs);
          errs = (if icUsername c = [] then errs @ [UsernameRequired] else errs);
          errs = (if icPassword c = [] then errs @ [PasswordRequired] else errs);
          errs = (if \<not> icTLS c then errs @ [TLSRequired] else errs);
          errs = (if \<not> icSASL c then errs @ [SASLRequired] else errs)
      in errs)"

lemma Validate_ok_iff:
  "Validate c = [] \<longleftrightarrow>
     icServer c \<noteq> [] \<and> icNick c \<noteq> [] \<and> icUsername c \<noteq> [] \<and> icPassword c \<noteq> [] \<and> icTLS c \<and> icSASL c"
  by (simp add: Validate_def Let_def)

text \<open>Every missing requirement is reported, each once, in the order of the fields.\<close>

lemma Validate_reports:
  "Validate c =
     filter (\<lambda>e. case e of
               ServerRequired \<Rightarrow> icServer c = [] | NickRequired \<Rightarrow> icNick c = []
             | UsernameRequired \<Rightarrow> icUsername c = [] | PasswordRequired \<Rightarrow> icPassword c = []
             | TLSRequired \<Rightarrow> \<not> icTLS c | SASLRequired \<Rightarrow> \<not> icSASL c)
       [ServerRequired, NickRequired, UsernameRequired, PasswordRequired, TLSRequired, SASLRequired]"
  by (simp add: Validate_def Let_def)

end
