(* ===== verification/Throttle.thy ===== *)
theory Throttle
  imports IrcConfig
begin

text \<open>
  The two mechanisms that slow an IRC client down: the exponential back-off with full jitter between
  reconnect attempts (\<^verbatim>\<open>pkg/ircclient/backoff.go\<close>) and the token bucket in front of every send
  (\<^verbatim>\<open>pkg/ircclient/ratelimiter.go\<close>).  The random source, the instants at which a sleeping goroutine wakes up and
  the conversion of an out-of-range double to an integer are parameters.
\<close>

section \<open>Back-off\<close>

record Backoff =
  boBase :: duration
  boMax :: duration
  boAttempt :: nat

definition NewBackoff :: "duration \<Rightarrow> duration \<Rightarrow> Backoff" where
  "NewBackoff base maxd = \<lparr>boBase = base, boMax = maxd, boAttempt = 0\<rparr>"

definition ceiling_of :: "(rat \<Rightarrow> int) \<Rightarrow> Backoff \<Rightarrow> int" where
  "ceiling_of oor b =
     (let e = 2 ^ boAttempt b;
          c = to_int64 oor (fl (of_int64 (boBase b) * e))
      in if c > boMax b \<or> c \<le> 0 then boMax b else c)"

text \<open>
  \<^verbatim>\<open>rand.Int64N(n)\<close> panics for a non-positive argument; the sum that is passed to it wraps around at 64 bits.
  A panic is \<^const>\<open>None\<close>.
\<close>

definition wrap64 :: "int \<Rightarrow> int" where
  "wrap64 n = (n + 2 ^ 63) mod 2 ^ 64 - 2 ^ 63"

definition Next :: "(rat \<Rightarrow> int) \<Rightarrow> (int \<Rightarrow> int) \<Rightarrow> Backoff \<Rightarrow> (duration \<times> Backoff) option" where
  "Next oor rand b =
     (let n = wrap64 (ceiling_of oor b + 1)
      in if n \<le> 0 then None else Some (rand n, b\<lparr>boAttempt := boAttempt b + 1\<rparr>))"

definition Reset_backoff :: "Backoff \<Rightarrow> Backoff" where
  "Reset_backoff b = b\<lparr>boAttempt := 0\<rparr>"

definition Attempt :: "Backoff \<Rightarrow> nat" where
  "Attempt b = boAttempt b"

text \<open>The documented behaviour of the random source: a number in the half-open interval.\<close>

definition rand_in_range :: "(int \<Rightarrow> int) \<Rightarrow> bool" where
  "rand_in_range rand \<longleftrightarrow> (\<forall>n > 0. 0 \<le> rand n \<and> rand n < n)"

lemma wrap64_id: "is_int64 n \<Longrightarrow> wrap64 n = n"
  by (simp add: wrap64_def is_int64_def)

lemma ceiling_of_bounds:
  assumes "0 < boMax b"
  shows "0 < ceiling_of oor b" "ceiling_of oor b \<le> boMax b"
  using assms by (auto simp: ceiling_of_def Let_def)

lemma ceiling_of_exact:
  assumes "0 < boBase b" "boBase b \<le> 2 ^ 53" "boBase b * 2 ^ boAttempt b \<le> boMax b" "boMax b < 2 ^ 63"
  shows "ceiling_of oor b = boBase b * 2 ^ boAttempt b"
proof -
  have "fl (of_int (boBase b) * 2 powi int (boAttempt b)) = of_int (boBase b) * 2 powi int (boAttempt b)"
    using assms by (intro fl_exact) simp
  then have f: "fl (of_int64 (boBase b) * 2 ^ boAttempt b) = of_int (boBase b * 2 ^ boAttempt b)"
    using assms by simp
  have "0 < boBase b * 2 ^ boAttempt b" using assms by simp
  with assms(3,4) have "is_int64 (boBase b * 2 ^ boAttempt b)" by (simp add: is_int64_def)
  with assms(3) \<open>0 < boBase b * 2 ^ boAttempt b\<close> show ?thesis
    unfolding ceiling_of_def f to_int64_def trunc_of_int Let_def by simp
qed

lemma Next_in_range:
  assumes "rand_in_range rand" "0 < boMax b" "boMax b < 2 ^ 63 - 1"
  shows "\<exists>d. Next oor rand b = Some (d, b\<lparr>boAttempt := boAttempt b + 1\<rparr>) \<and> 0 \<le> d \<and> d \<le> ceiling_of oor b"
proof -
  let ?c = "ceiling_of oor b"
  note c = ceiling_of_bounds [OF assms(2), of oor]
  with assms(3) have "is_int64 (?c + 1)" by (simp add: is_int64_def)
  then have n: "wrap64 (?c + 1) = ?c + 1" by (rule wrap64_id)
  from c have "0 < ?c + 1" by simp
  with assms(1) have "0 \<le> rand (?c + 1)" "rand (?c + 1) < ?c + 1" unfolding rand_in_range_def by blast+
  with c show ?thesis unfolding Next_def n by auto
qed

text \<open>
  C30.  A back-off delay is never negative and never longer than the configured maximum, computing it never
  panics, and while the exponential window fits below the maximum the delay is at most the base times two to the
  number of attempts.  This holds for every random source in range and for whatever a processor makes of a double that
  no integer represents.
\<close>

theorem backoff_bounds:
  assumes "rand_in_range rand" "0 < boBase b" "boBase b \<le> 2 ^ 53" "0 < boMax b" "boMax b < 2 ^ 63 - 1"
  shows "\<exists>d. Next oor rand b = Some (d, b\<lparr>boAttempt := Attempt b + 1\<rparr>) \<and> 0 \<le> d \<and> d \<le> boMax b
    \<and> (boBase b * 2 ^ Attempt b \<le> boMax b \<longrightarrow> d \<le> boBase b * 2 ^ Attempt b)"
  using Next_in_range [OF assms(1,4,5), of oor] ceiling_of_bounds(2) [OF assms(4), of oor]
    ceiling_of_exact [of b oor] assms by (fastforce simp: Attempt_def)

theorem backoff_bounds_witness:
  "let b = (NewBackoff Second (120 * Second))\<lparr>boAttempt := 3\<rparr>
   in \<exists>d. Next (\<lambda>_. 0) (\<lambda>n. n - 1) b = Some (d, b\<lparr>boAttempt := 4\<rparr>) \<and> 0 \<le> d \<and> d \<le> 8 * Second"
proof -
  let ?b = "(NewBackoff Second (120 * Second))\<lparr>boAttempt := 3\<rparr>"
  have "\<exists>d. Next (\<lambda>_. 0) (\<lambda>n. n - 1) ?b = Some (d, ?b\<lparr>boAttempt := Attempt ?b + 1\<rparr>) \<and> 0 \<le> d \<and> d \<le> boMax ?b
    \<and> (boBase ?b * 2 ^ Attempt ?b \<le> boMax ?b \<longrightarrow> d \<le> boBase ?b * 2 ^ Attempt ?b)"
    by (rule backoff_bounds) (simp_all add: NewBackoff_def rand_in_range_def)
  then show ?thesis by (auto simp: Let_def NewBackoff_def Attempt_def)
qed

section \<open>Rate limiter\<close>

record RateLimiter =
  rlTokens :: float64
  rlMaxTokens :: float64
  rlRefillRate :: float64
  rlLastRefill :: gotime

definition NewRateLimiter :: "gotime \<Rightarrow> float64 \<Rightarrow> goint \<Rightarrow> RateLimiter" where
  "NewRateLimiter now rate burst =
     \<lparr>rlTokens = of_int64 burst, rlMaxTokens = of_int64 burst, rlRefillRate = rate, rlLastRefill = now\<rparr>"

text \<open>\<^verbatim>\<open>Duration.Seconds\<close>: whole seconds and the remaining nanoseconds, with truncating division.\<close>

definition Seconds :: "duration \<Rightarrow> float64" where
  "Seconds d =
     (let sec = sgn d * (\<bar>d\<bar> div Second); nsec = sgn d * (\<bar>d\<bar> mod Second)
      in fl (of_int64 sec + fl (of_int64 nsec / 1000000000)))"

definition refill :: "gotime \<Rightarrow> RateLimiter \<Rightarrow> RateLimiter" where
  "refill now r =
     (let elapsed = Seconds (now - rlLastRefill r);
          tokens = fl (rlTokens r + fl (elapsed * rlRefillRate r));
          tokens = (if tokens > rlMaxTokens r then rlMaxTokens r else tokens)
      in r\<lparr>rlTokens := tokens, rlLastRefill := now\<rparr>)"

definition Allow :: "gotime \<Rightarrow> RateLimiter \<Rightarrow> bool \<times> RateLimiter" where
  "Allow now r =
     (let r = refill now r
      in if rlTokens r \<ge> 1 then (True, r\<lparr>rlTokens := fl (rlTokens r - 1)\<rparr>) else (False, r))"

text \<open>
  \<^verbatim>\<open>Wait\<close> may loop for ever, so it is a partial function; \<^const>\<open>None\<close> is a call that does not return.  For a sleep
  that begins at an instant and is meant to last a while, the environment decides whether the context is
  cancelled during it and when the loop body runs next.
\<close>

record waits =
  wtCancelled :: "gotime \<Rightarrow> duration \<Rightarrow> bool"
  wtWake :: "gotime \<Rightarrow> duration \<Rightarrow> gotime"
  wtOutOfRange :: "rat \<Rightarrow> int"

definition waitDur :: "waits \<Rightarrow> RateLimiter \<Rightarrow> duration" where
  "waitDur env r =
     (let deficit = fl (1 - rlTokens r)
      in to_int64 (wtOutOfRange env) (fl (fl (deficit / rlRefillRate r) * 1000000000)))"

text \<open>Whether a token was taken (\<^verbatim>\<open>nil\<close>) or the context was cancelled.\<close>

partial_function (option) Wait :: "waits \<Rightarrow> gotime \<Rightarrow> RateLimiter \<Rightarrow> (bool \<times> gotime \<times> RateLimiter) option" where
  "Wait env now r =
     (let r = refill now r
      in if rlTokens r \<ge> 1 then Some (True, now, r\<lparr>rlTokens := fl (rlTokens r - 1)\<rparr>)
         else if wtCancelled env now (waitDur env r) then Some (False, now, r)
         else Wait env (wtWake env now (waitDur env r)) r)"

lemma rlMaxTokens_refill [simp]: "rlMaxTokens (refill now r) = rlMaxTokens r"
  "rlRefillRate (refill now r) = rlRefillRate r" "rlLastRefill (refill now r) = now"
  by (simp_all add: refill_def Let_def)

lemma rlTokens_refill_le: "rlTokens (refill now r) \<le> rlMaxTokens r"
  by (simp add: refill_def Let_def)

lemma Seconds_0 [simp]: "Seconds 0 = 0"
  by (simp add: Seconds_def)

text \<open>How often a number of attempts at given instants succeed.\<close>

fun allowed :: "gotime list \<Rightarrow> RateLimiter \<Rightarrow> nat" where
  "allowed [] r = 0"
| "allowed (t # ts) r =
     (case Allow t r of (ok, r') \<Rightarrow> (if ok then 1 else 0) + allowed ts r')"

lemma Allow_simps:
  "fst (Allow now r) \<longleftrightarrow> rlTokens (refill now r) \<ge> 1"
  "rlMaxTokens (snd (Allow now r)) = rlMaxTokens r"
  "rlLastRefill (snd (Allow now r)) = now"
  by (simp_all add: Allow_def Let_def)

text \<open>
  Without a lapse of time a bucket with at most \<open>k\<close> tokens lets at most \<open>k\<close> messages pass.  Rounding cannot add
  one, because it is monotone and exact on integers.
\<close>

lemma refill_same_instant:
  assumes "rlLastRefill r = t" "rlTokens r \<le> of_nat k" "k \<le> 2 ^ 53"
  shows "rlTokens (refill t r) \<le> of_nat k"
  using assms fl_le_int [of "rlTokens r" "int k"]
  by (simp add: refill_def Let_def of_nat_le_numeral_power_cancel_iff)

lemma allowed_instant:
  assumes "rlTokens (refill t r) \<le> of_nat k" "k \<le> 2 ^ 53"
  shows "allowed (replicate n t) r \<le> k"
  using assms
proof (induction n arbitrary: r k)
  case (Suc n)
  let ?r = "refill t r"
  show ?case
  proof (cases "rlTokens ?r \<ge> 1")
    case True
    with Suc.prems obtain j where k: "k = Suc j" by (cases k) auto
    let ?r' = "?r\<lparr>rlTokens := fl (rlTokens ?r - 1)\<rparr>"
    have "rlTokens ?r' \<le> of_nat j"
      using k Suc.prems fl_le_int [of "rlTokens ?r - 1" "int j"] by simp
    then have "rlTokens (refill t ?r') \<le> of_nat j"
      using k Suc.prems by (intro refill_same_instant) simp_all
    with Suc.IH [of ?r' j] Suc.prems k have "allowed (replicate n t) ?r' \<le> j" by simp
    with True k show ?thesis by (simp add: Allow_def Let_def)
  next
    case False
    have "rlTokens (refill t ?r) \<le> of_nat k"
      using Suc.prems by (intro refill_same_instant [of ?r]) simp_all
    with Suc.IH [of ?r k] False Suc.prems show ?thesis by (simp add: Allow_def Let_def)
  qed
qed simp

lemma allowed_full:
  assumes "rlLastRefill r = t" "rlTokens r = of_nat k" "of_nat k \<le> rlMaxTokens r" "k \<le> 2 ^ 53"
  shows "allowed (replicate n t) r = min n k"
  using assms
proof (induction n arbitrary: r k)
  case (Suc n)
  then have f: "fl (of_nat k) = of_nat k" using fl_int [of "int k"] by (simp add: of_nat_le_numeral_power_cancel_iff)
  with Suc.prems have r: "refill t r = r" by (simp add: refill_def Let_def)
  show ?case
  proof (cases k)
    case 0
    have "refill t r = r" by (rule r)
    with 0 Suc show ?thesis by (simp add: Allow_def Let_def)
  next
    case (Suc j)
    then have "fl (rlTokens r - 1) = of_nat j"
      using Suc.prems fl_int [of "int j"] by (simp add: of_nat_le_numeral_power_cancel_iff)
    with Suc Suc.prems Suc.IH [of "r\<lparr>rlTokens := of_nat j\<rparr>" j] r show ?thesis by (simp add: Allow_def Let_def)
  qed
qed simp

text \<open>The limiter after a history of attempts.\<close>

definition limiter_run :: "gotime list \<Rightarrow> RateLimiter \<Rightarrow> RateLimiter" where
  "limiter_run ts r = fold (\<lambda>t r. snd (Allow t r)) ts r"

lemma limiter_run_max: "rlMaxTokens (limiter_run ts r) = rlMaxTokens r"
  unfolding limiter_run_def by (induction ts arbitrary: r) (simp_all add: Allow_simps)

text \<open>
  C31.  The burst size bounds what a client can send at once: after whatever history of attempts, of any number of
  further attempts at one instant at most \<open>burst\<close> succeed, and a fresh limiter lets exactly that many pass.
\<close>

theorem burst_bounds_sends:
  assumes "0 \<le> burst" "burst \<le> 2 ^ 53"
  shows "allowed (replicate n t) (limiter_run ts (NewRateLimiter t0 rate burst)) \<le> nat burst
    \<and> allowed (replicate n t) (NewRateLimiter t rate burst) = min n (nat burst)"
proof
  let ?r = "limiter_run ts (NewRateLimiter t0 rate burst)"
  have k: "nat burst \<le> 2 ^ 53" "of_int burst = (of_nat (nat burst) :: rat)" using assms by simp_all
  have "rlTokens (refill t ?r) \<le> of_nat (nat burst)"
    using rlTokens_refill_le [of t ?r] assms by (simp add: limiter_run_max NewRateLimiter_def)
  then show "allowed (replicate n t) ?r \<le> nat burst" using k(1) by (rule allowed_instant)
  show "allowed (replicate n t) (NewRateLimiter t rate burst) = min n (nat burst)"
    using assms k(1) by (intro allowed_full) (simp_all add: NewRateLimiter_def)
qed

theorem burst_bounds_sends_witness:
  "allowed [7, 7, 7] (limiter_run [1, 2] (NewRateLimiter 0 2 2)) \<le> 2
   \<and> allowed [7, 7, 7] (NewRateLimiter 7 2 2) = 2"
  using burst_bounds_sends [of 2 3 7 "[1, 2]" 0 2] by (simp add: numeral_3_eq_3)

lemma Wait_result:
  "Wait env now r = Some y \<Longrightarrow>
     (if fst y then 1 \<le> rlMaxTokens r else \<exists>t d. wtCancelled env t d)"
proof (erule Wait.raw_induct [rotated], goal_cases)
  case (1 W env now r y)
  note le = rlTokens_refill_le [of now r]
  show ?case
  proof (cases "1 \<le> rlTokens (refill now r)")
    case True
    with 1(2) le show ?thesis by (auto simp: Let_def)
  next
    case False
    note f = False
    show ?thesis
    proof (cases "wtCancelled env now (waitDur env (refill now r))")
      case True
      with f 1(2) have "\<not> fst y" by (auto simp: Let_def)
      with True show ?thesis by auto
    next
      case False
      with f 1(2) have "W env (wtWake env now (waitDur env (refill now r))) (refill now r) = Some y"
        by (simp add: Let_def)
      from 1(1) [OF this] show ?thesis by (simp only: rlMaxTokens_refill)
    qed
  qed
qed

lemma zero_burst_blocks_forever:
  assumes "burst \<le> 0" "- (2 ^ 53) \<le> burst" "\<forall>t d. \<not> wtCancelled env t d"
  shows "Wait env now (limiter_run ts (NewRateLimiter t0 rate burst)) = None
    \<and> allowed ts' (limiter_run ts (NewRateLimiter t0 rate burst)) = 0"
proof -
  have small: "rlMaxTokens (limiter_run ts (NewRateLimiter t0 rate burst)) < 1"
    using assms(1,2) by (simp add: limiter_run_max NewRateLimiter_def)
  then have "Wait env now (limiter_run ts (NewRateLimiter t0 rate burst)) = None"
    using Wait_result [of env now "limiter_run ts (NewRateLimiter t0 rate burst)"] assms(3)
    by (metis linorder_not_less option.exhaust)
  moreover have "allowed ts' r = 0" if "rlMaxTokens r < 1" for r
    using that
  proof (induction ts' arbitrary: r)
    case (Cons t ts')
    have "\<not> fst (Allow t r)" using Cons.prems rlTokens_refill_le [of t r] by (simp add: Allow_simps)
    with Cons Allow_simps(2) [of t r] show ?case by (simp add: case_prod_beta)
  qed simp
  ultimately show ?thesis using small by blast
qed

text \<open>
  The computed sleep is long enough up to rounding: with a rate of at least one message in a hundred seconds, two extra nanoseconds
  make up for every rounding error on the way from the deficit to the duration and back.
\<close>

abbreviation kappa :: rat where
  "kappa \<equiv> 1 - 1 / 2 ^ 53"

lemma fl_lower_rel: "x \<ge> 0 \<Longrightarrow> kappa * x \<le> fl x"
proof (cases "x = 0")
  case False
  moreover assume "x \<ge> 0"
  ultimately have "\<bar>fl x - x\<bar> \<le> x / 2 ^ 53" by (intro fl_rel_error) simp
  then have "x - x / 2 ^ 53 \<le> fl x" by linarith
  then show ?thesis by (simp add: left_diff_distrib)
qed simp

lemma Seconds_lower:
  assumes "el \<ge> 0"
  shows "kappa ^ 3 * of_int el \<le> Seconds el * 1000000000" "0 \<le> Seconds el"
proof -
  let ?s = "el div Second" and ?n = "el mod Second"
  let ?a = "fl (of_int ?s)" and ?b = "fl (of_int ?n)" and ?c = "fl (fl (of_int ?n) / 1000000000)"
  have S: "Seconds el = fl (?a + ?c)"
    using assms by (cases "el = 0") (simp_all add: Seconds_def of_int64_def)
  have nn: "0 \<le> (of_int ?s :: rat)" "0 \<le> (of_int ?n :: rat)" using assms by (simp_all add: pos_imp_zdiv_nonneg_iff)
  have a: "kappa * of_int ?s \<le> ?a" and b: "kappa * of_int ?n \<le> ?b" using nn by (simp_all only: fl_lower_rel)
  have b0: "0 \<le> ?a" "0 \<le> ?b" using nn by (simp_all only: fl_nonneg)
  have c: "kappa * (?b / 1000000000) \<le> ?c" and c0: "0 \<le> ?c"
    using b0 by (simp_all only: fl_lower_rel fl_nonneg divide_nonneg_nonneg zero_le_numeral)
  have "kappa * (?a + ?c) \<le> Seconds el" unfolding S using b0 c0 by (intro fl_lower_rel) simp
  moreover have "(of_int el :: rat) = of_int ?s * 1000000000 + of_int ?n"
    by (metis div_mult_mod_eq of_int_add of_int_mult of_int_numeral)
  ultimately show "kappa ^ 3 * of_int el \<le> Seconds el * 1000000000"
    using a b c nn by (simp add: field_simps)
  show "0 \<le> Seconds el" unfolding S using b0 c0 by (intro fl_nonneg) simp
qed

lemma sleep_suffices:
  assumes t: "0 \<le> t" "t < 1" and rho: "1/100 \<le> rho"
    and m: "m = fl (fl (fl (1 - t) / rho) * 1000000000)" and el: "m + 1 \<le> of_int el"
  shows "1 - t \<le> fl (Seconds el * rho)"
proof -
  have r0: "0 < rho" "0 \<le> rho" using rho by linarith+
  let ?D = "fl (1 - t)" and ?q = "fl (fl (1 - t) / rho)"
  have D: "kappa * (1 - t) \<le> ?D" "0 \<le> ?D" 
    using t fl_lower_rel [of "1 - t"] fl_nonneg [of "1 - t"] by simp_all
  have "kappa * (?D / rho) \<le> ?q" "0 \<le> ?q"
    using D r0 by (simp_all only: fl_lower_rel fl_nonneg divide_nonneg_pos)
  then have q: "kappa * ?D \<le> ?q * rho" "0 \<le> ?q" using r0 by (simp_all add: field_simps)
  have "kappa * (?q * 1000000000) \<le> m" "0 \<le> m" unfolding m using q by (simp_all only: fl_lower_rel fl_nonneg)
  then have "kappa * (?q * 1000000000) * rho \<le> m * rho" and m0: "0 \<le> m" using r0 by (simp_all add: mult_right_mono)
  then have mr: "kappa ^ 3 * (1 - t) * 1000000000 \<le> m * rho" using q D by (simp add: field_simps)
  have "0 \<le> (of_int el :: rat)" using el m0 by linarith
  then have el0: "0 \<le> el" by simp
  have "(m + 1) * rho \<le> of_int el * rho" using el r0 by (simp add: mult_right_mono)
  then have er: "kappa ^ 3 * (1 - t) * 1000000000 + rho \<le> of_int el * rho"
    using mr by (simp add: distrib_right)
  have S: "kappa ^ 3 * of_int el * rho \<le> Seconds el * 1000000000 * rho" "0 \<le> Seconds el * rho"
    using Seconds_lower [OF el0] r0 by (simp_all only: mult_right_mono mult_nonneg_nonneg)
  have "kappa * (Seconds el * rho) \<le> fl (Seconds el * rho)" using S(2) by (rule fl_lower_rel)
  with S(1) have "kappa ^ 4 * (of_int el * rho) \<le> fl (Seconds el * rho) * 1000000000" by (simp add: field_simps)
  moreover have "kappa ^ 4 * (kappa ^ 3 * (1 - t) * 1000000000 + rho) \<le> kappa ^ 4 * (of_int el * rho)"
    using er by (rule mult_left_mono) simp
  ultimately have "kappa ^ 7 * (1 - t) * 1000000000 + kappa ^ 4 * rho \<le> fl (Seconds el * rho) * 1000000000"
    by (simp add: field_simps)
  moreover have "(1 - t) - 7 / 2 ^ 53 \<le> kappa ^ 7 * (1 - t)"
  proof -
    have "(1 - kappa ^ 7) * (1 - t) \<le> (7 / 2 ^ 53) * 1" using t by (intro mult_mono) (simp_all add: field_simps)
    then show ?thesis by (simp add: left_diff_distrib)
  qed
  moreover have "1 / 200 \<le> kappa ^ 4 * rho"
  proof -
    have "1/2 * (1/100) \<le> kappa ^ 4 * rho" using rho by (intro mult_mono) (simp_all add: power_divide)
    then show ?thesis by simp
  qed
  ultimately show ?thesis by (simp add: field_simps)
qed

lemma refill_nonneg:
  assumes "0 \<le> rlTokens r" "0 \<le> rlMaxTokens r" "0 \<le> rlRefillRate r" "rlLastRefill r \<le> now"
  shows "0 \<le> rlTokens (refill now r)"
proof -
  have "0 \<le> Seconds (now - rlLastRefill r)" using assms by (intro Seconds_lower) simp
  with assms show ?thesis by (simp add: refill_def Let_def fl_nonneg)
qed

lemma limiter_run_inv:
  assumes "0 \<le> rlTokens r" "0 \<le> rlMaxTokens r" "0 \<le> rlRefillRate r" "sorted (rlLastRefill r # ts)"
  shows "0 \<le> rlTokens (limiter_run ts r)" "rlRefillRate (limiter_run ts r) = rlRefillRate r"
    "rlLastRefill (limiter_run ts r) = last (rlLastRefill r # ts)"
proof -
  have "0 \<le> rlTokens (limiter_run ts r) \<and> rlRefillRate (limiter_run ts r) = rlRefillRate r
    \<and> rlLastRefill (limiter_run ts r) = last (rlLastRefill r # ts)"
    using assms
  proof (induction ts arbitrary: r)
    case (Cons t ts)
    let ?r = "snd (Allow t r)"
    have "0 \<le> rlTokens (refill t r)" using Cons.prems by (intro refill_nonneg) simp_all
    then have "0 \<le> rlTokens ?r" "rlMaxTokens ?r = rlMaxTokens r" "rlRefillRate ?r = rlRefillRate r"
      "rlLastRefill ?r = t" by (simp_all add: Allow_def Let_def fl_nonneg)
    with Cons.prems Cons.IH [of ?r] show ?case by (simp add: limiter_run_def)
  qed (simp add: limiter_run_def)
  then show "0 \<le> rlTokens (limiter_run ts r)" "rlRefillRate (limiter_run ts r) = rlRefillRate r"
    "rlLastRefill (limiter_run ts r) = last (rlLastRefill r # ts)" by blast+
qed

text \<open>A timer does not fire early, and the loop body runs at least two nanoseconds after the interval.\<close>

definition late_timer :: "waits \<Rightarrow> bool" where
  "late_timer env \<longleftrightarrow> (\<forall>t d. t + d + 2 \<le> wtWake env t d)"

lemma Wait_second_try:
  assumes r: "0 \<le> rlTokens r" "1 \<le> rlMaxTokens r" "1/100 \<le> rlRefillRate r" "rlLastRefill r = now"
    and t: "rlTokens r < 1" and late: "late_timer env"
  shows "1 \<le> rlTokens (refill (wtWake env now (waitDur env r)) r)"
proof -
  let ?m = "fl (fl (fl (1 - rlTokens r) / rlRefillRate r) * 1000000000)"
  let ?d = "waitDur env r" and ?el = "wtWake env now (waitDur env r) - now"
  have m0: "0 \<le> ?m" using r t by (simp add: fl_nonneg)
  have D1: "fl (1 - rlTokens r) \<le> of_int 1" using r by (intro fl_le_int) simp_all
  then have "fl (1 - rlTokens r) / rlRefillRate r \<le> of_int 100" using r by (simp add: field_simps)
  then have "fl (fl (1 - rlTokens r) / rlRefillRate r) \<le> of_int 100" by (rule fl_le_int) simp
  then have "fl (fl (1 - rlTokens r) / rlRefillRate r) * 1000000000 \<le> of_int 100000000000" by simp
  then have m1: "?m \<le> of_int 100000000000" by (rule fl_le_int) simp
  have tr: "trunc ?m = \<lfloor>?m\<rfloor>" using m0 by (simp add: trunc_def)
  have "0 \<le> \<lfloor>?m\<rfloor>" "\<lfloor>?m\<rfloor> \<le> 100000000000" using m0 m1 by (simp_all add: floor_le_iff le_floor_iff)
  then have d: "?d = \<lfloor>?m\<rfloor>" by (simp add: waitDur_def to_int64_def Let_def tr is_int64_def)
  have "now + ?d + 2 \<le> wtWake env now ?d" using late by (simp only: late_timer_def)
  then have "?d + 2 \<le> ?el" by linarith
  then have "of_int \<lfloor>?m\<rfloor> + 2 \<le> (of_int ?el :: rat)" unfolding d by (metis of_int_add of_int_le_iff of_int_numeral)
  then have "?m + 1 \<le> of_int ?el" using floor_correct [of ?m] by linarith
  from sleep_suffices [OF r(1) t r(3) refl this]
  have "1 \<le> fl (rlTokens r + fl (Seconds ?el * rlRefillRate r))"
    using fl_ge_int [of 1 "rlTokens r + fl (Seconds ?el * rlRefillRate r)"] by simp
  with r show ?thesis by (simp add: refill_def Let_def)
qed

text \<open>
  With a burst of at least one and a rate of at least one message per hundred seconds a send is never held up for
  good: a call that waits for a token gets one, at once or after a single sleep, whatever was sent before.
\<close>

theorem wait_takes_one_sleep:
  assumes "1 \<le> burst" "burst \<le> 2 ^ 53" "1/100 \<le> rate" "sorted (t0 # ts @ [now])"
    and "late_timer env" "\<forall>t d. \<not> wtCancelled env t d"
  shows "\<exists>t r'. Wait env now (limiter_run ts (NewRateLimiter t0 rate burst)) = Some (True, t, r')
    \<and> (t = now \<or> (\<exists>d. t = wtWake env now d))"
proof -
  let ?r = "limiter_run ts (NewRateLimiter t0 rate burst)"
  let ?s = "refill now ?r"
  have new: "0 \<le> rlTokens (NewRateLimiter t0 rate burst)" "0 \<le> rlMaxTokens (NewRateLimiter t0 rate burst)"
    "0 \<le> rlRefillRate (NewRateLimiter t0 rate burst)" "sorted (rlLastRefill (NewRateLimiter t0 rate burst) # ts)"
    using assms by (simp_all add: NewRateLimiter_def sorted_append)
  note inv = limiter_run_inv [OF new]
  have max: "rlMaxTokens ?r = of_int burst" using assms by (simp add: limiter_run_max NewRateLimiter_def)
  have rate: "rlRefillRate ?r = rate" using inv by (simp add: NewRateLimiter_def)
  have "rlLastRefill ?r \<le> now"
    using inv assms(4) by (auto simp: NewRateLimiter_def sorted_append dest: last_in_set)
  with inv max rate assms have nn: "0 \<le> rlTokens ?s" by (intro refill_nonneg) simp_all
  show ?thesis
  proof (cases "1 \<le> rlTokens ?s")
    case True
    then show ?thesis by (subst Wait.simps) (simp add: Let_def)
  next
    case False
    from nn False max rate assms have "1 \<le> rlTokens (refill (wtWake env now (waitDur env ?s)) ?s)"
      by (intro Wait_second_try) simp_all
    then have "\<exists>r'. Wait env (wtWake env now (waitDur env ?s)) ?s = Some (True, wtWake env now (waitDur env ?s), r')"
      by (subst Wait.simps) (simp add: Let_def)
    with False assms(6) show ?thesis by (subst Wait.simps) (auto simp: Let_def)
  qed
qed

theorem wait_takes_one_sleep_witness:
  "\<exists>t r'. Wait \<lparr>wtCancelled = (\<lambda>_ _. False), wtWake = (\<lambda>t d. t + d + 2), wtOutOfRange = (\<lambda>_. 0)\<rparr> 5
     (limiter_run [1, 2] (NewRateLimiter 0 2 1)) = Some (True, t, r')"
  using wait_takes_one_sleep
    [of 1 2 0 "[1, 2]" 5 "\<lparr>wtCancelled = (\<lambda>_ _. False), wtWake = (\<lambda>t d. t + d + 2), wtOutOfRange = (\<lambda>_. 0)\<rparr>"]
  by (auto simp: late_timer_def)

end
