(* ===== verification/IrcEvents.thy ===== *)
theory IrcEvents
  imports Prelude
begin

text \<open>
  What the components see of the IRC client interface in \<^verbatim>\<open>pkg/ircclient/client.go\<close>: the message event a
  handler receives, and the calls of \<^verbatim>\<open>SendMessage\<close> it makes, in order, as pairs of a target and a text.
\<close>

record MessageEvent =
  meChannel :: string
  meNick :: string
  meUser :: string
  meHost :: string
  meMessage :: string
  meIsNotice :: bool
  meTimestamp :: gotime

type_synonym outbox = "(string \<times> string) list"

end
