(* ===== verification/Interfaces.thy ===== *)
theory Interfaces
  imports Prelude
begin

text \<open>
  The contracts that components rely on, as locales.  Each is interpreted on the definitions of the
  component that provides it, in that component's theory.
\<close>

section \<open>A store driven by operations\<close>

text \<open>
  Every store of the program is a mutex-protected value that changes by whole operations.  If each
  operation keeps an invariant, every sequence of operations does, however the callers interleave.
\<close>

locale guarded_store =
  fixes init :: 's
    and apply_op :: "'op \<Rightarrow> 's \<Rightarrow> 's"
    and inv :: "'s \<Rightarrow> bool"
  assumes inv_init: "inv init"
    and inv_apply: "inv s \<Longrightarrow> inv (apply_op x s)"
begin

lemma inv_fold: "inv s \<Longrightarrow> inv (fold apply_op xs s)"
  by (induction xs arbitrary: s) (auto intro: inv_apply)

lemma inv_run: "inv (fold apply_op xs init)"
  by (rule inv_fold [OF inv_init])

lemma inv_prefix: "inv (fold apply_op (take n xs) init)"
  by (rule inv_run)

end

section \<open>Text forms\<close>

text \<open>A printer and a parser that recovers the image of every well-formed value.\<close>

locale wire_format =
  fixes print :: "'m \<Rightarrow> string"
    and parse :: "string \<Rightarrow> 'e + 'm"
    and wf :: "'m \<Rightarrow> bool"
    and image :: "'m \<Rightarrow> 'm"
  assumes parse_print: "wf m \<Longrightarrow> parse (print m) = Inr (image m)"
begin

lemma print_inj_image: "wf m \<Longrightarrow> wf m' \<Longrightarrow> print m = print m' \<Longrightarrow> image m = image m'"
  using parse_print [of m] parse_print [of m'] by simp

lemma parse_print_list:
  "\<forall>m \<in> set ms. wf m \<Longrightarrow> map (parse \<circ> print) ms = map (Inr \<circ> image) ms"
  by (simp add: parse_print)

end

section \<open>Ordered rule lists\<close>

text \<open>The first rule that matches a request decides; without a match a default does.\<close>

locale first_match =
  fixes check :: "'r list \<Rightarrow> 'q \<Rightarrow> bool"
    and matches :: "'r \<Rightarrow> 'q \<Rightarrow> bool"
    and decision :: "'r \<Rightarrow> bool"
    and default_decision :: bool
  assumes check_Nil: "check [] q = default_decision"
    and check_Cons: "check (r # rs) q = (if matches r q then decision r else check rs q)"
begin

lemma check_skip: "\<forall>r \<in> set rs. \<not> matches r q \<Longrightarrow> check (rs @ rs') q = check rs' q"
  by (induction rs) (simp_all add: check_Cons)

lemma check_first:
  "\<forall>r \<in> set rs. \<not> matches r q \<Longrightarrow> matches r q \<Longrightarrow> check (rs @ r # rs') q = decision r"
  by (simp add: check_skip check_Cons)

lemma check_no_match: "\<forall>r \<in> set rs. \<not> matches r q \<Longrightarrow> check rs q = default_decision"
  using check_skip [of rs q "[]"] by (simp add: check_Nil)

lemma check_shadowed:
  "\<exists>r' \<in> set rs. matches r' q \<Longrightarrow> check (rs @ rs') q = check rs q"
  by (induction rs) (auto simp: check_Cons)

lemma check_find:
  "check rs q = (case find (\<lambda>r. matches r q) rs of None \<Rightarrow> default_decision | Some r \<Rightarrow> decision r)"
  by (induction rs) (auto simp: check_Nil check_Cons)

end

section \<open>Histories kept per key\<close>

text \<open>
  Gate checks and checkpoints are appended to a list per task and never removed: the history of a key
  is exactly what was recorded for it, in order, and recording under one key leaves the others alone.
\<close>

locale keyed_history =
  fixes history :: "'s \<Rightarrow> string \<Rightarrow> 'r list"
    and record_entry :: "string \<Rightarrow> 'a \<Rightarrow> 's \<Rightarrow> 's"
    and entry :: "string \<Rightarrow> 'a \<Rightarrow> 'r"
  assumes history_record:
    "history (record_entry k a s) k' = (if k' = k then history s k @ [entry k a] else history s k')"
begin

lemma history_fold:
  "history (fold (\<lambda>(k, a). record_entry k a) kas s) k =
     history s k @ map (\<lambda>(k, a). entry k a) (filter (\<lambda>(k', a). k' = k) kas)"
  by (induction kas arbitrary: s) (auto simp: history_record)

lemma history_last: "last (history (record_entry k a s) k) = entry k a"
  by (simp add: history_record)

end

section \<open>Latest value per key\<close>

text \<open>Votes, workflow definitions and capabilities: the last write for a key wins.\<close>

locale last_write =
  fixes get :: "'s \<Rightarrow> 'k \<Rightarrow> 'v option"
    and put :: "'k \<Rightarrow> 'a \<Rightarrow> 's \<Rightarrow> 's"
    and entry :: "'k \<Rightarrow> 'a \<Rightarrow> 'v"
  assumes get_put: "get (put k a s) k' = (if k' = k then Some (entry k a) else get s k')"
begin

lemma get_put_same: "get (put k a s) k = Some (entry k a)"
  by (simp add: get_put)

lemma get_put_other: "k' \<noteq> k \<Longrightarrow> get (put k a s) k' = get s k'"
  by (simp add: get_put)

lemma get_fold_puts:
  "get (fold (\<lambda>(k, a). put k a) kas s) k =
     (case find (\<lambda>(k', a). k' = k) (rev kas) of None \<Rightarrow> get s k | Some (k', a) \<Rightarrow> Some (entry k' a))"
proof (induction kas rule: rev_induct)
  case (snoc ka kas)
  then show ?case by (cases ka) (auto simp: get_put)
qed simp

end

end
