(* ===== verification/IrcClient.thy ===== *)
theory IrcClient
  imports Throttle IrcEvents Interfaces
begin

text \<open>
  The IRC client of \<^verbatim>\<open>pkg/ircclient/connection.go\<close>: its construction, the bookkeeping of handlers and joined
  channels, the callbacks that turn events of the IRC library into calls of the registered handlers, the
  rate-limited sends and the reconnect loop.  The library \<^verbatim>\<open>go-ircevo\<close> is outside the model: it delivers
  events (\<open>IrcEvent\<close>, the text of \<^verbatim>\<open>e.Message()\<close> as a field of its own), tells the current nick, and takes
  the commands that the client gives it.  A handler is an opaque value.
\<close>

section \<open>Events\<close>

record JoinEvent =
  jeChannel :: string
  jeNick :: string
  jeUser :: string
  jeHost :: string
  jeTimestamp :: gotime

record PartEvent =
  peChannel :: string
  peNick :: string
  peUser :: string
  peHost :: string
  peMessage :: string
  peTimestamp :: gotime

record KickEvent =
  keChannel :: string
  keNick :: string
  keKickedBy :: string
  keMessage :: string
  keTimestamp :: gotime

record ErrorEvent =
  eeMessage :: string
  eeTimestamp :: gotime

record ConnectEvent =
  ceServer :: string
  ceNickname :: string
  ceTimestamp :: gotime

record DisconnectEvent =
  deServer :: string
  deTimestamp :: gotime

datatype client_event =
  EvMessage MessageEvent | EvJoin JoinEvent | EvPart PartEvent | EvKick KickEvent
| EvError ErrorEvent | EvConnect ConnectEvent | EvDisconnect DisconnectEvent

record IrcEvent =
  ieNick :: string
  ieUser :: string
  ieHost :: string
  ieArguments :: "string list"
  ieMessage :: string

datatype conn_cmd =
  CmdJoin string | CmdPart string | CmdPrivmsg string string | CmdNotice string string
| CmdRaw string | CmdNick string | CmdQuit

section \<open>Construction\<close>

text \<open>The settings of the library's connection; \<^const>\<open>None\<close> leaves the library's default.\<close>

record Conn =
  cnNick :: string
  cnUser :: string
  cnRealName :: string
  cnUseTLS :: bool
  cnInsecureSkipVerify :: bool
  cnUseSASL :: bool
  cnSASLLogin :: string
  cnSASLPassword :: string
  cnSASLMech :: string
  cnQuitMessage :: string
  cnDebug :: bool
  cnHandleErrorAsDisconnect :: bool
  cnSmartErrorHandling :: bool
  cnMaxRecoverableReconnects :: "goint option"
  cnPingFreq :: "duration option"
  cnTimeout :: "duration option"

record 'h ircClient =
  clCfg :: Config
  clConn :: Conn
  clChannels :: "bool gomap"
  clLimiter :: "RateLimiter option"
  clBackoff :: "Backoff option"
  clNextID :: nat
  clMsgHandlers :: "(nat \<times> 'h) list"
  clJoinHandlers :: "(nat \<times> 'h) list"
  clPartHandlers :: "(nat \<times> 'h) list"
  clKickHandlers :: "(nat \<times> 'h) list"
  clErrHandlers :: "(nat \<times> 'h) list"
  clConnHandlers :: "(nat \<times> 'h) list"
  clDiscHandlers :: "(nat \<times> 'h) list"
  clHandlerKinds :: "(nat \<times> string) list"

datatype client_error = ErrConfig "config_error list" | ErrInvalidNickOrUser

definition newConn :: "Config \<Rightarrow> Conn" where
  "newConn cfg =
     \<lparr>cnNick = icNick cfg, cnUser = icUsername cfg,
      cnRealName = (if icRealName cfg = [] then icNick cfg else icRealName cfg), cnUseTLS = True,
      cnInsecureSkipVerify = icTLSInsecureSkipVerify cfg, cnUseSASL = True,
      cnSASLLogin = icUsername cfg, cnSASLPassword = icPassword cfg,
      cnSASLMech = (if icSASLMech cfg = [] then ''PLAIN'' else icSASLMech cfg),
      cnQuitMessage = icQuitMessage cfg, cnDebug = icDebug cfg,
      cnHandleErrorAsDisconnect = True, cnSmartErrorHandling = True,
      cnMaxRecoverableReconnects =
        (if icReconnectBackoff cfg > 0 \<and> icMaxReconnectBackoff cfg > 0 then Some 0
         else if icMaxReconnectAttempts cfg > 0 then Some (icMaxReconnectAttempts cfg) else None),
      cnPingFreq = (if icPingFrequency cfg > 0 then Some (icPingFrequency cfg) else None),
      cnTimeout = (if icTimeout cfg > 0 then Some (icTimeout cfg) else None)\<rparr>"

definition freshClient :: "gotime \<Rightarrow> Config \<Rightarrow> 'h ircClient" where
  "freshClient now cfg =
     \<lparr>clCfg = cfg, clConn = newConn cfg, clChannels = [],
      clLimiter = (if icRateLimit cfg > 0
                   then Some (NewRateLimiter now (icRateLimit cfg) (icRateLimitBurst cfg)) else None),
      clBackoff = (if icReconnectBackoff cfg > 0 \<and> icMaxReconnectBackoff cfg > 0
                   then Some (NewBackoff (icReconnectBackoff cfg) (icMaxReconnectBackoff cfg)) else None),
      clNextID = 0, clMsgHandlers = [], clJoinHandlers = [], clPartHandlers = [],
      clKickHandlers = [], clErrHandlers = [], clConnHandlers = [], clDiscHandlers = [],
      clHandlerKinds = []\<rparr>"

text \<open>Whether the library accepts nick and user is the parameter \<open>ok\<close>.\<close>

definition NewClient ::
  "(string \<Rightarrow> string \<Rightarrow> bool) \<Rightarrow> gotime \<Rightarrow> Config \<Rightarrow> client_error + 'h ircClient" where
  "NewClient ok now cfg =
     (if Validate cfg \<noteq> [] then Inl (ErrConfig (Validate cfg))
      else if \<not> ok (icNick cfg) (icUsername cfg) then Inl ErrInvalidNickOrUser
      else Inr (freshClient now cfg))"

lemma freshClient_simps [simp]:
  "clCfg (freshClient now cfg) = cfg" "clConn (freshClient now cfg) = newConn cfg"
  "clChannels (freshClient now cfg) = []" "clNextID (freshClient now cfg) = 0"
  "clHandlerKinds (freshClient now cfg) = []"
  by (simp_all add: freshClient_def)

lemma NewClient_secure:
  assumes "NewClient ok now cfg = Inr c"
  shows "cnUseTLS (clConn c) \<and> cnUseSASL (clConn c) \<and> cnSASLLogin (clConn c) \<noteq> []
    \<and> cnSASLPassword (clConn c) \<noteq> [] \<and> cnSASLMech (clConn c) \<noteq> []"
proof -
  from assms have c: "c = freshClient now cfg" and v: "Validate cfg = []"
    by (simp_all add: NewClient_def split: if_splits)
  from v show ?thesis unfolding c freshClient_simps Validate_ok_iff by (simp add: newConn_def)
qed

section \<open>Handler registration\<close>

definition OnMessage :: "'h \<Rightarrow> 'h ircClient \<Rightarrow> nat \<times> 'h ircClient" where
  "OnMessage h c =
     (let i = clNextID c
      in (i, c\<lparr>clNextID := i + 1, clMsgHandlers := AList.update i h (clMsgHandlers c),
               clHandlerKinds := AList.update i ''msg'' (clHandlerKinds c)\<rparr>))"

definition OnJoin :: "'h \<Rightarrow> 'h ircClient \<Rightarrow> nat \<times> 'h ircClient" where
  "OnJoin h c =
     (let i = clNextID c
      in (i, c\<lparr>clNextID := i + 1, clJoinHandlers := AList.update i h (clJoinHandlers c),
               clHandlerKinds := AList.update i ''join'' (clHandlerKinds c)\<rparr>))"

definition OnPart :: "'h \<Rightarrow> 'h ircClient \<Rightarrow> nat \<times> 'h ircClient" where
  "OnPart h c =
     (let i = clNextID c
      in (i, c\<lparr>clNextID := i + 1, clPartHandlers := AList.update i h (clPartHandlers c),
               clHandlerKinds := AList.update i ''part'' (clHandlerKinds c)\<rparr>))"

definition OnKick :: "'h \<Rightarrow> 'h ircClient \<Rightarrow> nat \<times> 'h ircClient" where
  "OnKick h c =
     (let i = clNextID c
      in (i, c\<lparr>clNextID := i + 1, clKickHandlers := AList.update i h (clKickHandlers c),
               clHandlerKinds := AList.update i ''kick'' (clHandlerKinds c)\<rparr>))"

definition OnError :: "'h \<Rightarrow> 'h ircClient \<Rightarrow> nat \<times> 'h ircClient" where
  "OnError h c =
     (let i = clNextID c
      in (i, c\<lparr>clNextID := i + 1, clErrHandlers := AList.update i h (clErrHandlers c),
               clHandlerKinds := AList.update i ''error'' (clHandlerKinds c)\<rparr>))"

definition OnConnect :: "'h \<Rightarrow> 'h ircClient \<Rightarrow> nat \<times> 'h ircClient" where
  "OnConnect h c =
     (let i = clNextID c
      in (i, c\<lparr>clNextID := i + 1, clConnHandlers := AList.update i h (clConnHandlers c),
               clHandlerKinds := AList.update i ''connect'' (clHandlerKinds c)\<rparr>))"

definition OnDisconnect :: "'h \<Rightarrow> 'h ircClient \<Rightarrow> nat \<times> 'h ircClient" where
  "OnDisconnect h c =
     (let i = clNextID c
      in (i, c\<lparr>clNextID := i + 1, clDiscHandlers := AList.update i h (clDiscHandlers c),
               clHandlerKinds := AList.update i ''disconnect'' (clHandlerKinds c)\<rparr>))"

definition RemoveHandler :: "nat \<Rightarrow> 'h ircClient \<Rightarrow> 'h ircClient" where
  "RemoveHandler i c =
     (case map_of (clHandlerKinds c) i of
        None \<Rightarrow> c
      | Some kind \<Rightarrow>
          let c = c\<lparr>clHandlerKinds := AList.delete i (clHandlerKinds c)\<rparr>
          in if kind = ''msg'' then c\<lparr>clMsgHandlers := AList.delete i (clMsgHandlers c)\<rparr>
             else if kind = ''join'' then c\<lparr>clJoinHandlers := AList.delete i (clJoinHandlers c)\<rparr>
             else if kind = ''part'' then c\<lparr>clPartHandlers := AList.delete i (clPartHandlers c)\<rparr>
             else if kind = ''kick'' then c\<lparr>clKickHandlers := AList.delete i (clKickHandlers c)\<rparr>
             else if kind = ''error'' then c\<lparr>clErrHandlers := AList.delete i (clErrHandlers c)\<rparr>
             else if kind = ''connect'' then c\<lparr>clConnHandlers := AList.delete i (clConnHandlers c)\<rparr>
             else if kind = ''disconnect'' then c\<lparr>clDiscHandlers := AList.delete i (clDiscHandlers c)\<rparr>
             else c)"

subsection \<open>The registry of handlers\<close>

text \<open>The kinds of events, the map that holds the handlers of a kind, and the registration call.\<close>

datatype hkind = KMsg | KJoin | KPart | KKick | KError | KConnect | KDisconnect

fun kind_string :: "hkind \<Rightarrow> string" where
  "kind_string KMsg = ''msg''"
| "kind_string KJoin = ''join''"
| "kind_string KPart = ''part''"
| "kind_string KKick = ''kick''"
| "kind_string KError = ''error''"
| "kind_string KConnect = ''connect''"
| "kind_string KDisconnect = ''disconnect''"

fun handlersOf :: "hkind \<Rightarrow> 'h ircClient \<Rightarrow> (nat \<times> 'h) list" where
  "handlersOf KMsg c = clMsgHandlers c"
| "handlersOf KJoin c = clJoinHandlers c"
| "handlersOf KPart c = clPartHandlers c"
| "handlersOf KKick c = clKickHandlers c"
| "handlersOf KError c = clErrHandlers c"
| "handlersOf KConnect c = clConnHandlers c"
| "handlersOf KDisconnect c = clDiscHandlers c"

fun onKind :: "hkind \<Rightarrow> 'h \<Rightarrow> 'h ircClient \<Rightarrow> nat \<times> 'h ircClient" where
  "onKind KMsg = OnMessage"
| "onKind KJoin = OnJoin"
| "onKind KPart = OnPart"
| "onKind KKick = OnKick"
| "onKind KError = OnError"
| "onKind KConnect = OnConnect"
| "onKind KDisconnect = OnDisconnect"

datatype 'h handler_op = OpOn hkind 'h | OpRemove nat

fun handler_step :: "'h handler_op \<Rightarrow> 'h ircClient \<Rightarrow> 'h ircClient" where
  "handler_step (OpOn k h) c = snd (onKind k h c)"
| "handler_step (OpRemove i) c = RemoveHandler i c"

text \<open>
  The abstract registry: one list of live registrations and a counter.  The client's seven maps and its map of
  kinds implement it.
\<close>

record 'h registry =
  rgNext :: nat
  rgLive :: "(nat \<times> hkind \<times> 'h) list"

fun registry_step :: "'h handler_op \<Rightarrow> 'h registry \<Rightarrow> 'h registry" where
  "registry_step (OpOn k h) r = r\<lparr>rgNext := rgNext r + 1, rgLive := rgLive r @ [(rgNext r, k, h)]\<rparr>"
| "registry_step (OpRemove i) r = r\<lparr>rgLive := filter (\<lambda>(j, _). j \<noteq> i) (rgLive r)\<rparr>"

definition of_kind :: "hkind \<Rightarrow> 'h registry \<Rightarrow> (nat \<times> 'h) list" where
  "of_kind k r = map (\<lambda>(i, _, h). (i, h)) (filter (\<lambda>(_, k', _). k' = k) (rgLive r))"

definition handlers_abs :: "'h ircClient \<Rightarrow> 'h registry \<Rightarrow> bool" where
  "handlers_abs c r \<longleftrightarrow>
     clNextID c = rgNext r \<and> (\<forall>k. handlersOf k c = of_kind k r)
     \<and> clHandlerKinds c = map (\<lambda>(i, k, _). (i, kind_string k)) (rgLive r)
     \<and> (\<forall>(i, _) \<in> set (rgLive r). i < rgNext r) \<and> distinct (map fst (rgLive r))"

lemma update_fresh: "k \<notin> fst ` set xs \<Longrightarrow> AList.update k v xs = xs @ [(k, v)]"
  by (induction xs) auto

lemma delete_map_filter: "AList.delete k xs = filter (\<lambda>(k', _). k' \<noteq> k) xs"
  by (auto simp: AList.delete_eq intro: filter_cong)

lemma kind_string_inj [simp]: "kind_string k = kind_string k' \<longleftrightarrow> k = k'"
  by (cases k; cases k'; simp)

lemma handlersOf_onKind:
  "handlersOf k' (snd (onKind k h c)) =
     (if k' = k then AList.update (clNextID c) h (handlersOf k c) else handlersOf k' c)"
  "clNextID (snd (onKind k h c)) = clNextID c + 1" "fst (onKind k h c) = clNextID c"
  "clHandlerKinds (snd (onKind k h c)) = AList.update (clNextID c) (kind_string k) (clHandlerKinds c)"
  by (cases k; cases k'; simp add: OnMessage_def OnJoin_def OnPart_def OnKick_def OnError_def OnConnect_def
      OnDisconnect_def Let_def)+

lemma handlersOf_RemoveHandler:
  assumes "map_of (clHandlerKinds c) i = Some (kind_string k)"
  shows "handlersOf k' (RemoveHandler i c) =
      (if k' = k then AList.delete i (handlersOf k c) else handlersOf k' c)"
    "clNextID (RemoveHandler i c) = clNextID c"
    "clHandlerKinds (RemoveHandler i c) = AList.delete i (clHandlerKinds c)"
  using assms by (cases k; cases k'; simp add: RemoveHandler_def Let_def)+

lemma of_kind_ids: "i \<in> fst ` set (of_kind k r) \<Longrightarrow> i \<in> fst ` set (rgLive r)"
  by (force simp: of_kind_def)

lemma of_kind_remove:
  "of_kind k (registry_step (OpRemove i) r) = filter (\<lambda>(j, _). j \<noteq> i) (of_kind k r)"
  by (auto simp: of_kind_def filter_map o_def case_prod_beta intro!: arg_cong [of _ _ "map _"] filter_cong)

lemma of_kind_other:
  assumes "distinct (map fst (rgLive r))" "(i, k, h) \<in> set (rgLive r)" "k' \<noteq> k"
  shows "filter (\<lambda>(j, _). j \<noteq> i) (of_kind k' r) = of_kind k' r"
proof (rule filter_True, clarify)
  fix j h'
  assume "(i, h') \<in> set (of_kind k' r)"
  then have "(i, k', h') \<in> set (rgLive r)" by (auto simp: of_kind_def)
  with assms show False by (metis eq_key_imp_eq_value prod.inject)
qed

lemma handlers_abs_on:
  assumes "handlers_abs c r"
  shows "handlers_abs (snd (onKind k h c)) (registry_step (OpOn k h) r)"
proof -
  have fresh: "rgNext r \<notin> fst ` set (rgLive r)" using assms by (auto simp: handlers_abs_def)
  have "AList.update (rgNext r) h (of_kind k r) = of_kind k r @ [(rgNext r, h)]"
    using fresh of_kind_ids [of "rgNext r" k r] by (intro update_fresh) blast
  moreover have "AList.update (rgNext r) (kind_string k) (clHandlerKinds c)
      = clHandlerKinds c @ [(rgNext r, kind_string k)]"
    using fresh assms by (intro update_fresh) (force simp: handlers_abs_def)
  ultimately show ?thesis
    using assms fresh by (force simp: handlers_abs_def handlersOf_onKind of_kind_def)
qed

lemma handlers_abs_remove:
  assumes "handlers_abs c r"
  shows "handlers_abs (RemoveHandler i c) (registry_step (OpRemove i) r)"
proof (cases "\<exists>k h. (i, k, h) \<in> set (rgLive r)")
  case True
  then obtain k h where kh: "(i, k, h) \<in> set (rgLive r)" by blast
  have d: "distinct (map fst (rgLive r))" using assms by (simp add: handlers_abs_def)
  have "map_of (clHandlerKinds c) i = Some (kind_string k)"
    using assms kh by (intro map_of_is_SomeI) (force simp: handlers_abs_def o_def case_prod_beta)+
  note rem = handlersOf_RemoveHandler [OF this]
  have "handlersOf k' (RemoveHandler i c) = of_kind k' (registry_step (OpRemove i) r)" for k'
    using assms of_kind_other [OF d kh, of k'] unfolding of_kind_remove
    by (cases "k' = k") (simp_all add: rem(1) delete_map_filter handlers_abs_def)
  with assms rem show ?thesis
    by (auto simp: handlers_abs_def delete_map_filter filter_map o_def case_prod_beta
        distinct_map_filter intro!: arg_cong [of _ _ "map _"] filter_cong)
next
  case False
  then have "map_of (clHandlerKinds c) i = None"
    using assms by (auto simp: handlers_abs_def map_of_eq_None_iff image_iff)
  then have "RemoveHandler i c = c" by (simp add: RemoveHandler_def)
  moreover have "filter (\<lambda>(j, _). j \<noteq> i) (rgLive r) = rgLive r"
    using False by (intro filter_True) auto
  ultimately show ?thesis using assms by simp
qed

lemma handlers_abs_run:
  "handlers_abs c r \<Longrightarrow> handlers_abs (fold handler_step ops c) (fold registry_step ops r)"
proof (induction ops arbitrary: c r)
  case (Cons x ops)
  have "handlers_abs (handler_step x c) (registry_step x r)"
    using handlers_abs_on [OF Cons.prems] handlers_abs_remove [OF Cons.prems]
    by (cases x) (simp_all del: registry_step.simps)
  with Cons.IH show ?case by simp
qed simp

lemma handlers_abs_fresh: "handlers_abs (freshClient now cfg) \<lparr>rgNext = 0, rgLive = []\<rparr>"
proof -
  have "handlersOf k (freshClient now cfg) = []" for k by (cases k) (simp_all add: freshClient_def)
  then have "\<forall>k. handlersOf k (freshClient now cfg) = []" ..
  then show ?thesis by (simp add: handlers_abs_def of_kind_def)
qed

section \<open>Callbacks\<close>

text \<open>
  What a callback does: the client afterwards, the calls of handlers in order, the commands to the
  connection.  Go panics when an event has no argument to index; that is \<^const>\<open>None\<close>.  The order of the calls is that in which the run-time
  visits the map of handlers.
\<close>

type_synonym 'h effect = "'h ircClient \<times> ('h \<times> client_event) list \<times> conn_cmd list"

definition call_all :: "(nat \<times> 'h) list \<Rightarrow> client_event \<Rightarrow> ('h \<times> client_event) list" where
  "call_all hs ev = map (\<lambda>(_, h). (h, ev)) hs"

definition message_event :: "gotime \<Rightarrow> bool \<Rightarrow> string \<Rightarrow> IrcEvent \<Rightarrow> MessageEvent" where
  "message_event now notice channel e =
     \<lparr>meChannel = channel, meNick = ieNick e, meUser = ieUser e, meHost = ieHost e, meMessage = ieMessage e,
      meIsNotice = notice, meTimestamp = now\<rparr>"

definition onPrivmsg :: "gotime \<Rightarrow> IrcEvent \<Rightarrow> 'h ircClient \<Rightarrow> 'h effect option" where
  "onPrivmsg now e c =
     (case ieArguments e of
        [] \<Rightarrow> None
      | channel # _ \<Rightarrow> Some (c, call_all (clMsgHandlers c) (EvMessage (message_event now False channel e)), []))"

definition onNotice :: "gotime \<Rightarrow> IrcEvent \<Rightarrow> 'h ircClient \<Rightarrow> 'h effect option" where
  "onNotice now e c =
     (if ieNick e = [] then Some (c, [], [])
      else
        case ieArguments e of
          [] \<Rightarrow> None
        | channel # _ \<Rightarrow> Some (c, call_all (clMsgHandlers c) (EvMessage (message_event now True channel e)), []))"

definition onJoin :: "gotime \<Rightarrow> string \<Rightarrow> IrcEvent \<Rightarrow> 'h ircClient \<Rightarrow> 'h effect option" where
  "onJoin now me e c =
     (case ieArguments e of
        [] \<Rightarrow> None
      | channel # _ \<Rightarrow>
          let c = (if ieNick e = me then c\<lparr>clChannels := mput channel True (clChannels c)\<rparr> else c);
              ev = \<lparr>jeChannel = channel, jeNick = ieNick e, jeUser = ieUser e, jeHost = ieHost e, jeTimestamp = now\<rparr>
          in Some (c, call_all (clJoinHandlers c) (EvJoin ev), []))"

definition onPart :: "gotime \<Rightarrow> string \<Rightarrow> IrcEvent \<Rightarrow> 'h ircClient \<Rightarrow> 'h effect option" where
  "onPart now me e c =
     (case ieArguments e of
        [] \<Rightarrow> None
      | channel # _ \<Rightarrow>
          let c = (if ieNick e = me then c\<lparr>clChannels := mdel channel (clChannels c)\<rparr> else c);
              ev = \<lparr>peChannel = channel, peNick = ieNick e, peUser = ieUser e, peHost = ieHost e,
                    peMessage = ieMessage e, peTimestamp = now\<rparr>
          in Some (c, call_all (clPartHandlers c) (EvPart ev), []))"

definition onKick :: "gotime \<Rightarrow> string \<Rightarrow> IrcEvent \<Rightarrow> 'h ircClient \<Rightarrow> 'h effect option" where
  "onKick now me e c =
     (case ieArguments e of
        [] \<Rightarrow> None
      | channel # rest \<Rightarrow>
          let kicked = (case rest of [] \<Rightarrow> [] | k # _ \<Rightarrow> k);
              cmds = (if kicked = me \<and> icAutoRejoinOnKick (clCfg c) then [CmdJoin channel] else []);
              c = (if kicked = me then c\<lparr>clChannels := mdel channel (clChannels c)\<rparr> else c);
              ev = \<lparr>keChannel = channel, keNick = kicked, keKickedBy = ieNick e, keMessage = ieMessage e,
                    keTimestamp = now\<rparr>
          in Some (c, call_all (clKickHandlers c) (EvKick ev), cmds))"

definition onError :: "gotime \<Rightarrow> IrcEvent \<Rightarrow> 'h ircClient \<Rightarrow> 'h effect option" where
  "onError now e c =
     Some (c, call_all (clErrHandlers c) (EvError \<lparr>eeMessage = ieMessage e, eeTimestamp = now\<rparr>), [])"

text \<open>The callback for the welcome reply: reset the back-off, tell the handlers, join the channels.\<close>

definition onWelcome :: "gotime \<Rightarrow> string \<Rightarrow> 'h ircClient \<Rightarrow> 'h effect" where
  "onWelcome now me c =
     (let c = c\<lparr>clBackoff := map_option Reset_backoff (clBackoff c)\<rparr>;
          ev = \<lparr>ceServer = icServer (clCfg c), ceNickname = me, ceTimestamp = now\<rparr>
      in (c, call_all (clConnHandlers c) (EvConnect ev), map CmdJoin (icChannels (clCfg c))))"

datatype irc_input =
  InPrivmsg IrcEvent | InNotice IrcEvent | InJoin IrcEvent | InPart IrcEvent | InKick IrcEvent
| InErr IrcEvent | InWelcome

fun callback :: "gotime \<Rightarrow> string \<Rightarrow> irc_input \<Rightarrow> 'h ircClient \<Rightarrow> 'h effect option" where
  "callback now me (InPrivmsg e) c = onPrivmsg now e c"
| "callback now me (InNotice e) c = onNotice now e c"
| "callback now me (InJoin e) c = onJoin now me e c"
| "callback now me (InPart e) c = onPart now me e c"
| "callback now me (InKick e) c = onKick now me e c"
| "callback now me (InErr e) c = onError now e c"
| "callback now me InWelcome c = Some (onWelcome now me c)"


section \<open>Channels and sends\<close>

definition Join_channel :: "string \<Rightarrow> 'h ircClient \<Rightarrow> 'h ircClient \<times> conn_cmd list" where
  "Join_channel channel c = (c, [CmdJoin channel])"

definition Part :: "string \<Rightarrow> 'h ircClient \<Rightarrow> 'h ircClient \<times> conn_cmd list" where
  "Part channel c = (c\<lparr>clChannels := mdel channel (clChannels c)\<rparr>, [CmdPart channel])"

definition JoinedChannels :: "'h ircClient \<Rightarrow> string list" where
  "JoinedChannels c = mkeys (clChannels c)"

text \<open>A send first waits for a token; the context is one that is never cancelled.  \<^const>\<open>None\<close>: it never gets one.\<close>

definition waitRateLimit :: "waits \<Rightarrow> gotime \<Rightarrow> 'h ircClient \<Rightarrow> 'h ircClient option" where
  "waitRateLimit env now c =
     (case clLimiter c of
        None \<Rightarrow> Some c
      | Some r \<Rightarrow>
          map_option (\<lambda>(_, _, r'). c\<lparr>clLimiter := Some r'\<rparr>)
            (Wait (env\<lparr>wtCancelled := (\<lambda>_ _. False)\<rparr>) now r))"

definition SendMessage ::
  "waits \<Rightarrow> gotime \<Rightarrow> string \<Rightarrow> string \<Rightarrow> 'h ircClient \<Rightarrow> ('h ircClient \<times> conn_cmd list) option" where
  "SendMessage env now target message c =
     map_option (\<lambda>c. (c, [CmdPrivmsg target message])) (waitRateLimit env now c)"

definition SendNotice ::
  "waits \<Rightarrow> gotime \<Rightarrow> string \<Rightarrow> string \<Rightarrow> 'h ircClient \<Rightarrow> ('h ircClient \<times> conn_cmd list) option" where
  "SendNotice env now target message c =
     map_option (\<lambda>c. (c, [CmdNotice target message])) (waitRateLimit env now c)"

definition SendRaw :: "waits \<Rightarrow> gotime \<Rightarrow> string \<Rightarrow> 'h ircClient \<Rightarrow> ('h ircClient \<times> conn_cmd list) option" where
  "SendRaw env now message c =
     map_option (\<lambda>c. (c, [CmdRaw message])) (waitRateLimit env now c)"

definition SetNick :: "string \<Rightarrow> conn_cmd list" where
  "SetNick nick = [CmdNick nick]"

definition Disconnect :: "conn_cmd list" where
  "Disconnect = [CmdQuit]"

text \<open>The channel that an input concerns as far as the client's own membership goes, and whether it joins it.\<close>

fun membership :: "string \<Rightarrow> irc_input \<Rightarrow> (string \<times> bool) option" where
  "membership me (InJoin e) = (if ieNick e = me then Some (hd (ieArguments e), True) else None)"
| "membership me (InPart e) = (if ieNick e = me then Some (hd (ieArguments e), False) else None)"
| "membership me (InKick e) =
     (if (case tl (ieArguments e) of [] \<Rightarrow> [] | k # _ \<Rightarrow> k) = me then Some (hd (ieArguments e), False) else None)"
| "membership me _ = None"

fun run_inputs :: "(gotime \<times> string \<times> irc_input) list \<Rightarrow> 'h ircClient \<Rightarrow> 'h ircClient option" where
  "run_inputs [] c = Some c"
| "run_inputs ((now, me, x) # xs) c =
     (case callback now me x c of None \<Rightarrow> None | Some (c', _) \<Rightarrow> run_inputs xs c')"

lemma callback_channels:
  assumes "callback now me x c = Some (c', calls, cmds)"
  shows "map_of (clChannels c') = (case membership me x of
      None \<Rightarrow> map_of (clChannels c)
    | Some (ch, b) \<Rightarrow> (map_of (clChannels c))(ch := (if b then Some True else None)))"
proof (cases x)
  case (InKick e)
  with assms show ?thesis
    by (auto simp: onKick_def Let_def split: list.splits if_splits)
qed (use assms in \<open>auto simp: onPrivmsg_def onNotice_def onJoin_def onPart_def onError_def onWelcome_def Let_def
       split: list.splits if_splits\<close>)

definition track :: "string \<Rightarrow> gotime \<times> string \<times> irc_input \<Rightarrow> bool \<Rightarrow> bool" where
  "track ch = (\<lambda>(_, me, x) v. case membership me x of Some (ch', b) \<Rightarrow> if ch' = ch then b else v | None \<Rightarrow> v)"

lemma run_inputs_track:
  "run_inputs xs c = Some c' \<Longrightarrow>
     (map_of (clChannels c') ch \<noteq> None) = fold (track ch) xs (map_of (clChannels c) ch \<noteq> None)"
proof (induction xs arbitrary: c)
  case (Cons nmx xs)
  obtain now me x where nmx: "nmx = (now, me, x)" by (cases nmx) auto
  with Cons.prems obtain c1 calls cmds where c1: "callback now me x c = Some (c1, calls, cmds)"
    "run_inputs xs c1 = Some c'" by (auto split: option.splits)
  from Cons.IH [OF c1(2)] callback_channels [OF c1(1)] show ?case
    by (auto simp: nmx track_def split: option.splits)
qed simp

lemma track_latest:
  "fold (track ch) xs False \<longleftrightarrow>
    (\<exists>ys now me x zs. xs = ys @ (now, me, x) # zs \<and> membership me x = Some (ch, True)
       \<and> (\<forall>(_, me', x') \<in> set zs. membership me' x' \<noteq> Some (ch, False)))" (is "_ = ?R xs")
proof (induction xs rule: rev_induct)
  case (snoc nmx xs)
  obtain now me x where nmx: "nmx = (now, me, x)" by (cases nmx) auto
  have split: "?R (xs @ [nmx]) \<longleftrightarrow> membership me x = Some (ch, True) \<or> (?R xs \<and> membership me x \<noteq> Some (ch, False))"
    (is "_ = (?A \<or> ?B)")
  proof
    assume "?R (xs @ [nmx])"
    then obtain ys now' me' x' zs where h: "xs @ [nmx] = ys @ (now', me', x') # zs"
      "membership me' x' = Some (ch, True)" "\<forall>(_, me', x') \<in> set zs. membership me' x' \<noteq> Some (ch, False)" by blast
    then show "?A \<or> ?B"
    proof (cases zs rule: rev_cases)
      case Nil
      with h nmx show ?thesis by simp
    next
      case (snoc zs' z)
      with h nmx have "xs = ys @ (now', me', x') # zs'" "z = (now, me, x)" by auto
      with h snoc show ?thesis by fastforce
    qed
  next
    assume "?A \<or> ?B"
    then show "?R (xs @ [nmx])"
    proof
      assume a: ?A
      show ?thesis
      proof (intro exI conjI)
        show "xs @ [nmx] = xs @ (now, me, x) # []" by (simp add: nmx)
      qed (use a in simp_all)
    next
      assume ?B
      then obtain ys now' me' x' zs where "xs = ys @ (now', me', x') # zs" "membership me' x' = Some (ch, True)"
        "\<forall>(_, me', x') \<in> set (zs @ [nmx]). membership me' x' \<noteq> Some (ch, False)" by (auto simp: nmx)
      then have "xs @ [nmx] = ys @ (now', me', x') # (zs @ [nmx]) \<and> membership me' x' = Some (ch, True)
        \<and> (\<forall>(_, me', x') \<in> set (zs @ [nmx]). membership me' x' \<noteq> Some (ch, False))" by simp
      then show ?thesis by blast
    qed
  qed
  show ?case unfolding split snoc.IH [symmetric] by (auto simp: nmx track_def split: option.splits)
qed simp


definition demo_irc :: "string \<Rightarrow> string list \<Rightarrow> IrcEvent" where
  "demo_irc nick args = \<lparr>ieNick = nick, ieUser = [], ieHost = [], ieArguments = args, ieMessage = []\<rparr>"

definition demo_inputs :: "(gotime \<times> string \<times> irc_input) list" where
  "demo_inputs = [(1, ''bot'', InJoin (demo_irc ''bot'' [''#a''])), (2, ''bot'', InJoin (demo_irc ''bot'' [''#b''])),
     (3, ''bot'', InKick (demo_irc ''eve'' [''#a'', ''bot''])), (4, ''bot'', InPart (demo_irc ''ann'' [''#b'']))]"


section \<open>Reconnecting\<close>

text \<open>
  The goroutine that \<^verbatim>\<open>Connect\<close> starts.  Each entry of the first list is one run of the library's event loop: when
  it ended and whether the server's welcome arrived in it.  A failed reconnect leads to the next
  run as a successful one does.  The result holds the calls of the disconnect handlers, the delays slept and whether
  the loop has ended; \<^const>\<open>None\<close> is a panic of the random source.
\<close>

fun reconnect_loop ::
  "(rat \<Rightarrow> int) \<Rightarrow> (int \<Rightarrow> int) \<Rightarrow> string \<Rightarrow> (gotime \<times> bool) list \<Rightarrow> 'h ircClient
    \<Rightarrow> ('h ircClient \<times> ('h \<times> client_event) list \<times> duration list \<times> bool) option" where
  "reconnect_loop oor rand me [] c = Some (c, [], [], False)"
| "reconnect_loop oor rand me ((now, welcomed) # ps) c =
     (let c = (if welcomed then fst (onWelcome now me c) else c);
          calls = call_all (clDiscHandlers c)
            (EvDisconnect \<lparr>deServer = icServer (clCfg c), deTimestamp = now\<rparr>)
      in case clBackoff c of
           None \<Rightarrow> Some (c, calls, [], True)
         | Some b \<Rightarrow>
             if \<not> icReconnect (clCfg c) then Some (c, calls, [], True)
             else if icMaxReconnectAttempts (clCfg c) > 0
                     \<and> int (Attempt b) \<ge> icMaxReconnectAttempts (clCfg c) then Some (c, calls, [], True)
             else
               case Next oor rand b of
                 None \<Rightarrow> None
               | Some (delay, b') \<Rightarrow>
                   (case reconnect_loop oor rand me ps (c\<lparr>clBackoff := Some b'\<rparr>) of
                      None \<Rightarrow> None
                    | Some (c', calls', delays, fin) \<Rightarrow> Some (c', calls @ calls', delay # delays, fin)))"

lemma reconnect_loop_gives_up:
  assumes "rand_in_range rand" "clBackoff c = Some b" "0 < boMax b" "boMax b < 2 ^ 63 - 1"
    and "icReconnect (clCfg c)" "icMaxReconnectAttempts (clCfg c) = int k" "0 < k" "boAttempt b \<le> k"
    and "k - boAttempt b < length ts"
  shows "\<exists>c' delays. reconnect_loop oor rand me (map (\<lambda>t. (t, False)) ts) c =
      Some (c', concat (map (\<lambda>t. call_all (clDiscHandlers c)
              (EvDisconnect \<lparr>deServer = icServer (clCfg c), deTimestamp = t\<rparr>)) (take (k - boAttempt b + 1) ts)), delays, True)
    \<and> length delays = k - boAttempt b \<and> (\<forall>d \<in> set delays. 0 \<le> d \<and> d \<le> boMax b)"
  using assms
proof (induction ts arbitrary: c b)
  case (Cons t ts)
  show ?case
  proof (cases "boAttempt b = k")
    case True
    with Cons.prems show ?thesis by (simp add: Attempt_def)
  next
    case False
    from Next_in_range [OF Cons.prems(1,3,4), of oor] obtain d where
      d: "Next oor rand b = Some (d, b\<lparr>boAttempt := boAttempt b + 1\<rparr>)" "0 \<le> d" "d \<le> boMax b"
      using ceiling_of_bounds(2) [OF Cons.prems(3), of oor] by fastforce
    let ?b = "b\<lparr>boAttempt := boAttempt b + 1\<rparr>"
    let ?c = "c\<lparr>clBackoff := Some ?b\<rparr>"
    from False Cons.prems have a: "boAttempt ?b \<le> k" "k - boAttempt ?b < length ts" "k - boAttempt b = Suc (k - boAttempt ?b)"
      by auto
    with Cons.IH [of ?c ?b] Cons.prems d False show ?thesis by (auto simp: Attempt_def)
  qed
qed simp

lemma handler_step_frame [simp]:
  "clCfg (fold handler_step ops c) = clCfg c" "clBackoff (fold handler_step ops c) = clBackoff c"
  "clLimiter (fold handler_step ops c) = clLimiter c"
proof -
  have "clCfg (handler_step x c) = clCfg c \<and> clBackoff (handler_step x c) = clBackoff c
      \<and> clLimiter (handler_step x c) = clLimiter c" for x and c :: "'a ircClient"
  proof (cases x)
    case (OpOn k h)
    then show ?thesis
      by (cases k) (simp_all add: OnMessage_def OnJoin_def OnPart_def OnKick_def OnError_def OnConnect_def
          OnDisconnect_def Let_def)
  qed (simp add: RemoveHandler_def Let_def split: option.split)
  then show "clCfg (fold handler_step ops c) = clCfg c" "clBackoff (fold handler_step ops c) = clBackoff c"
    "clLimiter (fold handler_step ops c) = clLimiter c"
    by (induction ops arbitrary: c) simp_all
qed

text \<open>
  C32.  The reconnect loop ends: a client that was connected and then never hears the server's welcome again gives up
  after exactly the configured number of attempts, each preceded by a delay between zero and the configured maximum,
  without a panic, and has told its disconnect handlers once more than it tried.
\<close>

theorem reconnect_ends:
  assumes "rand_in_range rand" "icReconnect cfg" "icMaxReconnectAttempts cfg = int k" "0 < k"
    and "0 < icReconnectBackoff cfg" "0 < icMaxReconnectBackoff cfg" "icMaxReconnectBackoff cfg < 2 ^ 63 - 1"
    and "k \<le> length ts"
  shows "\<exists>c calls delays.
    reconnect_loop oor rand me ((t, True) # map (\<lambda>t. (t, False)) ts)
      (fold handler_step ops (freshClient t0 cfg)) = Some (c, calls, delays, True)
    \<and> length delays = k \<and> (\<forall>d \<in> set delays. 0 \<le> d \<and> d \<le> icMaxReconnectBackoff cfg)
    \<and> length calls = (k + 1) * length (of_kind KDisconnect (fold registry_step ops \<lparr>rgNext = 0, rgLive = []\<rparr>))"
proof -
  let ?c = "fold handler_step ops (freshClient t0 cfg)"
  let ?r = "fold registry_step ops \<lparr>rgNext = 0, rgLive = []\<rparr>"
  let ?b = "NewBackoff (icReconnectBackoff cfg) (icMaxReconnectBackoff cfg)"
  have b: "clBackoff ?c = Some ?b" using assms by (simp add: freshClient_def)
  have b0: "boAttempt ?b = 0" "boMax ?b = icMaxReconnectBackoff cfg" "Reset_backoff ?b = ?b"
    by (simp_all add: NewBackoff_def Reset_backoff_def)
  have "handlers_abs ?c ?r" by (rule handlers_abs_run [OF handlers_abs_fresh])
  then have disc: "clDiscHandlers ?c = of_kind KDisconnect ?r"
    unfolding handlers_abs_def by (metis handlersOf.simps(7))
  from Next_in_range [OF assms(1), of ?b oor] ceiling_of_bounds(2) [of ?b oor] assms obtain d where
    d: "Next oor rand ?b = Some (d, ?b\<lparr>boAttempt := 1\<rparr>)" "0 \<le> d" "d \<le> icMaxReconnectBackoff cfg"
    by (fastforce simp: b0)
  let ?c1 = "?c\<lparr>clBackoff := Some (?b\<lparr>boAttempt := 1\<rparr>)\<rparr>"
  have "\<exists>c' delays. reconnect_loop oor rand me (map (\<lambda>t. (t, False)) ts) ?c1 =
      Some (c', concat (map (\<lambda>t. call_all (clDiscHandlers ?c1)
              (EvDisconnect \<lparr>deServer = icServer (clCfg ?c1), deTimestamp = t\<rparr>)) (take (k - 1 + 1) ts)), delays, True)
    \<and> length delays = k - 1 \<and> (\<forall>d \<in> set delays. 0 \<le> d \<and> d \<le> icMaxReconnectBackoff cfg)"
    using reconnect_loop_gives_up [OF assms(1), of ?c1 "?b\<lparr>boAttempt := 1\<rparr>" k ts oor me] assms b0 by simp
  then obtain c' calls delays where l: "reconnect_loop oor rand me (map (\<lambda>t. (t, False)) ts) ?c1 = Some (c', calls, delays, True)"
    "length calls = k * length (clDiscHandlers ?c)" "length delays = k - 1"
    "\<forall>d \<in> set delays. 0 \<le> d \<and> d \<le> icMaxReconnectBackoff cfg"
    using assms(4,8) by (auto simp: length_concat comp_def call_all_def sum_list_triv min_def)
  have w: "fst (onWelcome t me ?c) = ?c" using b b0 by (simp add: onWelcome_def Let_def)
  show ?thesis
    using assms b b0 d l w by (auto simp: Let_def Attempt_def disc call_all_def)
qed

theorem reconnect_ends_witness:
  "\<exists>c calls delays.
    reconnect_loop (\<lambda>_. 0) (\<lambda>n. n - 1) ''bot'' [(1, True), (2, False), (3, False), (4, False)]
      (fold handler_step [OpOn KDisconnect (0::nat)] (freshClient 0 DefaultConfig)) = Some (c, calls, delays, True)
    \<and> length delays = 3 \<and> length calls = 4"
  using reconnect_ends [of "\<lambda>n. n - 1" DefaultConfig 3 "[2, 3, 4]" "\<lambda>_. 0" "''bot''" 1 "[OpOn KDisconnect 0]" 0]
  by (fastforce simp: rand_in_range_def DefaultConfig_def of_kind_def)

text \<open>
  \<^verbatim>\<open>Connect\<close> itself: the library dials (\<open>dial\<close>, its error if any), then the caller waits until the welcome arrived or, when the context ends
  first, quits.
\<close>

datatype 'e connect_error = ErrDial string 'e | ErrContextDone

definition Connect_irc :: "'e option \<Rightarrow> bool \<Rightarrow> 'h ircClient \<Rightarrow> 'e connect_error option \<times> conn_cmd list" where
  "Connect_irc dial welcomed c =
     (case dial of
        Some e \<Rightarrow> (Some (ErrDial (icServer (clCfg c)) e), [])
      | None \<Rightarrow> if welcomed then (None, []) else (Some ErrContextDone, [CmdQuit]))"

section \<open>A burst of zero\<close>

text \<open>
  A burst size of zero or less, which the configuration accepts and an explicit flag of 0 sets, silences a client for good: with a rate
  limit, no message, notice or raw line is ever sent; each call waits for a token that cannot come and does not return.
\<close>

theorem zero_burst_silences_client:
  assumes "icRateLimit cfg > 0" "icRateLimitBurst cfg \<le> 0" "- (2 ^ 53) \<le> icRateLimitBurst cfg"
  shows "let c = fold handler_step ops (freshClient t0 cfg)
    in SendMessage env now target message c = None \<and> SendNotice env now target message c = None
       \<and> SendRaw env now message c = None"
  using assms zero_burst_blocks_forever
    [of "icRateLimitBurst cfg" "env\<lparr>wtCancelled := (\<lambda>_ _. False)\<rparr>" now "[]" t0 "icRateLimit cfg"]
  by (simp add: SendMessage_def SendNotice_def SendRaw_def waitRateLimit_def freshClient_def limiter_run_def Let_def)

theorem zero_burst_silences_client_witness:
  "let env = \<lparr>wtCancelled = (\<lambda>_ _. False), wtWake = (\<lambda>t d. t + d), wtOutOfRange = (\<lambda>_. 0)\<rparr>
   in SendMessage env 5 ''#dev'' ''hi'' (freshClient 0 (DefaultConfig\<lparr>icRateLimitBurst := 0\<rparr>) :: nat ircClient) = None"
proof -
  have cfg: "icRateLimit (DefaultConfig\<lparr>icRateLimitBurst := 0\<rparr>) > 0" "icRateLimitBurst (DefaultConfig\<lparr>icRateLimitBurst := 0\<rparr>) \<le> 0"
    "- (2 ^ 53) \<le> icRateLimitBurst (DefaultConfig\<lparr>icRateLimitBurst := 0\<rparr>)"
    by (simp_all add: DefaultConfig_def)
  from zero_burst_silences_client [OF cfg, of "[] :: nat handler_op list"] show ?thesis by (simp add: Let_def)
qed

end
