(* ===== verification/Protocol.thy ===== *)
theory Protocol
  imports Prelude Interfaces
begin

text \<open>
  The wire protocol: \<^verbatim>\<open>pkg/protocol/message.go\<close>, \<^verbatim>\<open>parser.go\<close>, \<^verbatim>\<open>serializer.go\<close> and \<^verbatim>\<open>errors.go\<close>.
  A message is an action, a map of fields, a list of tags and a payload; the dispatcher later adds
  channel, nick and timestamp.  The theory ends with the round trip between \<open>String_Message\<close> and
  \<open>Parse\<close> and with the agreement of the fast path \<open>IsProtocolMessage\<close> with the parser.
\<close>

section \<open>Actions and messages\<close>

datatype Action =
    ActionStarted | ActionCompleted | ActionBlocked | ActionAcknowledged | ActionHelpNeeded
  | ActionContext | ActionRequestContext | ActionSharingContext | ActionDiscover | ActionCapabilities
  | ActionOffer | ActionClaim | ActionAssign | ActionAccept | ActionDecline | ActionYield
  | ActionCheckpoint | ActionHandoff | ActionReviewRequest | ActionReviewComplete | ActionGateCheck
  | ActionVote | ActionEscalate | ActionCostReport

fun action_string :: "Action \<Rightarrow> string" where
  "action_string ActionStarted = ''STARTED''"
| "action_string ActionCompleted = ''COMPLETED''"
| "action_string ActionBlocked = ''BLOCKED''"
| "action_string ActionAcknowledged = ''ACKNOWLEDGED''"
| "action_string ActionHelpNeeded = ''HELP-NEEDED''"
| "action_string ActionContext = ''CONTEXT''"
| "action_string ActionRequestContext = ''REQUEST-CONTEXT''"
| "action_string ActionSharingContext = ''SHARING-CONTEXT''"
| "action_string ActionDiscover = ''DISCOVER''"
| "action_string ActionCapabilities = ''CAPABILITIES''"
| "action_string ActionOffer = ''OFFER''"
| "action_string ActionClaim = ''CLAIM''"
| "action_string ActionAssign = ''ASSIGN''"
| "action_string ActionAccept = ''ACCEPT''"
| "action_string ActionDecline = ''DECLINE''"
| "action_string ActionYield = ''YIELD''"
| "action_string ActionCheckpoint = ''CHECKPOINT''"
| "action_string ActionHandoff = ''HANDOFF''"
| "action_string ActionReviewRequest = ''REVIEW-REQUEST''"
| "action_string ActionReviewComplete = ''REVIEW-COMPLETE''"
| "action_string ActionGateCheck = ''GATE-CHECK''"
| "action_string ActionVote = ''VOTE''"
| "action_string ActionEscalate = ''ESCALATE''"
| "action_string ActionCostReport = ''COST-REPORT''"

definition validActions :: "Action list" where
  "validActions =
    [ActionStarted, ActionCompleted, ActionBlocked, ActionAcknowledged, ActionHelpNeeded,
     ActionContext, ActionRequestContext, ActionSharingContext, ActionDiscover, ActionCapabilities,
     ActionOffer, ActionClaim, ActionAssign, ActionAccept, ActionDecline, ActionYield,
     ActionCheckpoint, ActionHandoff, ActionReviewRequest, ActionReviewComplete, ActionGateCheck,
     ActionVote, ActionEscalate, ActionCostReport]"

text \<open>\<^verbatim>\<open>Action(s).Valid()\<close>: the action a string denotes, if it is one of the table.\<close>

definition Valid :: "string \<Rightarrow> Action option" where
  "Valid s = find (\<lambda>a. action_string a = s) validActions"

record Message =
  msgAction :: Action
  msgFields :: "string gomap"
  msgTags :: "string list"
  msgPayload :: string
  msgChannel :: string
  msgNick :: string
  msgTimestamp :: gotime

definition Get :: "Message \<Rightarrow> string \<Rightarrow> string" where
  "Get m key = mgetd [] (msgFields m) key"

definition HasTag :: "Message \<Rightarrow> string \<Rightarrow> bool" where
  "HasTag m tag \<longleftrightarrow> tag \<in> set (msgTags m)"

text \<open>A message as the composite literals of the source build it.\<close>

definition mkMessage :: "Action \<Rightarrow> string gomap \<Rightarrow> string list \<Rightarrow> Message" where
  "mkMessage a fs ts =
     \<lparr>msgAction = a, msgFields = fs, msgTags = ts, msgPayload = [], msgChannel = [], msgNick = [],
      msgTimestamp = 0\<rparr>"

definition actionPrefixes :: "string list" where
  "actionPrefixes =
     concat (map (\<lambda>a. [action_string a @ '' '', action_string a @ [CHR 0x09]]) validActions)"

definition IsProtocolMessage :: "string \<Rightarrow> bool" where
  "IsProtocolMessage raw =
     (let raw = TrimSpace raw
      in if list_ex (\<lambda>p. prefix p raw) actionPrefixes then True else Valid raw \<noteq> None)"

section \<open>Errors\<close>

datatype cred_reason = SensitiveKey string | PatternInField string | PatternInPayload

datatype proto_error =
    ErrEmptyMessage
  | ErrUnknownAction string
  | ErrUnclosedQuote string
  | ErrCredentialDetected cred_reason

section \<open>Parser\<close>

definition blank :: "char \<Rightarrow> bool" where
  "blank c \<longleftrightarrow> c = CHR '' '' \<or> c = CHR 0x09"

text \<open>The byte that opens and closes a quoted value.\<close>

abbreviation quote :: char where
  "quote \<equiv> CHR 0x22"

definition splitFirst :: "string \<Rightarrow> string \<times> string" where
  "splitFirst s =
     (case dropWhile (\<lambda>c. \<not> blank c) s of
        [] \<Rightarrow> (s, [])
      | _ # rest \<Rightarrow> (takeWhile (\<lambda>c. \<not> blank c) s, TrimSpace rest))"

text \<open>
  The index loop of \<^verbatim>\<open>tokenize\<close>: the third argument is \<^verbatim>\<open>body[i:]\<close>, the first two the fields and tags
  stored in the message so far.
\<close>

function tokenize ::
  "string gomap \<Rightarrow> string list \<Rightarrow> string \<Rightarrow> proto_error + string gomap \<times> string list" where
  "tokenize fs ts [] = Inr (fs, ts)"
| "tokenize fs ts (c # s) =
     (if blank c then tokenize fs ts s
      else if c = CHR ''#'' then
        (let tag = takeWhile (\<lambda>c. \<not> blank c) s
         in tokenize fs (if tag \<noteq> [] then ts @ [tag] else ts) (dropWhile (\<lambda>c. \<not> blank c) s))
      else
        (let key = takeWhile (\<lambda>c. c \<noteq> CHR ''='' \<and> \<not> blank c) (c # s)
         in case dropWhile (\<lambda>c. c \<noteq> CHR ''='' \<and> \<not> blank c) (c # s) of
              [] \<Rightarrow> Inr (fs, ts)
            | d # r \<Rightarrow>
                if d \<noteq> CHR ''='' then tokenize fs ts (d # r)
                else if r \<noteq> [] \<and> hd r = quote then
                  (case dropWhile (\<lambda>c. c \<noteq> quote) (tl r) of
                     [] \<Rightarrow> Inl (ErrUnclosedQuote key)
                   | _ # r' \<Rightarrow> tokenize (mput key (takeWhile (\<lambda>c. c \<noteq> quote) (tl r)) fs) ts r')
                else
                  tokenize (mput key (takeWhile (\<lambda>c. \<not> blank c) r) fs) ts
                    (dropWhile (\<lambda>c. \<not> blank c) r)))"
  by pat_completeness auto

lemma dropWhile_Cons_length: "dropWhile P xs = y # ys \<Longrightarrow> length ys < length xs"
  using length_dropWhile_le [of P xs] by simp

termination tokenize
proof (relation "measure (\<lambda>(fs, ts, s). length s)", goal_cases)
  case (3 fs ts c s)
  show ?case using length_dropWhile_le [of "\<lambda>c. \<not> blank c" s] by simp
next
  case (4 fs ts c s key d r)
  then have "dropWhile (\<lambda>c. c \<noteq> CHR ''='' \<and> \<not> blank c) s = d # r"
    by (cases "c = CHR ''=''") auto
  from dropWhile_Cons_length [OF this] show ?case by simp
next
  case (5 fs ts c s key d r e r')
  from dropWhile_Cons_length [OF 5(4)] dropWhile_Cons_length [OF 5(7)]
  have "length r' < length (tl r)" "length r < length (c # s)" by simp_all
  then show ?case by simp
next
  case (6 fs ts c s key d r)
  from dropWhile_Cons_length [OF 6(4)] have "length r < length (c # s)" by simp
  then show ?case using length_dropWhile_le [of "\<lambda>c. \<not> blank c" r] by simp
qed simp_all

definition Parse :: "string \<Rightarrow> proto_error + Message" where
  "Parse raw =
     (let raw = TrimSpace raw
      in if raw = [] then Inl ErrEmptyMessage
         else
           let (actionStr, rest) = splitFirst raw
           in case Valid (ToUpper actionStr) of
                None \<Rightarrow> Inl (ErrUnknownAction actionStr)
              | Some action \<Rightarrow>
                  if action = ActionSharingContext
                  then Inr ((mkMessage action [] [])\<lparr>msgPayload := rest\<rparr>)
                  else case tokenize [] [] rest of
                         Inl e \<Rightarrow> Inl e
                       | Inr (fs, ts) \<Rightarrow> Inr (mkMessage action fs ts))"

section \<open>Serializer\<close>

definition quoteValue :: "string \<Rightarrow> string" where
  "quoteValue v = (if list_ex blank v then quote # v @ [quote] else v)"

definition fieldToken :: "string \<Rightarrow> string \<Rightarrow> string" where
  "fieldToken k v = '' '' @ k @ ''='' @ quoteValue v"

definition tagToken :: "string \<Rightarrow> string" where
  "tagToken t = '' #'' @ t"

definition String_Message :: "Message \<Rightarrow> string" where
  "String_Message m =
     (if msgAction m = ActionSharingContext
      then action_string (msgAction m) @ (if msgPayload m \<noteq> [] then '' '' @ msgPayload m else [])
      else action_string (msgAction m)
             @ concat (map (\<lambda>k. fieldToken k (Get m k)) (sort (mkeys (msgFields m))))
             @ concat (map tagToken (msgTags m)))"

section \<open>Facts about the action table\<close>

lemma validActions_complete: "a \<in> set validActions"
  by (cases a) (simp_all add: validActions_def)

lemma action_string_inj: "action_string a = action_string b \<Longrightarrow> a = b"
  by (cases a; cases b; simp)

lemma Valid_action_string [simp]: "Valid (action_string a) = Some a"
proof -
  have "Valid (action_string a) \<noteq> None"
    using validActions_complete by (auto simp: Valid_def find_None_iff)
  then obtain b where "Valid (action_string a) = Some b" by auto
  then show ?thesis
    by (auto simp: Valid_def find_Some_iff dest: action_string_inj)
qed

lemma Valid_SomeD: "Valid s = Some a \<Longrightarrow> s = action_string a"
  by (auto simp: Valid_def find_Some_iff)

lemma action_string_facts:
  "action_string a \<noteq> []"
  "\<forall>c \<in> set (action_string a). \<not> blank c"
  "hd (action_string a) \<notin> set ws_lead"
  "last (action_string a) \<notin> set (map last ws_runes)"
  by (cases a; simp add: blank_def ws_lead_def ws_runes_def)+

lemma ToUpper_action_string [simp]: "ToUpper (action_string a) = action_string a"
  by (cases a; simp add: upper_byte_def Let_def)

lemma no_ws_left_action: "no_ws_left (action_string a @ s)"
  using no_ws_left_Cons [OF action_string_facts(3) [of a], of "tl (action_string a) @ s"]
    action_string_facts(1) [of a]
  by (metis append_Cons list.collapse)

lemma no_ws_right_action: "no_ws_right (action_string a)"
  using no_ws_right_snoc [OF action_string_facts(4) [of a], of "butlast (action_string a)"]
    action_string_facts(1) [of a]
  by simp

section \<open>Messages that survive the wire\<close>

text \<open>
  What a message must satisfy for its text to denote it: keys without blanks and equals signs that
  do not begin with a hash or with white space, values that have no quote when they need quoting and
  do not begin with one otherwise, tags that are non-empty words, and no trailing white-space rune
  that \<^verbatim>\<open>strings.TrimSpace\<close> would remove.  A SHARING-CONTEXT message has only a payload.
\<close>

definition wf_key :: "string \<Rightarrow> bool" where
  "wf_key k \<longleftrightarrow> CHR ''='' \<notin> set k \<and> \<not> list_ex blank k \<and> \<not> prefix ''#'' k \<and> no_ws_left k"

definition wf_value :: "string \<Rightarrow> bool" where
  "wf_value v \<longleftrightarrow>
     (if list_ex blank v then quote \<notin> set v else \<not> prefix [quote] v \<and> no_ws_right v)"

definition wf_tag :: "string \<Rightarrow> bool" where
  "wf_tag t \<longleftrightarrow> t \<noteq> [] \<and> \<not> list_ex blank t \<and> no_ws_right t"

definition wf_Message :: "Message \<Rightarrow> bool" where
  "wf_Message m \<longleftrightarrow>
     distinct (mkeys (msgFields m)) \<and>
     (if msgAction m = ActionSharingContext
      then msgFields m = [] \<and> msgTags m = [] \<and> no_ws_left (msgPayload m) \<and> no_ws_right (msgPayload m)
      else msgPayload m = [] \<and> list_all (\<lambda>(k, v). wf_key k \<and> wf_value v) (msgFields m)
           \<and> list_all wf_tag (msgTags m))"

text \<open>The part of a string that follows a token is empty or begins with a blank.\<close>

definition at_blank :: "string \<Rightarrow> bool" where
  "at_blank s \<longleftrightarrow> (case s of [] \<Rightarrow> True | c # _ \<Rightarrow> blank c)"

lemma at_blank_takeWhile [simp]: "at_blank s \<Longrightarrow> takeWhile (\<lambda>c. \<not> blank c) s = []"
  by (cases s) (auto simp: at_blank_def)

lemma at_blank_dropWhile [simp]: "at_blank s \<Longrightarrow> dropWhile (\<lambda>c. \<not> blank c) s = s"
  by (cases s) (auto simp: at_blank_def)

lemma takeWhile_key:
  "\<forall>c \<in> set k. c \<noteq> e \<and> \<not> blank c \<Longrightarrow> takeWhile (\<lambda>c. c \<noteq> e \<and> \<not> blank c) (k @ e # s) = k"
  by (induction k) auto

lemma dropWhile_key:
  "\<forall>c \<in> set k. c \<noteq> e \<and> \<not> blank c \<Longrightarrow> dropWhile (\<lambda>c. c \<noteq> e \<and> \<not> blank c) (k @ e # s) = e # s"
  by (induction k) auto

lemma takeWhile_upto: "q \<notin> set v \<Longrightarrow> takeWhile (\<lambda>c. c \<noteq> q) (v @ q # s) = v"
  by (induction v) auto

lemma dropWhile_upto: "q \<notin> set v \<Longrightarrow> dropWhile (\<lambda>c. c \<noteq> q) (v @ q # s) = q # s"
  by (induction v) auto

lemma blank_simps [simp]:
  "blank (CHR '' '')" "\<not> blank (CHR ''#'')" "\<not> blank (CHR ''='')" "\<not> blank quote"
  by (simp_all add: blank_def)

declare tokenize.simps(2) [simp del]

lemma tokenize_blank [simp]: "tokenize fs ts (CHR '' '' # s) = tokenize fs ts s"
  by (simp add: tokenize.simps(2))

lemma tokenize_tag:
  assumes "wf_tag t" and "at_blank s"
  shows "tokenize fs ts (CHR ''#'' # t @ s) = tokenize fs (ts @ [t]) s"
  using assms by (simp add: wf_tag_def list_ex_iff tokenize.simps(2))

text \<open>One field: the value is found again whether it had to be quoted or not.\<close>

lemma tokenize_key:
  assumes "\<forall>c \<in> set k. c \<noteq> CHR ''='' \<and> \<not> blank c" "\<not> prefix ''#'' k"
  shows "tokenize fs ts (k @ CHR ''='' # r) =
    (if r \<noteq> [] \<and> hd r = quote then
       (case dropWhile (\<lambda>c. c \<noteq> quote) (tl r) of
          [] \<Rightarrow> Inl (ErrUnclosedQuote k)
        | _ # r' \<Rightarrow> tokenize (mput k (takeWhile (\<lambda>c. c \<noteq> quote) (tl r)) fs) ts r')
     else tokenize (mput k (takeWhile (\<lambda>c. \<not> blank c) r) fs) ts (dropWhile (\<lambda>c. \<not> blank c) r))"
proof (cases k)
  case Nil
  then show ?thesis unfolding Nil by (simp add: tokenize.simps(2))
next
  case (Cons c k')
  from assms show ?thesis
    unfolding Cons by (simp add: tokenize.simps(2) Let_def takeWhile_key dropWhile_key)
qed

lemma tokenize_field:
  assumes "wf_key k" "wf_value v" "at_blank s"
  shows "tokenize fs ts (k @ CHR ''='' # quoteValue v @ s) = tokenize (mput k v fs) ts s"
proof -
  from assms(1) have k: "\<forall>c \<in> set k. c \<noteq> CHR ''='' \<and> \<not> blank c" "\<not> prefix ''#'' k"
    by (auto simp: wf_key_def list_ex_iff)
  show ?thesis
  proof (cases "list_ex blank v")
    case True
    with assms(2) have "quote \<notin> set v" by (simp add: wf_value_def)
    with True show ?thesis
      by (simp add: tokenize_key [OF k] quoteValue_def takeWhile_upto dropWhile_upto)
  next
    case False
    with assms(2) have v: "\<forall>c \<in> set v. \<not> blank c" "\<not> prefix [quote] v"
      by (auto simp: wf_value_def list_ex_iff)
    with assms(3) have nq: "\<not> (v @ s \<noteq> [] \<and> hd (v @ s) = quote)"
      by (cases v; cases s) (auto simp: at_blank_def)
    from v(1) assms(3) show ?thesis
      unfolding quoteValue_def if_not_P [OF False] tokenize_key [OF k] if_not_P [OF nq] by simp
  qed
qed

lemma at_blank_tokens [simp]:
  "at_blank []" "at_blank (fieldToken k v @ s)" "at_blank (tagToken t @ s)"
  by (simp_all add: at_blank_def fieldToken_def tagToken_def)

lemma at_blank_tags [simp]: "at_blank (concat (map tagToken ts))"
  by (cases ts) simp_all

lemma at_blank_fields [simp]:
  "at_blank s \<Longrightarrow> at_blank (concat (map (\<lambda>k. fieldToken k (f k)) ks) @ s)"
  by (cases ks) simp_all

lemma tokenize_tags:
  "\<forall>t \<in> set us. wf_tag t \<Longrightarrow> tokenize fs ts (concat (map tagToken us)) = Inr (fs, ts @ us)"
proof (induction us arbitrary: ts)
  case (Cons u us)
  then show ?case by (simp add: tagToken_def [of u] tokenize_tag)
qed simp

lemma tokenize_fields:
  "\<forall>k \<in> set ks. wf_key k \<and> wf_value (f k) \<Longrightarrow> at_blank s \<Longrightarrow>
   tokenize fs ts (concat (map (\<lambda>k. fieldToken k (f k)) ks) @ s)
     = tokenize (fold (\<lambda>k. mput k (f k)) ks fs) ts s"
proof (induction ks arbitrary: fs)
  case (Cons k ks)
  then show ?case by (simp add: fieldToken_def [of k] tokenize_field)
qed simp

lemma mput_new: "k \<notin> set (mkeys m) \<Longrightarrow> mput k v m = m @ [(k, v)]"
  by (induction m) auto

lemma fold_mput_new:
  "distinct ks \<Longrightarrow> set ks \<inter> set (mkeys m) = {} \<Longrightarrow>
   fold (\<lambda>k. mput k (f k)) ks m = m @ map (\<lambda>k. (k, f k)) ks"
  by (induction ks arbitrary: m) (auto simp: mput_new)

section \<open>The round trip\<close>

text \<open>The text of a message, without the action and without the leading blank of the first token.\<close>

lemma no_ws_right_fieldToken: "wf_value v \<Longrightarrow> no_ws_right (s @ fieldToken k v)"
proof (cases "list_ex blank v")
  case True
  have "quote \<notin> set (concat ws_runes)" by (simp add: ws_runes_def)
  from no_ws_right_append [OF this no_ws_right_Nil, of "s @ '' '' @ k @ ''='' @ quote # v"] True
  show ?thesis by (simp add: fieldToken_def quoteValue_def)
next
  case False
  assume "wf_value v"
  with False have v: "no_ws_right v" by (simp add: wf_value_def)
  have "CHR ''='' \<notin> set (concat ws_runes)" by (simp add: ws_runes_def)
  from no_ws_right_append [OF this v, of "s @ '' '' @ k"] False
  show ?thesis by (simp add: fieldToken_def quoteValue_def)
qed

lemma no_ws_right_tagToken: "wf_tag t \<Longrightarrow> no_ws_right (s @ tagToken t)"
proof -
  assume "wf_tag t"
  then have t: "no_ws_right t" by (simp add: wf_tag_def)
  have "CHR ''#'' \<notin> set (concat ws_runes)" by (simp add: ws_runes_def)
  from no_ws_right_append [OF this t, of "s @ '' ''"] show ?thesis by (simp add: tagToken_def)
qed

lemma no_ws_right_tokens:
  assumes "no_ws_right s" "\<forall>k \<in> set ks. wf_value (f k)" "\<forall>t \<in> set ts. wf_tag t"
  shows "no_ws_right (s @ concat (map (\<lambda>k. fieldToken k (f k)) ks) @ concat (map tagToken ts))"
proof (cases ts rule: rev_cases)
  case Nil
  show ?thesis
  proof (cases ks rule: rev_cases)
    case Nil
    with \<open>ts = []\<close> assms(1) show ?thesis by simp
  next
    case (snoc ks' k)
    with \<open>ts = []\<close> assms(2) show ?thesis
      using no_ws_right_fieldToken [of "f k" "s @ concat (map (\<lambda>k. fieldToken k (f k)) ks')" k] by simp
  qed
next
  case (snoc ts' t)
  with assms(3) show ?thesis
    using no_ws_right_tagToken [of t "s @ concat (map (\<lambda>k. fieldToken k (f k)) ks) @ concat (map tagToken ts')"]
    by simp
qed

lemma no_ws_left_key:
  assumes "no_ws_left k"
  shows "no_ws_left (k @ CHR ''='' # s)"
proof -
  have "\<not> prefix w (k @ CHR ''='' # s)" if w: "w \<in> set ws_runes" for w
  proof
    assume p: "prefix w (k @ CHR ''='' # s)"
    from w have c: "CHR ''='' \<notin> set w" by (auto simp: ws_runes_def)
    then have "w \<noteq> k @ CHR ''='' # zs" for zs by auto
    with p have "prefix w k" by (auto simp: prefix_append prefix_Cons)
    with assms w show False by (auto simp: no_ws_left_def starts_with_any_def list_ex_iff)
  qed
  then show ?thesis by (auto simp: no_ws_left_def starts_with_any_def list_ex_iff)
qed

lemma TrimLeft_tokens:
  assumes "\<forall>k \<in> set ks. wf_key k"
    and "body = concat (map (\<lambda>k. fieldToken k (f k)) ks) @ concat (map tagToken ts)" and "body \<noteq> []"
  shows "\<exists>b. body = CHR '' '' # b \<and> no_ws_left b"
proof (cases ks)
  case Nil
  with assms obtain t ts' where "ts = t # ts'" by (cases ts) auto
  with Nil assms(2) show ?thesis
    using no_ws_left_Cons [of "CHR ''#''"] by (auto simp: tagToken_def ws_lead_def)
next
  case (Cons k ks')
  with assms(1,2) show ?thesis
    using no_ws_left_key [of k] by (auto simp: fieldToken_def wf_key_def)
qed

lemma no_ws_right_ConsD: "no_ws_right (c # s) \<Longrightarrow> no_ws_right s"
  using starts_with_any_append [of "map rev ws_runes" "rev (c # s)" "rev s"]
  by (auto simp: no_ws_right_def)

lemma no_ws_right_appendD: "no_ws_right (r @ s) \<Longrightarrow> no_ws_right s"
  by (induction r) (auto dest: no_ws_right_ConsD)

lemma splitFirst_action:
  assumes "at_blank body" "no_ws_right body" "\<And>c b. body = c # b \<Longrightarrow> no_ws_left b"
  shows "splitFirst (action_string a @ body) = (action_string a, tl body)"
proof (cases body)
  case Nil
  then show ?thesis
    using action_string_facts(2) [of a] by (simp add: splitFirst_def dropWhile_eq_Nil_conv [THEN iffD2])
next
  case (Cons c b)
  with assms(1) have "blank c" by (simp add: at_blank_def)
  then have "dropWhile (\<lambda>c. \<not> blank c) (action_string a @ c # b) = c # b"
    "takeWhile (\<lambda>c. \<not> blank c) (action_string a @ c # b) = action_string a"
    using action_string_facts(2) [of a] by auto
  moreover have "TrimSpace b = b"
    using assms(2,3) Cons by (auto intro: TrimSpace_id dest: no_ws_right_ConsD)
  ultimately show ?thesis using Cons by (simp add: splitFirst_def)
qed

text \<open>The message that a receiver reconstructs: the fields in key order, no dispatcher context.\<close>

definition wire_image :: "Message \<Rightarrow> Message" where
  "wire_image m =
     (mkMessage (msgAction m) (map (\<lambda>k. (k, Get m k)) (sort (mkeys (msgFields m)))) (msgTags m))
       \<lparr>msgPayload := msgPayload m\<rparr>"

lemma Parse_action:
  assumes "at_blank body" "no_ws_right (action_string a @ body)" "\<And>c b. body = c # b \<Longrightarrow> no_ws_left b"
  shows "Parse (action_string a @ body) =
    (if a = ActionSharingContext then Inr ((mkMessage a [] [])\<lparr>msgPayload := tl body\<rparr>)
     else case tokenize [] [] (tl body) of
            Inl e \<Rightarrow> Inl e | Inr (fs, ts) \<Rightarrow> Inr (mkMessage a fs ts))"
proof -
  have "TrimSpace (action_string a @ body) = action_string a @ body"
    using assms(2) no_ws_left_action by (intro TrimSpace_id)
  moreover have "splitFirst (action_string a @ body) = (action_string a, tl body)"
    using assms by (intro splitFirst_action) (auto dest: no_ws_right_appendD)
  ultimately show ?thesis
    using action_string_facts(1) [of a] by (simp add: Parse_def)
qed

lemma map_of_wire_image: "map_of (msgFields (wire_image m)) = map_of (msgFields m)"
proof
  fix k
  show "map_of (msgFields (wire_image m)) k = map_of (msgFields m) k"
  proof (cases "map_of (msgFields m) k")
    case None
    then have "k \<notin> set (mkeys (msgFields m))" by (simp add: map_of_eq_None_iff)
    with None show ?thesis
      by (simp add: wire_image_def mkMessage_def map_of_map_restrict restrict_map_def)
  next
    case (Some v)
    then have "k \<in> set (mkeys (msgFields m))" by (metis domI dom_map_of_conv_image_fst image_set)
    with Some show ?thesis
      by (simp add: wire_image_def mkMessage_def map_of_map_restrict restrict_map_def Get_def mgetd_def)
  qed
qed

lemma no_ws_right_payload:
  assumes "no_ws_right p" and "p \<noteq> []"
  shows "no_ws_right (s @ CHR '' '' # p)"
proof -
  have "\<not> prefix (rev w) (rev p @ CHR '' '' # rev s)" if w: "w \<in> set ws_runes" for w
  proof
    assume p: "prefix (rev w) (rev p @ CHR '' '' # rev s)"
    have "rev w \<noteq> rev p @ CHR '' '' # zs" for zs
    proof
      assume eq: "rev w = rev p @ CHR '' '' # zs"
      then have "CHR '' '' \<in> set w" by (metis in_set_conv_decomp set_rev)
      with w have "w = '' ''" by (auto simp: ws_runes_def)
      with eq assms(2) show False by (cases "rev p") auto
    qed
    with p have "prefix (rev w) (rev p)" by (auto simp: prefix_append prefix_Cons)
    with assms(1) w show False
      by (auto simp: no_ws_right_def starts_with_any_def list_ex_iff)
  qed
  then show ?thesis by (auto simp: no_ws_right_def starts_with_any_def list_ex_iff)
qed

lemma Parse_String_payload:
  assumes "wf_Message m" and sc: "msgAction m = ActionSharingContext"
  shows "Parse (String_Message m) = Inr (wire_image m)"
proof -
  let ?body = "if msgPayload m \<noteq> [] then '' '' @ msgPayload m else []"
  from assms have p: "no_ws_left (msgPayload m)" "no_ws_right (msgPayload m)"
    "msgFields m = []" "msgTags m = []"
    by (simp_all add: wf_Message_def)
  have "no_ws_right (action_string (msgAction m) @ ?body)"
    using p(2) no_ws_right_action no_ws_right_payload by auto
  then have "Parse (action_string (msgAction m) @ ?body) =
      Inr ((mkMessage (msgAction m) [] [])\<lparr>msgPayload := tl ?body\<rparr>)"
    using p(1) sc by (subst Parse_action) (auto simp: at_blank_def split: if_splits)
  then show ?thesis
    using p sc by (auto simp: String_Message_def wire_image_def mkMessage_def split: if_splits)
qed

lemma Parse_String_fields:
  assumes wf: "wf_Message m" and sc: "msgAction m \<noteq> ActionSharingContext"
  shows "Parse (String_Message m) = Inr (wire_image m)"
proof -
  define ks where "ks = sort (mkeys (msgFields m))"
  define body where "body = concat (map (\<lambda>k. fieldToken k (Get m k)) ks) @ concat (map tagToken (msgTags m))"
  have d: "distinct ks" "\<forall>t \<in> set (msgTags m). wf_tag t" "msgPayload m = []"
    using wf sc by (auto simp: ks_def wf_Message_def list_all_iff)
  have kv: "\<forall>k \<in> set ks. wf_key k \<and> wf_value (Get m k)"
    using wf sc by (force simp: ks_def wf_Message_def list_all_iff Get_def mgetd_def)
  have tok: "tokenize [] [] body = Inr (map (\<lambda>k. (k, Get m k)) ks, msgTags m)"
    using kv d by (simp add: body_def tokenize_fields tokenize_tags fold_mput_new)
  have "body = [] \<or> (\<exists>b. body = CHR '' '' # b \<and> no_ws_left b)"
    using TrimLeft_tokens [OF _ body_def] kv by blast
  then have tl: "tokenize [] [] (tl body) = tokenize [] [] body" "\<And>c b. body = c # b \<Longrightarrow> no_ws_left b"
    by auto
  have ab: "at_blank body" by (simp add: body_def)
  have "no_ws_right (action_string (msgAction m) @ body)"
    unfolding body_def using kv d by (intro no_ws_right_tokens no_ws_right_action) auto
  then have "Parse (action_string (msgAction m) @ body)
      = Inr (mkMessage (msgAction m) (map (\<lambda>k. (k, Get m k)) ks) (msgTags m))"
    using Parse_action [OF ab _ tl(2)] sc tok tl(1) by simp
  then show ?thesis
    using sc d(3) by (simp add: String_Message_def body_def ks_def wire_image_def mkMessage_def)
qed

interpretation wire: wire_format String_Message Parse wf_Message wire_image
  by unfold_locales (use Parse_String_payload Parse_String_fields in blast)

lemma Get_wire_image [simp]: "Get (wire_image m) k = Get m k"
  by (simp add: Get_def mgetd_def map_of_wire_image)

lemma wire_image_simps [simp]:
  "msgAction (wire_image m) = msgAction m" "msgTags (wire_image m) = msgTags m"
  "msgPayload (wire_image m) = msgPayload m"
  by (simp_all add: wire_image_def mkMessage_def)

lemma Get_update [simp]:
  "Get (m\<lparr>msgNick := n\<rparr>) k = Get m k" "Get (m\<lparr>msgChannel := c\<rparr>) k = Get m k"
  "Get (m\<lparr>msgTimestamp := t\<rparr>) k = Get m k" "Get (m\<lparr>msgPayload := p\<rparr>) k = Get m k"
  "Get (m\<lparr>msgTags := ts\<rparr>) k = Get m k"
  by (simp_all add: Get_def)

text \<open>
  C7.  Serialising a well-formed message and parsing the text gives the message back: same action,
  same tags, same payload, and the same field map (listed in key order).
\<close>

theorem parse_print_roundtrip:
  assumes "wf_Message m"
  shows "Parse (String_Message m) = Inr (wire_image m)
    \<and> map_of (msgFields (wire_image m)) = map_of (msgFields m)"
  using assms wire.parse_print map_of_wire_image by blast

definition sample_message :: Message where
  "sample_message =
     mkMessage ActionBlocked [(''waiting-for'', ''db migration''), (''task'', ''api'')] [''blocked-by-db'', ''urgent'']"

theorem parse_print_roundtrip_witness:
  "wf_Message sample_message
   \<and> Parse (String_Message sample_message) = Inr (wire_image sample_message)
   \<and> Get (wire_image sample_message) ''waiting-for'' = ''db migration''"
proof -
  have wf: "wf_Message sample_message" by code_simp
  have "Get (wire_image sample_message) ''waiting-for'' = ''db migration''" by code_simp
  with wf parse_print_roundtrip [OF wf] show ?thesis by blast
qed

section \<open>Errors of the parser and the fast path\<close>

lemma tokenize_error: "tokenize fs ts s = Inl e \<Longrightarrow> \<exists>k. e = ErrUnclosedQuote k"
proof (induction s arbitrary: fs ts rule: length_induct)
  case (1 s)
  show ?case
  proof (cases s)
    case Nil
    with "1.prems" show ?thesis by simp
  next
    case (Cons c s')
    have IH: "tokenize fs ts t = Inl e \<Longrightarrow> length t \<le> length s' \<Longrightarrow> \<exists>k. e = ErrUnclosedQuote k" for fs ts t
      using "1.IH" Cons by (metis length_Cons less_Suc_eq_le)
    have dw: "length (dropWhile P t) \<le> length s'" if "length t \<le> length s'" for P t
      using that length_dropWhile_le [of P t] by simp
    have dc: "length ys \<le> length s'" if "dropWhile P t = y # ys" "length t \<le> Suc (length s')" for P t y ys
      using that dropWhile_Cons_length [of P t y ys] by simp
    have dt: "length zs \<le> length s'"
      if "dropWhile P s' = y # ys" "dropWhile Q (tl ys) = z # zs" for P Q y ys z zs
      using dropWhile_Cons_length [OF that(1)] dropWhile_Cons_length [OF that(2)] by simp
    from "1.prems" show ?thesis
      unfolding Cons
      by (subst (asm) tokenize.simps(2))
         (auto simp: Let_def split: if_splits list.splits dest!: IH intro!: dw
           dest: dropWhile_Cons_length dc dt)
  qed
qed

lemma splitFirst_word: "fst (splitFirst s) = takeWhile (\<lambda>c. \<not> blank c) s"
  by (auto simp: splitFirst_def split: list.split) (metis takeWhile_eq_all_conv dropWhile_eq_Nil_conv)


lemma Parse_word:
  "TrimSpace raw \<noteq> [] \<Longrightarrow>
   Valid (ToUpper (takeWhile (\<lambda>c. \<not> blank c) (TrimSpace raw))) = Some a \<Longrightarrow>
   (\<exists>m. Parse raw = Inr m \<and> msgAction m = a) \<or> (\<exists>k. Parse raw = Inl (ErrUnclosedQuote k))"
  using splitFirst_word [of "TrimSpace raw"]
  by (cases "splitFirst (TrimSpace raw)"; cases "tokenize [] [] (snd (splitFirst (TrimSpace raw)))")
     (auto simp: Parse_def Let_def mkMessage_def dest: tokenize_error)

text \<open>
  A text that the fast path lets through never fails with an empty message or an unknown
  action: it parses to a message with exactly the action it begins with, or a quoted value of it is
  not closed.
\<close>

theorem fast_path_sound:
  assumes "IsProtocolMessage raw"
  shows "(\<exists>m. Parse raw = Inr m \<and> prefix (action_string (msgAction m)) (TrimSpace raw))
    \<or> (\<exists>k. Parse raw = Inl (ErrUnclosedQuote k))"
proof -
  have "\<exists>a t. TrimSpace raw = action_string a @ t \<and> at_blank t"
  proof (cases "list_ex (\<lambda>p. prefix p (TrimSpace raw)) actionPrefixes")
    case True
    then show ?thesis
      by (fastforce simp: actionPrefixes_def list_ex_iff at_blank_def blank_def prefix_def)
  next
    case False
    with assms obtain a where "Valid (TrimSpace raw) = Some a"
      by (auto simp: IsProtocolMessage_def Let_def)
    then have "TrimSpace raw = action_string a @ []" by (simp add: Valid_SomeD)
    then show ?thesis using at_blank_tokens(1) by blast
  qed
  then obtain a t where a: "TrimSpace raw = action_string a @ t" "at_blank t" by blast
  then have "takeWhile (\<lambda>c. \<not> blank c) (TrimSpace raw) = action_string a"
    using action_string_facts(2) [of a] by simp
  moreover have "TrimSpace raw \<noteq> []" "prefix (action_string a) (TrimSpace raw)"
    using a action_string_facts(1) [of a] by auto
  ultimately show ?thesis
    using Parse_word [of raw a] by auto
qed

theorem fast_path_sound_witness:
  "IsProtocolMessage ''  OFFER task=t1 #x''
   \<and> ((\<exists>m. Parse ''  OFFER task=t1 #x'' = Inr m
          \<and> prefix (action_string (msgAction m)) (TrimSpace ''  OFFER task=t1 #x''))
      \<or> (\<exists>k. Parse ''  OFFER task=t1 #x'' = Inl (ErrUnclosedQuote k)))"
proof -
  have h: "IsProtocolMessage ''  OFFER task=t1 #x''" by code_simp
  show ?thesis using h fast_path_sound [OF h] by blast
qed

text \<open>
  C39.  What every error of the parser means: nothing but white space was given, the first word is
  not an action in any case, or a quoted value is not closed.  No other error exists, and an accepted
  message has the action its first word names in upper case.
\<close>

theorem parse_cases:
  "case Parse raw of
     Inl ErrEmptyMessage \<Rightarrow> TrimSpace raw = []
   | Inl (ErrUnknownAction w) \<Rightarrow>
       TrimSpace raw \<noteq> [] \<and> w = takeWhile (\<lambda>c. \<not> blank c) (TrimSpace raw)
       \<and> ToUpper w \<notin> action_string ` UNIV
   | Inl (ErrUnclosedQuote k) \<Rightarrow>
       tokenize [] [] (snd (splitFirst (TrimSpace raw))) = Inl (ErrUnclosedQuote k)
   | Inl (ErrCredentialDetected r) \<Rightarrow> False
   | Inr m \<Rightarrow> action_string (msgAction m) = ToUpper (takeWhile (\<lambda>c. \<not> blank c) (TrimSpace raw))"
proof -
  have nv: "ToUpper w \<notin> range action_string" if "Valid (ToUpper w) = None" for w
  proof
    assume "ToUpper w \<in> range action_string"
    then obtain a where "ToUpper w = action_string a" ..
    with that show False by simp
  qed
  obtain w rest where sf: "splitFirst (TrimSpace raw) = (w, rest)" by fastforce
  then have w: "w = takeWhile (\<lambda>c. \<not> blank c) (TrimSpace raw)"
    using splitFirst_word [of "TrimSpace raw"] by simp
  show ?thesis
  proof (cases "tokenize [] [] rest")
    case (Inl e)
    then obtain k where "e = ErrUnclosedQuote k" using tokenize_error by blast
    with Inl show ?thesis
      by (auto simp: Parse_def Let_def sf w [symmetric] mkMessage_def nv dest: Valid_SomeD split: option.split)
  next
    case (Inr fts)
    then show ?thesis
      by (auto simp: Parse_def Let_def sf w [symmetric] mkMessage_def nv dest: Valid_SomeD split: option.split prod.split)
  qed
qed

section \<open>Printed messages pass the fast path\<close>

lemma printed_shape:
  assumes "wf_Message m"
  shows "\<exists>body. String_Message m = action_string (msgAction m) @ body \<and> (body = [] \<or> prefix '' '' body)
    \<and> no_ws_right (String_Message m)"
proof (cases "msgAction m = ActionSharingContext")
  case True
  with assms have p: "no_ws_right (msgPayload m)" by (simp add: wf_Message_def)
  with True show ?thesis
    using no_ws_right_action [of "msgAction m"] no_ws_right_payload [OF p, of "action_string (msgAction m)"]
    by (cases "msgPayload m = []") (auto simp: String_Message_def)
next
  case False
  define ks where "ks = sort (mkeys (msgFields m))"
  define body where "body = concat (map (\<lambda>k. fieldToken k (Get m k)) ks) @ concat (map tagToken (msgTags m))"
  have kv: "\<forall>k \<in> set ks. wf_key k \<and> wf_value (Get m k)"
    using assms False by (force simp: ks_def wf_Message_def list_all_iff Get_def mgetd_def)
  have ts: "\<forall>t \<in> set (msgTags m). wf_tag t" using assms False by (simp add: wf_Message_def list_all_iff)
  have "String_Message m = action_string (msgAction m) @ body"
    using False by (simp add: String_Message_def body_def ks_def)
  moreover have "body = [] \<or> prefix '' '' body" using TrimLeft_tokens [OF _ body_def] kv by (cases "body = []") force+
  moreover have "no_ws_right (action_string (msgAction m) @ body)"
    unfolding body_def using kv ts by (intro no_ws_right_tokens no_ws_right_action) auto
  ultimately show ?thesis by auto
qed

lemma printed_is_protocol: "wf_Message m \<Longrightarrow> IsProtocolMessage (String_Message m)"
proof -
  assume "wf_Message m"
  then obtain body where b: "String_Message m = action_string (msgAction m) @ body" "body = [] \<or> prefix '' '' body"
    "no_ws_right (String_Message m)" using printed_shape by blast
  then have t: "TrimSpace (String_Message m) = String_Message m"
    using no_ws_left_action [of "msgAction m" body] by (intro TrimSpace_id) simp_all
  show ?thesis
  proof (cases "body = []")
    case True
    with b(1) t show ?thesis by (simp add: IsProtocolMessage_def Let_def)
  next
    case False
    with b(1,2) have "prefix (action_string (msgAction m) @ '' '') (String_Message m)" by (auto simp: prefix_def)
    with t show ?thesis
      using validActions_complete [of "msgAction m"]
      by (auto simp: IsProtocolMessage_def Let_def actionPrefixes_def list_ex_iff)
  qed
qed

end
