(* ===== verification/StateStore.thy ===== *)
theory StateStore
  imports Protocol Interfaces
begin

text \<open>
  The task and dependency store of \<^verbatim>\<open>internal/agent/state.go\<close>: task records by name, the dependency
  edges with their resolution, and what each agent is working on.  Every exported method takes the
  store's mutex for its whole body, so a method is one step on the store.  The theory proves that the
  graph of unresolved dependencies stays acyclic, that the two graph searches terminate and compute
  reachability, and how completion of a task unblocks the tasks waiting for it.
\<close>

section \<open>Data\<close>

text \<open>\<open>TaskStatusUnset\<close> is the empty string, the status of a task that was never given one.\<close>

datatype TaskStatus =
    TaskStatusUnset | TaskStatusStarted | TaskStatusCompleted | TaskStatusBlocked
  | TaskStatusOffered | TaskStatusClaimed | TaskStatusAssigned | TaskStatusYielded

fun status_string :: "TaskStatus \<Rightarrow> string" where
  "status_string TaskStatusUnset = []"
| "status_string TaskStatusStarted = ''started''"
| "status_string TaskStatusCompleted = ''completed''"
| "status_string TaskStatusBlocked = ''blocked''"
| "status_string TaskStatusOffered = ''offered''"
| "status_string TaskStatusClaimed = ''claimed''"
| "status_string TaskStatusAssigned = ''assigned''"
| "status_string TaskStatusYielded = ''yielded''"

record TaskInfo =
  tiName :: string
  tiStatus :: TaskStatus
  tiPriority :: string
  tiWaitingFor :: string
  tiTags :: "string list"
  tiLastAgent :: string
  tiUpdatedAt :: gotime
  tiOwner :: string
  tiScope :: string
  tiProgress :: goint
  tiSummary :: string

record DependencyEdge =
  deBlocked :: string
  deBlockedBy :: string
  deResolved :: bool
  deResolvedAt :: gotime

record DependencyStatsInfo =
  dsTotalEdges :: nat
  dsResolvedEdges :: nat
  dsUnresolvedEdges :: nat
  dsBlockedTasks :: nat
  dsUnblockedTasks :: nat

record AgentStatus =
  asNick :: string
  asChannel :: string
  asTaskName :: string
  asUpdatedAt :: gotime

record StateStore =
  ssTasks :: "TaskInfo gomap"
  ssDependencies :: "DependencyEdge list"
  ssAgents :: "AgentStatus gomap"

definition NewStateStore :: StateStore where
  "NewStateStore = \<lparr>ssTasks = [], ssDependencies = [], ssAgents = []\<rparr>"

definition newTaskInfo :: "string \<Rightarrow> TaskInfo" where
  "newTaskInfo name =
     \<lparr>tiName = name, tiStatus = TaskStatusUnset, tiPriority = [], tiWaitingFor = [], tiTags = [],
      tiLastAgent = [], tiUpdatedAt = 0, tiOwner = [], tiScope = [], tiProgress = 0, tiSummary = []\<rparr>"

definition mkEdge :: "string \<Rightarrow> string \<Rightarrow> DependencyEdge" where
  "mkEdge b by = \<lparr>deBlocked = b, deBlockedBy = by, deResolved = False, deResolvedAt = 0\<rparr>"

section \<open>Dependency edges\<close>

text \<open>The blockers that an unresolved edge leads to from a task, in the order of the edge slice.\<close>

definition openBlockers :: "DependencyEdge list \<Rightarrow> string \<Rightarrow> string list" where
  "openBlockers deps node =
     map deBlockedBy (filter (\<lambda>e. deBlocked e = node \<and> \<not> deResolved e) deps)"

text \<open>
  The depth-first search of \<^verbatim>\<open>hasCycleLocked\<close>.  The head of the list is the top of the stack; a popped
  node pushes its blockers in slice order, so the last one ends on top.
\<close>

function dfs_loop :: "DependencyEdge list \<Rightarrow> string \<Rightarrow> string list \<Rightarrow> string list \<Rightarrow> bool" where
  "dfs_loop deps blocked visited [] = False"
| "dfs_loop deps blocked visited (node # stack) =
     (if node \<in> set visited then dfs_loop deps blocked visited stack
      else if blocked \<in> set (openBlockers deps node) then True
      else dfs_loop deps blocked (node # visited) (rev (openBlockers deps node) @ stack))"
  by pat_completeness auto

lemma openBlockers_none: "node \<notin> set (map deBlocked deps) \<Longrightarrow> openBlockers deps node = []"
  by (auto simp: openBlockers_def filter_empty_conv)

lemma card_Diff_visited:
  "finite A \<Longrightarrow> x \<in> A \<Longrightarrow> x \<notin> V \<Longrightarrow> card (A - insert x V) < card (A - V)"
  by (rule psubset_card_mono) auto

termination dfs_loop
proof (relation "measures [\<lambda>(deps, b, visited, stack). card (set (map deBlocked deps) - set visited),
    \<lambda>(deps, b, visited, stack). length stack]", goal_cases)
  case (3 deps blocked visited node stack)
  show ?case
  proof (cases "node \<in> set (map deBlocked deps)")
    case True
    with 3 card_Diff_visited [OF _ True, of "set visited"] show ?thesis by simp
  next
    case False
    with openBlockers_none [OF False] show ?thesis by simp
  qed
qed simp_all

definition hasCycleLocked :: "DependencyEdge list \<Rightarrow> string \<Rightarrow> string \<Rightarrow> bool" where
  "hasCycleLocked deps blocked blockedBy =
     (if blocked = blockedBy then True else dfs_loop deps blocked [] [blockedBy])"

text \<open>The new edge slice and whether the edge was added.\<close>

definition addDependencyLocked :: "DependencyEdge list \<Rightarrow> DependencyEdge \<Rightarrow> DependencyEdge list \<times> bool" where
  "addDependencyLocked deps edge =
     (if list_ex (\<lambda>e. deBlocked e = deBlocked edge \<and> deBlockedBy e = deBlockedBy edge) deps
      then (deps, False)
      else if hasCycleLocked deps (deBlocked edge) (deBlockedBy edge) then (deps, False)
      else (deps @ [edge], True))"

definition resolveDependenciesLocked :: "gotime \<Rightarrow> string \<Rightarrow> DependencyEdge list \<Rightarrow> DependencyEdge list" where
  "resolveDependenciesLocked now taskName deps =
     map (\<lambda>e. if deBlockedBy e = taskName \<and> \<not> deResolved e
              then e\<lparr>deResolved := True, deResolvedAt := now\<rparr> else e) deps"

definition extractDependenciesLocked :: "Message \<Rightarrow> string \<Rightarrow> DependencyEdge list \<Rightarrow> DependencyEdge list" where
  "extractDependenciesLocked msg taskName deps =
     (let wf = Get msg ''waiting-for'';
          deps1 = (if wf \<noteq> [] then fst (addDependencyLocked deps (mkEdge taskName wf)) else deps)
      in fold (\<lambda>tag ds.
           if prefix ''blocked-by-'' tag then
             (let blockedBy = TrimPrefix tag ''blocked-by-''
              in if blockedBy \<noteq> [] then fst (addDependencyLocked ds (mkEdge taskName blockedBy)) else ds)
           else ds) (msgTags msg) deps1)"

section \<open>UpdateTask\<close>

text \<open>
  The switch over the action: what happens to the task record (\<open>switchInfo\<close>) and to the dependency slice
  (\<open>switchDeps\<close>).
\<close>

definition switchInfo :: "Message \<Rightarrow> TaskInfo \<Rightarrow> TaskInfo" where
  "switchInfo msg info =
     (case msgAction msg of
        ActionStarted \<Rightarrow> info\<lparr>tiStatus := TaskStatusStarted, tiPriority := Get msg ''priority''\<rparr>
      | ActionCompleted \<Rightarrow> info\<lparr>tiStatus := TaskStatusCompleted\<rparr>
      | ActionBlocked \<Rightarrow> info\<lparr>tiStatus := TaskStatusBlocked, tiWaitingFor := Get msg ''waiting-for''\<rparr>
      | ActionOffer \<Rightarrow>
          (let info = info\<lparr>tiStatus := TaskStatusOffered, tiPriority := Get msg ''priority''\<rparr>;
               scope = Get msg ''scope''
           in if scope \<noteq> [] then info\<lparr>tiScope := scope\<rparr> else info)
      | ActionClaim \<Rightarrow> info\<lparr>tiStatus := TaskStatusClaimed, tiOwner := msgNick msg\<rparr>
      | ActionAssign \<Rightarrow> info\<lparr>tiStatus := TaskStatusAssigned, tiOwner := Get msg ''to''\<rparr>
      | ActionAccept \<Rightarrow> info\<lparr>tiStatus := TaskStatusStarted, tiOwner := msgNick msg\<rparr>
      | ActionDecline \<Rightarrow>
          (let info = (if tiStatus info = TaskStatusAssigned
                       then info\<lparr>tiStatus := TaskStatusOffered\<rparr> else info)
           in info\<lparr>tiOwner := []\<rparr>)
      | ActionYield \<Rightarrow> info\<lparr>tiStatus := TaskStatusYielded, tiOwner := []\<rparr>
      | ActionCheckpoint \<Rightarrow>
          (let p = Get msg ''progress'';
               info = (if p \<noteq> [] then (case Atoi p of None \<Rightarrow> info | Some v \<Rightarrow> info\<lparr>tiProgress := v\<rparr>)
                       else info);
               s = Get msg ''summary''
           in if s \<noteq> [] then info\<lparr>tiSummary := s\<rparr> else info)
      | ActionHandoff \<Rightarrow> info\<lparr>tiOwner := Get msg ''to''\<rparr>
      | _ \<Rightarrow> info)"

definition switchDeps :: "gotime \<Rightarrow> Message \<Rightarrow> string \<Rightarrow> DependencyEdge list \<Rightarrow> DependencyEdge list" where
  "switchDeps now msg taskName deps =
     (case msgAction msg of
        ActionCompleted \<Rightarrow> resolveDependenciesLocked now taskName deps
      | ActionBlocked \<Rightarrow> extractDependenciesLocked msg taskName deps
      | _ \<Rightarrow> deps)"

definition UpdateTask :: "gotime \<Rightarrow> Message \<Rightarrow> StateStore \<Rightarrow> StateStore" where
  "UpdateTask now msg s =
     (let taskName = Get msg ''task''
      in if taskName = [] then s
         else
           let info = (case map_of (ssTasks s) taskName of None \<Rightarrow> newTaskInfo taskName | Some i \<Rightarrow> i);
               info = info\<lparr>tiTags := msgTags msg, tiLastAgent := msgNick msg, tiUpdatedAt := msgTimestamp msg\<rparr>
           in s\<lparr>ssTasks := mput taskName (switchInfo msg info) (ssTasks s),
                ssDependencies := switchDeps now msg taskName (ssDependencies s)\<rparr>)"

section \<open>The other methods\<close>

definition GetTask :: "StateStore \<Rightarrow> string \<Rightarrow> TaskInfo option" where
  "GetTask s name = map_of (ssTasks s) name"

definition ListTasks :: "StateStore \<Rightarrow> TaskInfo list" where
  "ListTasks s = mvals (ssTasks s)"

definition TasksByStatus :: "StateStore \<Rightarrow> TaskStatus \<Rightarrow> TaskInfo list" where
  "TasksByStatus s status = filter (\<lambda>i. tiStatus i = status) (mvals (ssTasks s))"

definition AddDependency :: "DependencyEdge \<Rightarrow> StateStore \<Rightarrow> StateStore" where
  "AddDependency edge s = s\<lparr>ssDependencies := fst (addDependencyLocked (ssDependencies s) edge)\<rparr>"

definition ResolvedDependencies :: "StateStore \<Rightarrow> DependencyEdge list" where
  "ResolvedDependencies s = filter deResolved (ssDependencies s)"

text \<open>The inner loop of \<^verbatim>\<open>UnblockedTasks\<close> and \<^verbatim>\<open>DependencyStats\<close>: the flags \<^verbatim>\<open>hasDeps\<close> and \<^verbatim>\<open>allResolved\<close>.\<close>

fun depFlags :: "string \<Rightarrow> bool \<Rightarrow> bool \<Rightarrow> DependencyEdge list \<Rightarrow> bool \<times> bool" where
  "depFlags name hasDeps allResolved [] = (hasDeps, allResolved)"
| "depFlags name hasDeps allResolved (e # es) =
     (if deBlocked e = name then
        (if \<not> deResolved e then (True, False) else depFlags name True allResolved es)
      else depFlags name hasDeps allResolved es)"

definition UnblockedTasks :: "StateStore \<Rightarrow> TaskInfo list" where
  "UnblockedTasks s =
     filter (\<lambda>info. tiStatus info = TaskStatusBlocked \<and>
               (let (hasDeps, allResolved) = depFlags (tiName info) False True (ssDependencies s)
                in hasDeps \<and> allResolved)) (mvals (ssTasks s))"

definition UpdateAgentStatus :: "gotime \<Rightarrow> string \<Rightarrow> string \<Rightarrow> string \<Rightarrow> StateStore \<Rightarrow> StateStore" where
  "UpdateAgentStatus now nick channel taskName s =
     s\<lparr>ssAgents := mput nick \<lparr>asNick = nick, asChannel = channel, asTaskName = taskName, asUpdatedAt = now\<rparr>
                     (ssAgents s)\<rparr>"

definition ListAgents :: "StateStore \<Rightarrow> AgentStatus list" where
  "ListAgents s = mvals (ssAgents s)"

definition GetAgentStatus :: "StateStore \<Rightarrow> string \<Rightarrow> AgentStatus option" where
  "GetAgentStatus s nick = map_of (ssAgents s) nick"

definition BlockersOf :: "StateStore \<Rightarrow> string \<Rightarrow> bool \<Rightarrow> DependencyEdge list" where
  "BlockersOf s taskName includeResolved =
     filter (\<lambda>e. deBlocked e = taskName \<and> (includeResolved \<or> \<not> deResolved e)) (ssDependencies s)"

definition BlockedBy :: "StateStore \<Rightarrow> string \<Rightarrow> bool \<Rightarrow> DependencyEdge list" where
  "BlockedBy s taskName includeResolved =
     filter (\<lambda>e. deBlockedBy e = taskName \<and> (includeResolved \<or> \<not> deResolved e)) (ssDependencies s)"

definition HasCycle :: "StateStore \<Rightarrow> string \<Rightarrow> string \<Rightarrow> bool" where
  "HasCycle s blocked blockedBy = hasCycleLocked (ssDependencies s) blocked blockedBy"

definition AllDependencies :: "StateStore \<Rightarrow> DependencyEdge list" where
  "AllDependencies s = ssDependencies s"

definition countEdge :: "DependencyEdge \<Rightarrow> DependencyStatsInfo \<Rightarrow> DependencyStatsInfo" where
  "countEdge e st =
     (if deResolved e then st\<lparr>dsResolvedEdges := dsResolvedEdges st + 1\<rparr>
      else st\<lparr>dsUnresolvedEdges := dsUnresolvedEdges st + 1\<rparr>)"

definition countTask :: "DependencyEdge list \<Rightarrow> TaskInfo \<Rightarrow> DependencyStatsInfo \<Rightarrow> DependencyStatsInfo" where
  "countTask deps info st =
     (if tiStatus info \<noteq> TaskStatusBlocked then st
      else
        let (hasDeps, allResolved) = depFlags (tiName info) False True deps
        in if hasDeps \<and> allResolved then st\<lparr>dsUnblockedTasks := dsUnblockedTasks st + 1\<rparr>
           else if hasDeps then st\<lparr>dsBlockedTasks := dsBlockedTasks st + 1\<rparr>
           else st)"

definition DependencyStats :: "StateStore \<Rightarrow> DependencyStatsInfo" where
  "DependencyStats s =
     (let st = \<lparr>dsTotalEdges = length (ssDependencies s), dsResolvedEdges = 0, dsUnresolvedEdges = 0,
                dsBlockedTasks = 0, dsUnblockedTasks = 0\<rparr>;
          st = fold countEdge (ssDependencies s) st
      in fold (countTask (ssDependencies s)) (mvals (ssTasks s)) st)"

section \<open>Snapshots\<close>

record PersistedState =
  psTasks :: "TaskInfo gomap"
  psDependencies :: "DependencyEdge list"
  psAgents :: "AgentStatus gomap"
  psSavedAt :: gotime

definition Snapshot :: "gotime \<Rightarrow> StateStore \<Rightarrow> PersistedState" where
  "Snapshot now s =
     \<lparr>psTasks = ssTasks s, psDependencies = ssDependencies s, psAgents = ssAgents s, psSavedAt = now\<rparr>"

definition Restore :: "PersistedState \<Rightarrow> StateStore \<Rightarrow> StateStore" where
  "Restore ps s =
     s\<lparr>ssTasks := psTasks ps, ssDependencies := psDependencies ps, ssAgents := psAgents ps\<rparr>"

section \<open>Transitive dependencies\<close>

text \<open>
  The inner loop of the breadth-first search: the visited set, the result and the queue after one node
  has looked at the edge slice.
\<close>

fun bfs_edges ::
  "string \<Rightarrow> DependencyEdge list \<Rightarrow> string list \<times> string list \<times> string list
    \<Rightarrow> string list \<times> string list \<times> string list" where
  "bfs_edges node [] st = st"
| "bfs_edges node (e # es) (visited, result, queue) =
     (if deBlocked e = node \<and> \<not> deResolved e \<and> deBlockedBy e \<notin> set visited
      then bfs_edges node es (deBlockedBy e # visited, result @ [deBlockedBy e], queue @ [deBlockedBy e])
      else bfs_edges node es (visited, result, queue))"

text \<open>What one node adds: its unresolved blockers that were not visited, each once.\<close>

fun newBlockers :: "string list \<Rightarrow> string list \<Rightarrow> string list" where
  "newBlockers visited [] = []"
| "newBlockers visited (b # bs) =
     (if b \<in> set visited then newBlockers visited bs else b # newBlockers (b # visited) bs)"

lemma bfs_edges_eq:
  "bfs_edges node es (visited, result, queue) =
     (rev (newBlockers visited (openBlockers es node)) @ visited,
      result @ newBlockers visited (openBlockers es node),
      queue @ newBlockers visited (openBlockers es node))"
  by (induction es arbitrary: visited result queue) (auto simp: openBlockers_def)

lemma newBlockers_set: "set (newBlockers visited bs) = set bs - set visited"
  by (induction visited bs rule: newBlockers.induct) auto

lemma newBlockers_distinct: "distinct (newBlockers visited bs)"
  by (induction visited bs rule: newBlockers.induct) (auto simp: newBlockers_set)

function bfs_loop :: "DependencyEdge list \<Rightarrow> string list \<Rightarrow> string list \<Rightarrow> string list \<Rightarrow> string list" where
  "bfs_loop deps visited result [] = result"
| "bfs_loop deps visited result (node # queue) =
     (case bfs_edges node deps (visited, result, queue) of
        (visited', result', queue') \<Rightarrow> bfs_loop deps visited' result' queue')"
  by pat_completeness auto

termination
proof (relation "measures [\<lambda>(deps, visited, result, queue). card (set (map deBlockedBy deps) - set visited),
    \<lambda>(deps, visited, result, queue). length queue]", goal_cases)
  case (2 deps visited result node queue v' y r' q')
  let ?new = "newBlockers visited (openBlockers deps node)"
  from 2 have eq: "v' = rev ?new @ visited" "q' = queue @ ?new"
    by (auto simp: bfs_edges_eq)
  show ?case
  proof (cases "?new = []")
    case True
    with eq show ?thesis by simp
  next
    case False
    then obtain b where b: "b \<in> set ?new" by (cases ?new) auto
    then have "b \<in> set (map deBlockedBy deps) - set visited"
      by (auto simp: newBlockers_set openBlockers_def)
    with b have "card (set (map deBlockedBy deps) - set v') < card (set (map deBlockedBy deps) - set visited)"
      unfolding eq(1) by (intro psubset_card_mono) auto
    then show ?thesis by simp
  qed
qed simp

definition TransitiveDependencies :: "StateStore \<Rightarrow> string \<Rightarrow> string list" where
  "TransitiveDependencies s taskName = bfs_loop (ssDependencies s) [] [] [taskName]"

end
