(* ===== verification/Metrics.thy ===== *)
theory Metrics
  imports Protocol StateStore
begin

text \<open>
  The activity counters of \<^verbatim>\<open>internal/agent/metrics.go\<close> as 64-bit words that wrap, like \<^verbatim>\<open>atomic.Int64\<close>, and
  the task statistics of \<^verbatim>\<open>internal/agent/health.go\<close>.  The OpenTelemetry instruments mirror six of the
  counters through a third-party library and are left out.
\<close>

section \<open>Counters\<close>

record MetricsCollector =
  mcMessagesReceived :: int64
  mcMessagesSent :: int64
  mcProtocolMessagesIn :: int64
  mcProtocolMessagesOut :: int64
  mcTasksStarted :: int64
  mcTasksCompleted :: int64
  mcTasksBlocked :: int64
  mcDependenciesResolved :: int64
  mcContextRequests :: int64
  mcContextShared :: int64
  mcNotificationsSent :: int64
  mcHelpRequested :: int64
  mcTasksOffered :: int64
  mcTasksClaimed :: int64
  mcTasksAssigned :: int64
  mcTasksDeclined :: int64
  mcTasksYielded :: int64
  mcCheckpoints :: int64
  mcHandoffs :: int64
  mcReviewsRequested :: int64
  mcReviewsCompleted :: int64
  mcGatesPassed :: int64
  mcGatesFailed :: int64
  mcVotesRecorded :: int64
  mcEscalationsRaised :: int64

definition NewMetricsCollector :: MetricsCollector where
  "NewMetricsCollector =
     \<lparr>mcMessagesReceived = 0, mcMessagesSent = 0, mcProtocolMessagesIn = 0, mcProtocolMessagesOut = 0,
      mcTasksStarted = 0, mcTasksCompleted = 0, mcTasksBlocked = 0, mcDependenciesResolved = 0,
      mcContextRequests = 0, mcContextShared = 0, mcNotificationsSent = 0, mcHelpRequested = 0,
      mcTasksOffered = 0, mcTasksClaimed = 0, mcTasksAssigned = 0, mcTasksDeclined = 0,
      mcTasksYielded = 0, mcCheckpoints = 0, mcHandoffs = 0, mcReviewsRequested = 0,
      mcReviewsCompleted = 0, mcGatesPassed = 0, mcGatesFailed = 0, mcVotesRecorded = 0,
      mcEscalationsRaised = 0\<rparr>"

text \<open>A snapshot is the collector's values with the time.\<close>

record MetricsSnapshot = MetricsCollector +
  mcCollectedAt :: gotime

definition Snapshot_metrics :: "gotime \<Rightarrow> MetricsCollector \<Rightarrow> MetricsSnapshot" where
  "Snapshot_metrics now mc = MetricsCollector.extend mc \<lparr>mcCollectedAt = now\<rparr>"

definition HandleProtocolMessage :: "Message \<Rightarrow> MetricsCollector \<Rightarrow> MetricsCollector" where
  "HandleProtocolMessage msg mc =
     (let mc = mc\<lparr>mcProtocolMessagesIn := mcProtocolMessagesIn mc + 1\<rparr>
      in case msgAction msg of
           ActionStarted \<Rightarrow> mc\<lparr>mcTasksStarted := mcTasksStarted mc + 1\<rparr>
         | ActionCompleted \<Rightarrow> mc\<lparr>mcTasksCompleted := mcTasksCompleted mc + 1\<rparr>
         | ActionBlocked \<Rightarrow> mc\<lparr>mcTasksBlocked := mcTasksBlocked mc + 1\<rparr>
         | ActionAcknowledged \<Rightarrow> mc\<lparr>mcDependenciesResolved := mcDependenciesResolved mc + 1\<rparr>
         | ActionRequestContext \<Rightarrow> mc\<lparr>mcContextRequests := mcContextRequests mc + 1\<rparr>
         | ActionContext \<Rightarrow> mc\<lparr>mcContextShared := mcContextShared mc + 1\<rparr>
         | ActionSharingContext \<Rightarrow> mc\<lparr>mcContextShared := mcContextShared mc + 1\<rparr>
         | ActionHelpNeeded \<Rightarrow> mc\<lparr>mcHelpRequested := mcHelpRequested mc + 1\<rparr>
         | ActionOffer \<Rightarrow> mc\<lparr>mcTasksOffered := mcTasksOffered mc + 1\<rparr>
         | ActionClaim \<Rightarrow> mc\<lparr>mcTasksClaimed := mcTasksClaimed mc + 1\<rparr>
         | ActionAssign \<Rightarrow> mc\<lparr>mcTasksAssigned := mcTasksAssigned mc + 1\<rparr>
         | ActionDecline \<Rightarrow> mc\<lparr>mcTasksDeclined := mcTasksDeclined mc + 1\<rparr>
         | ActionYield \<Rightarrow> mc\<lparr>mcTasksYielded := mcTasksYielded mc + 1\<rparr>
         | ActionCheckpoint \<Rightarrow> mc\<lparr>mcCheckpoints := mcCheckpoints mc + 1\<rparr>
         | ActionHandoff \<Rightarrow> mc\<lparr>mcHandoffs := mcHandoffs mc + 1\<rparr>
         | ActionReviewRequest \<Rightarrow> mc\<lparr>mcReviewsRequested := mcReviewsRequested mc + 1\<rparr>
         | ActionReviewComplete \<Rightarrow> mc\<lparr>mcReviewsCompleted := mcReviewsCompleted mc + 1\<rparr>
         | ActionGateCheck \<Rightarrow> mc\<lparr>mcGatesPassed := mcGatesPassed mc + 1\<rparr>
         | ActionVote \<Rightarrow> mc\<lparr>mcVotesRecorded := mcVotesRecorded mc + 1\<rparr>
         | ActionEscalate \<Rightarrow> mc\<lparr>mcEscalationsRaised := mcEscalationsRaised mc + 1\<rparr>
         | _ \<Rightarrow> mc)"

definition RecordMessageSent :: "MetricsCollector \<Rightarrow> MetricsCollector" where
  "RecordMessageSent mc =
     mc\<lparr>mcMessagesSent := mcMessagesSent mc + 1, mcProtocolMessagesOut := mcProtocolMessagesOut mc + 1\<rparr>"

definition RecordRawMessageReceived :: "MetricsCollector \<Rightarrow> MetricsCollector" where
  "RecordRawMessageReceived mc = mc\<lparr>mcMessagesReceived := mcMessagesReceived mc + 1\<rparr>"

definition RecordNotificationSent :: "MetricsCollector \<Rightarrow> MetricsCollector" where
  "RecordNotificationSent mc = mc\<lparr>mcNotificationsSent := mcNotificationsSent mc + 1\<rparr>"

text \<open>
  Every gate check is counted as passed, whatever its status, and the counter of failed gates never
  moves.
\<close>

lemma HandleProtocolMessage_counts:
  "mcProtocolMessagesIn (HandleProtocolMessage m mc) = mcProtocolMessagesIn mc + 1"
  "mcGatesPassed (HandleProtocolMessage m mc) = mcGatesPassed mc + (if msgAction m = ActionGateCheck then 1 else 0)"
  "mcGatesFailed (HandleProtocolMessage m mc) = mcGatesFailed mc"
  by (cases "msgAction m"; simp add: HandleProtocolMessage_def Let_def)+

lemma gate_counters:
  "mcProtocolMessagesIn (fold HandleProtocolMessage ms mc) = mcProtocolMessagesIn mc + of_nat (length ms)"
  "mcGatesPassed (fold HandleProtocolMessage ms mc) =
     mcGatesPassed mc + of_nat (length (filter (\<lambda>m. msgAction m = ActionGateCheck) ms))"
  "mcGatesFailed (fold HandleProtocolMessage ms mc) = mcGatesFailed mc"
  by (induction ms arbitrary: mc) (simp_all add: HandleProtocolMessage_counts)

section \<open>Task statistics\<close>

record TaskStatsInfo =
  tstTotal :: nat
  tstStarted :: nat
  tstCompleted :: nat
  tstBlocked :: nat

definition countStatus :: "TaskInfo \<Rightarrow> TaskStatsInfo \<Rightarrow> TaskStatsInfo" where
  "countStatus t stats =
     (case tiStatus t of
        TaskStatusStarted \<Rightarrow> stats\<lparr>tstStarted := tstStarted stats + 1\<rparr>
      | TaskStatusCompleted \<Rightarrow> stats\<lparr>tstCompleted := tstCompleted stats + 1\<rparr>
      | TaskStatusBlocked \<Rightarrow> stats\<lparr>tstBlocked := tstBlocked stats + 1\<rparr>
      | _ \<Rightarrow> stats)"

definition taskStats :: "StateStore \<Rightarrow> TaskStatsInfo" where
  "taskStats s =
     (let tasks = ListTasks s
      in fold countStatus tasks
           \<lparr>tstTotal = length tasks, tstStarted = 0, tstCompleted = 0, tstBlocked = 0\<rparr>)"

lemma fold_countStatus:
  "fold countStatus ts st =
     st\<lparr>tstStarted := tstStarted st + length (filter (\<lambda>t. tiStatus t = TaskStatusStarted) ts),
        tstCompleted := tstCompleted st + length (filter (\<lambda>t. tiStatus t = TaskStatusCompleted) ts),
        tstBlocked := tstBlocked st + length (filter (\<lambda>t. tiStatus t = TaskStatusBlocked) ts)\<rparr>"
  by (induction ts arbitrary: st) (auto simp: countStatus_def split: TaskStatus.split)

lemma taskStats_counts:
  "tstTotal (taskStats s) = length (ListTasks s)"
  "tstStarted (taskStats s) = length (TasksByStatus s TaskStatusStarted)"
  "tstCompleted (taskStats s) = length (TasksByStatus s TaskStatusCompleted)"
  "tstBlocked (taskStats s) = length (TasksByStatus s TaskStatusBlocked)"
  by (simp_all add: taskStats_def Let_def fold_countStatus TasksByStatus_def ListTasks_def)

end
