(* ===== verification/Health.thy ===== *)
theory Health
  imports IrcClient Metrics "HOL-Library.Signed_Division"
begin

text \<open>
  The health check of an agent, \<^verbatim>\<open>internal/agent/health.go\<close>, and the text form of its uptime.  What the IRC
  library reports of the connection (connected, in a valid state, the current nick) is the parameter \<open>conn_view\<close>.
\<close>

record conn_view =
  cvConnected :: bool
  cvHealthy :: bool
  cvNick :: string

record HealthStatus =
  hsConnected :: bool
  hsHealthy :: bool
  hsNick :: string
  hsChannels :: "string list"
  hsUptime :: duration
  hsUptimeHuman :: string
  hsStartedAt :: gotime
  hsTaskStats :: TaskStatsInfo
  hsDependencyStats :: DependencyStatsInfo

record HealthMonitor =
  hmStartedAt :: gotime

definition NewHealthMonitor :: "gotime \<Rightarrow> HealthMonitor" where
  "NewHealthMonitor now = \<lparr>hmStartedAt = now\<rparr>"

text \<open>
  \<^verbatim>\<open>Duration.Hours\<close>, \<^verbatim>\<open>Minutes\<close> and \<^verbatim>\<open>Seconds\<close>: the whole units and the fraction, added as floating-point
  numbers.  The conversion to \<^verbatim>\<open>int\<close> truncates; every value is far inside its range.
\<close>

definition in_units :: "duration \<Rightarrow> duration \<Rightarrow> float64" where
  "in_units u d = fl (of_int64 (d sdiv u) + fl (of_int64 (d smod u) / of_int64 u))"

definition formatDuration :: "duration \<Rightarrow> string" where
  "formatDuration d =
     (let h = trunc (in_units 3600000000000 d);
          m = trunc (in_units 60000000000 d) smod 60;
          s = trunc (in_units 1000000000 d) smod 60
      in itoa h @ ''h'' @ itoa m @ ''m'' @ itoa s @ ''s'')"

definition Check_health :: "gotime \<Rightarrow> conn_view \<Rightarrow> 'h ircClient \<Rightarrow> StateStore \<Rightarrow> HealthMonitor \<Rightarrow> HealthStatus" where
  "Check_health now conn client state h =
     (let uptime = now - hmStartedAt h
      in \<lparr>hsConnected = cvConnected conn, hsHealthy = cvHealthy conn, hsNick = cvNick conn,
          hsChannels = JoinedChannels client, hsUptime = uptime, hsUptimeHuman = formatDuration uptime,
          hsStartedAt = hmStartedAt h, hsTaskStats = taskStats state, hsDependencyStats = DependencyStats state\<rparr>)"

section \<open>The text of an uptime\<close>

text \<open>The floating-point detour is exact as long as the rounding error stays below one nanosecond.\<close>

lemma fraction_below_one:
  assumes "0 \<le> r" "r < u" "u \<le> 2 ^ 42"
  shows "0 \<le> fl (of_int r / of_int u)" "fl (of_int r / of_int u) \<le> 1 - 1 / of_int u + 1 / 2 ^ 53"
proof -
  let ?x = "of_int r / of_int u :: rat"
  from assms have u: "(0::rat) < of_int u" by simp
  from assms have "(of_int r :: rat) \<le> of_int (u - 1)" by (simp only: of_int_le_iff)
  then have "?x \<le> (of_int u - 1) / of_int u" using u by (intro divide_right_mono) auto
  also have "\<dots> = 1 - 1 / of_int u" using u by (simp add: diff_divide_distrib)
  finally have le: "?x \<le> 1 - 1 / of_int u" .
  from assms u have nn: "0 \<le> ?x" by simp
  then show "0 \<le> fl ?x" by (rule fl_nonneg)
  show "fl ?x \<le> 1 - 1 / of_int u + 1 / 2 ^ 53"
  proof (cases "?x = 0")
    case True
    then have "fl ?x = 0" by (simp only: fl_0)
    moreover have "1 / of_int u \<le> (1 :: rat)" using u assms by (simp add: field_simps)
    moreover have "(0 :: rat) \<le> 1 / 2 ^ 53" by simp
    ultimately show ?thesis by linarith
  next
    case False
    with nn have "0 < ?x" by (simp only: less_le) simp
    then have "\<bar>fl ?x - ?x\<bar> \<le> ?x / 2 ^ 53" by (rule fl_rel_error)
    moreover have "?x / 2 ^ 53 \<le> 1 / 2 ^ 53"
    proof -
      have "0 < 1 / (of_int u :: rat)" using u by simp
      with le have "?x \<le> 1" by linarith
      then show ?thesis by (intro divide_right_mono) auto
    qed
    ultimately show ?thesis using le by linarith
  qed
qed

lemma trunc_between: "0 \<le> n \<Longrightarrow> of_int n \<le> x \<Longrightarrow> x < of_int n + 1 \<Longrightarrow> trunc x = n"
  by (auto simp: trunc_def floor_unique)

lemma in_units_whole:
  assumes "0 \<le> d" "0 < u" "u \<le> 2 ^ 42" "(d div u + 1) * u < 2 ^ 52"
  shows "trunc (in_units u d) = d div u"
proof -
  let ?h = "d div u" and ?f = "fl (of_int (d mod u) / of_int u)"
  let ?x = "of_int ?h + ?f"
  have h0: "0 \<le> ?h" using assms(1,2) by (simp add: pos_imp_zdiv_nonneg_iff)
  have "(?h + 1) * 1 \<le> (?h + 1) * u" using h0 assms(2) by (intro mult_left_mono) auto
  with assms(4) have small: "?h + 1 \<le> 2 ^ 52" by simp
  have r: "0 \<le> d mod u" "d mod u < u" using assms(2) by simp_all
  from fraction_below_one [OF r assms(3)] have f: "0 \<le> ?f" "?f \<le> 1 - 1 / of_int u + 1 / 2 ^ 53" .
  have m: "of_int64 (d mod u) = of_int (d mod u)" using r assms(3) by (intro of_int64_small) simp
  have x: "in_units u d = fl ?x"
    using h0 small r assms m by (simp add: in_units_def signed_divide_int_def signed_modulo_int_def sgn_if)
  have low: "of_int ?h \<le> fl ?x" using f(1) h0 small by (intro fl_ge_int) auto
  have "fl ?x < of_int ?h + 1"
  proof (cases "?x = 0")
    case True
    then have "fl ?x = 0" by (simp only: fl_0)
    with h0 show ?thesis by simp
  next
    case False
    have "(0 :: rat) \<le> of_int ?h" using h0 by simp
    with False f(1) have "0 < ?x" by linarith
    then have err: "fl ?x \<le> ?x + ?x / 2 ^ 53" using fl_rel_error [of ?x] by linarith
    have u: "(0 :: rat) < of_int u" using assms(2) by simp
    have "(?h + 2) * u \<le> 2 * ((?h + 1) * u)" using h0 assms(2) by (simp add: algebra_simps)
    also have "\<dots> < 2 * 2 ^ 52" using assms(4) by (rule mult_strict_left_mono) simp
    finally have "of_int ((?h + 2) * u) < (of_int (2 * 2 ^ 52) :: rat)" by (simp only: of_int_less_iff)
    then have "(of_int ?h + 2) / 2 ^ 53 < 1 / (of_int u :: rat)"
      using u by (simp add: field_simps)
    moreover have "?x / 2 ^ 53 \<le> (of_int ?h + 1) / 2 ^ 53"
    proof (intro divide_right_mono)
      have "1 / 2 ^ 53 \<le> 1 / (of_int u :: rat)"
      proof (rule divide_left_mono)
        have "of_int u \<le> (of_int (2 ^ 53) :: rat)" using assms(3) by (simp only: of_int_le_iff) simp
        then show "of_int u \<le> (2 ^ 53 :: rat)" by simp
      qed (use u in simp_all)
      with f(2) show "?x \<le> of_int ?h + 1" by linarith
    qed simp
    moreover have "(of_int ?h + 2) / 2 ^ 53 = (of_int ?h + 1) / 2 ^ 53 + 1 / (2 ^ 53 :: rat)"
      by (simp add: add_divide_distrib)
    ultimately show ?thesis using err f(2) by linarith
  qed
  with low h0 x show ?thesis by (simp add: trunc_between)
qed

text \<open>
  The uptime on the health page is exact: for every uptime up to forty-six days, the text that is computed in floating
  point from the hours, minutes and seconds is the one of integer arithmetic.
\<close>

theorem uptime_text_exact:
  assumes "0 \<le> d" "d < 4000000000000000"
  shows "formatDuration d =
    itoa (d div 3600000000000) @ ''h'' @ itoa (d div 60000000000 mod 60) @ ''m'' @ itoa (d div 1000000000 mod 60) @ ''s''"
proof -
  have whole: "trunc (in_units u d) = d div u" if "0 < u" "u \<le> 3600000000000" for u
  proof (rule in_units_whole)
    have "(d div u + 1) * u \<le> d + u"
      using div_mult_mod_eq [of d u] pos_mod_sign [OF that(1), of d] by (simp only: distrib_right mult_1)
    also have "\<dots> < 2 ^ 52" using that assms(2) by simp
    finally show "(d div u + 1) * u < 2 ^ 52" .
  qed (use that assms in auto)
  have "(d div u) smod 60 = d div u mod 60" if "0 < u" for u
    using that assms(1) by (simp add: smod_mod_positive pos_imp_zdiv_nonneg_iff)
  then show ?thesis by (simp add: formatDuration_def whole Let_def)
qed

theorem uptime_text_exact_witness: "formatDuration 93784000000000 = ''26h3m4s''"
proof -
  have "itoa 26 = ''26''" "itoa 3 = ''3''" "itoa 4 = ''4''" by code_simp+
  then show ?thesis using uptime_text_exact [of 93784000000000] by simp
qed

end
