(* ===== verification/StateGraph.thy ===== *)
theory StateGraph
  imports StateStore
begin

text \<open>
  Lemmas and properties of the store in theory \<open>StateStore\<close>: the dependency graph and its two searches,
  the store's invariant under every sequence of operations, and what completing a task does.
\<close>

section \<open>The graph of unresolved dependencies\<close>

definition openEdges :: "DependencyEdge list \<Rightarrow> (string \<times> string) set" where
  "openEdges deps = {(deBlocked e, deBlockedBy e) | e. e \<in> set deps \<and> \<not> deResolved e}"

lemma set_openBlockers: "set (openBlockers deps n) = openEdges deps `` {n}"
  by (auto simp: openBlockers_def openEdges_def)

lemma openBlockers_iff [simp]: "b \<in> set (openBlockers deps n) \<longleftrightarrow> (n, b) \<in> openEdges deps"
  by (simp add: set_openBlockers)

lemma finite_openEdges [simp]: "finite (openEdges deps)"
proof -
  have "openEdges deps \<subseteq> (\<lambda>e. (deBlocked e, deBlockedBy e)) ` set deps" by (auto simp: openEdges_def)
  then show ?thesis by (rule finite_subset) simp
qed

lemma openEdges_append [simp]: "openEdges (deps @ deps') = openEdges deps \<union> openEdges deps'"
  by (auto simp: openEdges_def)

lemma openEdges_Nil [simp]: "openEdges [] = {}"
  by (simp add: openEdges_def)

lemma openEdges_single:
  "openEdges [e] = (if deResolved e then {} else {(deBlocked e, deBlockedBy e)})"
  by (auto simp: openEdges_def)

section \<open>Depth-first search\<close>

lemma dfs_loop_sound:
  "dfs_loop deps t visited stack \<Longrightarrow> \<exists>n \<in> set stack. (n, t) \<in> (openEdges deps)\<^sup>+"
proof (induction deps t visited stack rule: dfs_loop.induct)
  case (2 deps t visited n stack)
  consider (vis) "n \<in> set visited" | (hit) "n \<notin> set visited" "(n, t) \<in> openEdges deps"
    | (push) "n \<notin> set visited" "(n, t) \<notin> openEdges deps" by blast
  then show ?case
  proof cases
    case vis
    with 2 show ?thesis by auto
  next
    case hit
    then show ?thesis by auto
  next
    case push
    with 2(3) have "dfs_loop deps t (n # visited) (rev (openBlockers deps n) @ stack)" by simp
    with push 2(2) have "\<exists>m \<in> set (rev (openBlockers deps n) @ stack). (m, t) \<in> (openEdges deps)\<^sup>+"
      by (simp only: openBlockers_iff simp_thms)
    then show ?thesis by (auto intro: trancl_into_trancl2)
  qed
qed simp

text \<open>
  The search invariant: no visited node has the target as a blocker, and the blockers of a visited
  node have been visited or are still on the stack.
\<close>

definition search_inv :: "DependencyEdge list \<Rightarrow> string \<Rightarrow> string set \<Rightarrow> string set \<Rightarrow> bool" where
  "search_inv deps t V W \<longleftrightarrow>
     (\<forall>v \<in> V. (v, t) \<notin> openEdges deps \<and> openEdges deps `` {v} \<subseteq> V \<union> W)"

lemma dfs_loop_complete:
  "\<not> dfs_loop deps t visited stack \<Longrightarrow> search_inv deps t (set visited) (set stack) \<Longrightarrow>
   \<forall>n \<in> set visited \<union> set stack. (n, t) \<notin> (openEdges deps)\<^sup>+"
proof (induction deps t visited stack rule: dfs_loop.induct)
  case (1 deps t visited)
  let ?R = "openEdges deps"
  have closed: "m \<in> set visited" if "(n, m) \<in> ?R\<^sup>*" "n \<in> set visited" for n m
    using that 1 by (induction rule: rtrancl_induct) (auto simp: search_inv_def)
  show ?case
  proof (intro ballI notI)
    fix n assume "n \<in> set visited \<union> set []" and "(n, t) \<in> ?R\<^sup>+"
    then obtain m where "(n, m) \<in> ?R\<^sup>*" "(m, t) \<in> ?R" "n \<in> set visited" by (auto dest: tranclD2)
    with closed 1 show False by (auto simp: search_inv_def)
  qed
next
  case (2 deps t visited n stack)
  show ?case
  proof (cases "n \<in> set visited")
    case True
    then have "search_inv deps t (set visited) (set stack)"
      using 2(4) by (auto simp: search_inv_def)
    with True 2(1,3) show ?thesis by auto
  next
    case False
    with 2(3) have nt: "(n, t) \<notin> openEdges deps" by auto
    have "search_inv deps t (set (n # visited)) (set (rev (openBlockers deps n) @ stack))"
      using 2(4) nt by (auto simp: search_inv_def set_openBlockers)
    with False nt 2(2,3) show ?thesis by auto
  qed
qed

lemma hasCycleLocked_iff:
  "hasCycleLocked deps blocked blockedBy \<longleftrightarrow> (blockedBy, blocked) \<in> (openEdges deps)\<^sup>*"
proof (cases "blocked = blockedBy")
  case True
  then show ?thesis by (simp add: hasCycleLocked_def)
next
  case False
  have "search_inv deps blocked {} {blockedBy}" by (simp add: search_inv_def)
  then have "dfs_loop deps blocked [] [blockedBy] \<longleftrightarrow> (blockedBy, blocked) \<in> (openEdges deps)\<^sup>+"
    using dfs_loop_sound [of deps blocked "[]" "[blockedBy]"]
      dfs_loop_complete [of deps blocked "[]" "[blockedBy]"] by (auto simp del: dfs_loop.simps)
  with False show ?thesis by (auto simp: hasCycleLocked_def rtrancl_eq_or_trancl)
qed

text \<open>
  C9.  The search for a cycle terminates and is exact: a new edge is reported to close a cycle exactly
  when the blocked task can already be reached from its blocker over unresolved dependencies (or is
  its own blocker).
\<close>

theorem has_cycle_exact:
  "HasCycle s blocked blockedBy \<longleftrightarrow> (blockedBy, blocked) \<in> (openEdges (AllDependencies s))\<^sup>*"
  by (simp add: HasCycle_def AllDependencies_def hasCycleLocked_iff)

section \<open>Breadth-first search\<close>

lemma bfs_loop_correct:
  assumes "set visited = set result" "distinct result"
    and "openEdges deps `` (insert t (set result) - set queue) \<subseteq> set result"
    and "set queue \<subseteq> insert t (set result)" "set result \<subseteq> (openEdges deps)\<^sup>+ `` {t}"
    and "t \<in> set queue \<or> openEdges deps `` {t} \<subseteq> set result"
  shows "distinct (bfs_loop deps visited result queue)
    \<and> set (bfs_loop deps visited result queue) = (openEdges deps)\<^sup>+ `` {t}"
  using assms
proof (induction deps visited result queue rule: bfs_loop.induct)
  case (1 deps visited result)
  have "(openEdges deps)\<^sup>+ `` {t} \<subseteq> set result"
  proof
    fix x assume "x \<in> (openEdges deps)\<^sup>+ `` {t}"
    then have "(t, x) \<in> (openEdges deps)\<^sup>+" by simp
    then show "x \<in> set result"
      using 1 by (induction rule: trancl_induct) auto
  qed
  with 1 show ?case by auto
next
  case (2 deps visited result n queue)
  let ?new = "newBlockers visited (openBlockers deps n)"
  have new: "set ?new = openEdges deps `` {n} - set result"
    using 2(2) by (simp add: newBlockers_set set_openBlockers)
  have n: "n = t \<or> (t, n) \<in> (openEdges deps)\<^sup>+" using 2(5,6) by auto
  have "openEdges deps `` {n} \<subseteq> (openEdges deps)\<^sup>+ `` {t}"
    using n by (auto intro: trancl_into_trancl)
  moreover have "distinct (result @ ?new)" using 2(3) new newBlockers_distinct by auto
  moreover have "openEdges deps `` (insert t (set (result @ ?new)) - set (queue @ ?new)) \<subseteq> set (result @ ?new)"
    using 2(4) new by auto
  ultimately show ?case
    using 2(2,5,6,7) new
    by (simp add: bfs_edges_eq) (rule 2(1) [OF bfs_edges_eq [symmetric] refl], auto)
qed

text \<open>
  C10.  \<open>TransitiveDependencies\<close> lists, each once, exactly the tasks that the given task waits for over
  one or more unresolved dependencies.
\<close>

theorem transitive_dependencies_exact:
  "distinct (TransitiveDependencies s t)
   \<and> set (TransitiveDependencies s t) = (openEdges (ssDependencies s))\<^sup>+ `` {t}"
  unfolding TransitiveDependencies_def by (rule bfs_loop_correct) auto

section \<open>The invariant of the store\<close>

definition edgePair :: "DependencyEdge \<Rightarrow> string \<times> string" where
  "edgePair e = (deBlocked e, deBlockedBy e)"

definition deps_inv :: "DependencyEdge list \<Rightarrow> bool" where
  "deps_inv deps \<longleftrightarrow> distinct (map edgePair deps) \<and> acyclic (openEdges deps)"

definition ss_inv :: "StateStore \<Rightarrow> bool" where
  "ss_inv s \<longleftrightarrow>
     keyed (\<lambda>k i. tiName i = k \<and> k \<noteq> []) (ssTasks s) \<and> keyed (\<lambda>k a. asNick a = k) (ssAgents s)
     \<and> deps_inv (ssDependencies s)"

lemma edgePair_simps [simp]:
  "edgePair (mkEdge a b) = (a, b)"
  "edgePair (e\<lparr>deResolved := r\<rparr>) = edgePair e" "edgePair (e\<lparr>deResolvedAt := t\<rparr>) = edgePair e"
  by (simp_all add: edgePair_def mkEdge_def)

lemma deps_inv_add: "deps_inv deps \<Longrightarrow> deps_inv (fst (addDependencyLocked deps e))"
  by (auto simp: addDependencyLocked_def deps_inv_def list_ex_iff edgePair_def openEdges_single
      hasCycleLocked_iff acyclic_insert)

lemma openEdges_resolve:
  "openEdges (resolveDependenciesLocked now t deps) = {(a, b) \<in> openEdges deps. b \<noteq> t}"
  by (force simp: openEdges_def resolveDependenciesLocked_def)

lemma map_edgePair_resolve [simp]:
  "map edgePair (resolveDependenciesLocked now t deps) = map edgePair deps"
  by (simp add: resolveDependenciesLocked_def)

lemma map_deBlocked_resolve [simp]:
  "map deBlocked (resolveDependenciesLocked now t deps) = map deBlocked deps"
  by (simp add: resolveDependenciesLocked_def)

lemma deps_inv_resolve: "deps_inv deps \<Longrightarrow> deps_inv (resolveDependenciesLocked now t deps)"
  by (auto simp: deps_inv_def openEdges_resolve intro: acyclic_subset)

lemma fold_keeps: "P s \<Longrightarrow> (\<And>x s. P s \<Longrightarrow> P (f x s)) \<Longrightarrow> P (fold f xs s)"
  by (induction xs arbitrary: s) auto

lemma deps_inv_extract: "deps_inv deps \<Longrightarrow> deps_inv (extractDependenciesLocked msg t deps)"
  unfolding extractDependenciesLocked_def Let_def
  by (rule fold_keeps) (auto intro: deps_inv_add)

lemma deps_inv_switch: "deps_inv deps \<Longrightarrow> deps_inv (switchDeps now msg t deps)"
  by (auto simp: switchDeps_def deps_inv_extract deps_inv_resolve split: Action.split)

lemma tiName_switchInfo [simp]: "tiName (switchInfo msg i) = tiName i"
  by (auto simp: switchInfo_def Let_def split: Action.split option.split)

lemma ss_inv_UpdateTask: "ss_inv s \<Longrightarrow> ss_inv (UpdateTask now msg s)"
  by (auto simp: ss_inv_def UpdateTask_def Let_def deps_inv_switch newTaskInfo_def
      split: option.split dest: keyedD)

datatype store_op =
    OpUpdateTask gotime Message
  | OpAddDependency DependencyEdge
  | OpUpdateAgentStatus gotime string string string

fun store_step :: "store_op \<Rightarrow> StateStore \<Rightarrow> StateStore" where
  "store_step (OpUpdateTask now msg) s = UpdateTask now msg s"
| "store_step (OpAddDependency e) s = AddDependency e s"
| "store_step (OpUpdateAgentStatus now nick channel task) s = UpdateAgentStatus now nick channel task s"

lemma ss_inv_AddDependency: "ss_inv s \<Longrightarrow> ss_inv (AddDependency e s)"
  by (simp add: AddDependency_def ss_inv_def deps_inv_add)

lemma ss_inv_UpdateAgentStatus: "ss_inv s \<Longrightarrow> ss_inv (UpdateAgentStatus now nick channel task s)"
  by (auto simp: ss_inv_def UpdateAgentStatus_def)

lemmas ss_inv_ops = ss_inv_UpdateTask ss_inv_AddDependency ss_inv_UpdateAgentStatus

lemma ss_inv_step: "ss_inv s \<Longrightarrow> ss_inv (store_step x s)"
  by (cases x) (simp_all add: ss_inv_ops)

lemma ss_inv_New: "ss_inv NewStateStore"
  by (simp add: ss_inv_def deps_inv_def NewStateStore_def acyclic_def)

interpretation store: guarded_store NewStateStore store_step ss_inv
  by unfold_locales (fact ss_inv_New, rule ss_inv_step)

text \<open>
  C1.  Whatever sequence of task messages, manual dependencies and agent reports the store sees, its
  unresolved dependencies never form a cycle, no pair of tasks has two edges, and each task and agent
  is filed once, under its own name.
\<close>

theorem store_always_acyclic:
  "let s = fold store_step ops NewStateStore
   in acyclic (openEdges (AllDependencies s))
      \<and> distinct (map (\<lambda>e. (deBlocked e, deBlockedBy e)) (AllDependencies s))
      \<and> list_all (\<lambda>i. GetTask s (tiName i) = Some i) (ListTasks s)
      \<and> list_all (\<lambda>a. GetAgentStatus s (asNick a) = Some a) (ListAgents s)"
proof -
  have "ss_inv (fold store_step ops NewStateStore)" by (rule store.inv_run)
  then show ?thesis
    unfolding Let_def list_all_iff ListTasks_def ListAgents_def
    by (auto simp: ss_inv_def deps_inv_def edgePair_def [abs_def] AllDependencies_def keyed_mvals
        GetTask_def GetAgentStatus_def simp del: set_map dest: keyedD)
qed

section \<open>Blocked and unblocked tasks\<close>

lemma depFlags_correct:
  "depFlags name h ar deps = (hh, ar') \<Longrightarrow>
   (hh \<and> ar' \<longleftrightarrow> ar \<and> (h \<or> name \<in> deBlocked ` set deps) \<and> openBlockers deps name = [])
   \<and> (hh \<longleftrightarrow> h \<or> name \<in> deBlocked ` set deps)"
  by (induction name h ar deps rule: depFlags.induct) (auto simp: openBlockers_def split: if_splits)

text \<open>A task that has dependencies, all of them resolved.\<close>

definition cleared :: "DependencyEdge list \<Rightarrow> string \<Rightarrow> bool" where
  "cleared deps t \<longleftrightarrow> t \<in> set (map deBlocked deps) \<and> openBlockers deps t = []"

lemma depFlags_cleared: "(let (h, ar) = depFlags t False True deps in h \<and> ar) \<longleftrightarrow> cleared deps t"
  using depFlags_correct [of t False True deps]
  by (cases "depFlags t False True deps") (auto simp: cleared_def)

lemma UnblockedTasks_eq:
  "UnblockedTasks s =
     filter (\<lambda>i. tiStatus i = TaskStatusBlocked \<and> cleared (ssDependencies s) (tiName i)) (ListTasks s)"
  by (simp add: UnblockedTasks_def ListTasks_def depFlags_cleared)

lemma openBlockers_resolve:
  "openBlockers (resolveDependenciesLocked now t deps) u = filter (\<lambda>b. b \<noteq> t) (openBlockers deps u)"
  by (induction deps) (auto simp: openBlockers_def resolveDependenciesLocked_def)

lemma cleared_resolve:
  "cleared (resolveDependenciesLocked now t deps) u \<longleftrightarrow>
     u \<in> set (map deBlocked deps) \<and> set (openBlockers deps u) \<subseteq> {t}"
  by (auto simp: cleared_def openBlockers_resolve filter_empty_conv simp del: set_map)

lemma UpdateTask_completed:
  assumes "msgAction msg = ActionCompleted" "Get msg ''task'' = t" "t \<noteq> []"
  shows "ssDependencies (UpdateTask now msg s) = resolveDependenciesLocked now t (ssDependencies s)"
    and "u \<noteq> t \<Longrightarrow> GetTask (UpdateTask now msg s) u = GetTask s u"
  using assms by (simp_all add: UpdateTask_def switchDeps_def Let_def GetTask_def)

lemma UnblockedTasks_iff:
  assumes "ss_inv s"
  shows "i \<in> set (UnblockedTasks s) \<longleftrightarrow>
    GetTask s (tiName i) = Some i \<and> tiStatus i = TaskStatusBlocked \<and> cleared (ssDependencies s) (tiName i)"
proof -
  have "i \<in> set (ListTasks s) \<longleftrightarrow> GetTask s (tiName i) = Some i"
    using assms unfolding ListTasks_def
    by (auto simp: ss_inv_def GetTask_def keyed_mvals simp del: set_map dest: keyedD)
  then show ?thesis by (auto simp: UnblockedTasks_eq)
qed

text \<open>
  C8.  What a COMPLETED message does to the other tasks of a store that was built by its operations:
  a blocked task is reported as unblocked afterwards exactly when it has dependencies and the only
  unresolved ones, if any, were on the completed task.
\<close>

theorem completion_unblocks:
  assumes "msgAction msg = ActionCompleted" "Get msg ''task'' = t" "t \<noteq> []"
    and "GetTask (fold store_step ops NewStateStore) u = Some i" "u \<noteq> t"
  shows "i \<in> set (UnblockedTasks (UpdateTask now msg (fold store_step ops NewStateStore))) \<longleftrightarrow>
    tiStatus i = TaskStatusBlocked \<and>
    BlockersOf (fold store_step ops NewStateStore) u True \<noteq> [] \<and>
    deBlockedBy ` set (BlockersOf (fold store_step ops NewStateStore) u False) \<subseteq> {t}"
proof -
  let ?s = "fold store_step ops NewStateStore"
  have inv: "ss_inv ?s" by (rule store.inv_run)
  then have "tiName i = u"
    using assms(4) by (auto simp: ss_inv_def GetTask_def dest: keyedD)
  moreover have "GetTask (UpdateTask now msg ?s) u = Some i"
    using assms UpdateTask_completed(2) by simp
  ultimately have "i \<in> set (UnblockedTasks (UpdateTask now msg ?s)) \<longleftrightarrow>
      tiStatus i = TaskStatusBlocked \<and> cleared (resolveDependenciesLocked now t (ssDependencies ?s)) u"
    using UnblockedTasks_iff [OF ss_inv_UpdateTask [OF inv]] UpdateTask_completed(1) [OF assms(1-3)] by auto
  then show ?thesis
    unfolding cleared_resolve by (auto simp: BlockersOf_def openBlockers_def filter_empty_conv)
qed

definition demo_ops :: "store_op list" where
  "demo_ops =
    [OpUpdateTask 1 (mkMessage ActionBlocked [(''task'', ''ui''), (''waiting-for'', ''api'')] []),
     OpUpdateTask 2 (mkMessage ActionStarted [(''task'', ''api'')] [])]"

theorem completion_unblocks_witness:
  "let i = the (GetTask (fold store_step demo_ops NewStateStore) ''ui'')
   in i \<in> set (UnblockedTasks (UpdateTask 3 (mkMessage ActionCompleted [(''task'', ''api'')] [])
              (fold store_step demo_ops NewStateStore)))"
proof -
  let ?s = "fold store_step demo_ops NewStateStore"
  let ?i = "the (GetTask ?s ''ui'')"
  have "GetTask ?s ''ui'' = Some ?i" by code_simp
  moreover have "tiStatus ?i = TaskStatusBlocked \<and> BlockersOf ?s ''ui'' True \<noteq> [] \<and>
      deBlockedBy ` set (BlockersOf ?s ''ui'' False) \<subseteq> {''api''}" by code_simp
  ultimately show ?thesis
    using completion_unblocks [of "mkMessage ActionCompleted [(''task'', ''api'')] []" "''api''" demo_ops "''ui''" ?i 3]
    by (simp add: Let_def mkMessage_def Get_def mgetd_def)
qed

text \<open>
  A second BLOCKED message for a dependency that was resolved once does not reopen it: the edge
  counts as a duplicate, so the task is blocked in its record, has no unresolved blocker, and is
  reported as unblocked although the task it waits for has not been completed again.
\<close>

theorem reblocked_dependency_stays_resolved:
  assumes "msgAction msg = ActionBlocked" "Get msg ''task'' = t" "t \<noteq> []"
    and "Get msg ''waiting-for'' = b" "b \<noteq> []" "msgTags msg = []"
    and "e \<in> set (BlockersOf s t True)" "deBlockedBy e = b"
  shows "AllDependencies (UpdateTask now msg s) = AllDependencies s
    \<and> map_option tiStatus (GetTask (UpdateTask now msg s) t) = Some TaskStatusBlocked"
proof -
  have "list_ex (\<lambda>e. deBlocked e = t \<and> deBlockedBy e = b) (ssDependencies s)"
    using assms(7,8) by (auto simp: list_ex_iff BlockersOf_def)
  then have "fst (addDependencyLocked (ssDependencies s) (mkEdge t b)) = ssDependencies s"
    by (simp add: addDependencyLocked_def mkEdge_def)
  with assms(1-6) show ?thesis
    by (simp add: AllDependencies_def UpdateTask_def GetTask_def Let_def switchDeps_def switchInfo_def
        extractDependenciesLocked_def)
qed

definition reblock_ops :: "store_op list" where
  "reblock_ops = demo_ops @
    [OpUpdateTask 3 (mkMessage ActionCompleted [(''task'', ''api'')] []),
     OpUpdateTask 4 (mkMessage ActionStarted [(''task'', ''api'')] [])]"

theorem reblocked_dependency_stays_resolved_witness:
  "let s = fold store_step reblock_ops NewStateStore;
       s' = UpdateTask 5 (mkMessage ActionBlocked [(''task'', ''ui''), (''waiting-for'', ''api'')] []) s
   in AllDependencies s' = AllDependencies s \<and> map tiName (UnblockedTasks s') = [''ui'']
      \<and> map_option tiStatus (GetTask s' ''api'') = Some TaskStatusStarted"
proof -
  let ?s = "fold store_step reblock_ops NewStateStore"
  let ?m = "mkMessage ActionBlocked [(''task'', ''ui''), (''waiting-for'', ''api'')] []"
  have "hd (BlockersOf ?s ''ui'' True) \<in> set (BlockersOf ?s ''ui'' True)"
    "deBlockedBy (hd (BlockersOf ?s ''ui'' True)) = ''api''" by code_simp+
  from reblocked_dependency_stays_resolved [of ?m "''ui''" "''api''", OF _ _ _ _ _ _ this]
  have "AllDependencies (UpdateTask 5 ?m ?s) = AllDependencies ?s"
    by (simp add: mkMessage_def Get_def mgetd_def)
  moreover have "map tiName (UnblockedTasks (UpdateTask 5 ?m ?s)) = [''ui'']"
    "map_option tiStatus (GetTask (UpdateTask 5 ?m ?s) ''api'') = Some TaskStatusStarted" by code_simp+
  ultimately show ?thesis by (simp add: Let_def)
qed

section \<open>Statistics\<close>

lemma fold_countEdge:
  "fold countEdge es st =
     st\<lparr>dsResolvedEdges := dsResolvedEdges st + length (filter deResolved es),
        dsUnresolvedEdges := dsUnresolvedEdges st + length (filter (\<lambda>e. \<not> deResolved e) es)\<rparr>"
  by (induction es arbitrary: st) (auto simp: countEdge_def)

definition waiting :: "DependencyEdge list \<Rightarrow> TaskInfo \<Rightarrow> bool" where
  "waiting deps i \<longleftrightarrow> tiStatus i = TaskStatusBlocked \<and> openBlockers deps (tiName i) \<noteq> []"

definition released :: "DependencyEdge list \<Rightarrow> TaskInfo \<Rightarrow> bool" where
  "released deps i \<longleftrightarrow> tiStatus i = TaskStatusBlocked \<and> cleared deps (tiName i)"

lemma countTask_eq:
  "countTask deps i st =
     (if released deps i then st\<lparr>dsUnblockedTasks := dsUnblockedTasks st + 1\<rparr>
      else if waiting deps i then st\<lparr>dsBlockedTasks := dsBlockedTasks st + 1\<rparr> else st)"
proof -
  obtain h a where f: "depFlags (tiName i) False True deps = (h, a)" by fastforce
  from depFlags_correct [OF f] have
    "h \<and> a \<longleftrightarrow> cleared deps (tiName i)"
    "h \<and> \<not> cleared deps (tiName i) \<longleftrightarrow> openBlockers deps (tiName i) \<noteq> []"
    using openBlockers_none [of "tiName i" deps] by (auto simp: cleared_def)
  with f show ?thesis by (auto simp: countTask_def released_def waiting_def)
qed

lemma fold_countTask:
  "fold (countTask deps) is st =
     st\<lparr>dsUnblockedTasks := dsUnblockedTasks st + length (filter (released deps) is),
        dsBlockedTasks := dsBlockedTasks st + length (filter (waiting deps) is)\<rparr>"
proof (induction "is" arbitrary: st)
  case (Cons i "is")
  have "\<not> (released deps i \<and> waiting deps i)" by (simp add: released_def waiting_def cleared_def)
  with Cons show ?case by (auto simp: countTask_eq)
qed simp

text \<open>
  The dependency statistics agree with the queries of the store: the edges are counted as
  resolved or unresolved, \<^verbatim>\<open>UnblockedTasks\<close> counts the tasks that the query of that name lists and
  \<^verbatim>\<open>BlockedTasks\<close> the blocked tasks that still have an unresolved blocker.
\<close>

theorem dependency_stats_agree:
  "dsTotalEdges (DependencyStats s) = length (AllDependencies s)
   \<and> dsResolvedEdges (DependencyStats s) = length (ResolvedDependencies s)
   \<and> dsResolvedEdges (DependencyStats s) + dsUnresolvedEdges (DependencyStats s) = dsTotalEdges (DependencyStats s)
   \<and> dsUnblockedTasks (DependencyStats s) = length (UnblockedTasks s)
   \<and> dsBlockedTasks (DependencyStats s)
       = length (filter (\<lambda>i. BlockersOf s (tiName i) False \<noteq> []) (TasksByStatus s TaskStatusBlocked))"
proof -
  have "length (filter deResolved (ssDependencies s)) + length (filter (\<lambda>e. \<not> deResolved e) (ssDependencies s))
      = length (ssDependencies s)" by (rule sum_length_filter_compl)
  moreover have "filter (released (ssDependencies s)) (ListTasks s) = UnblockedTasks s"
    by (simp add: UnblockedTasks_eq released_def [abs_def])
  moreover have "filter (waiting (ssDependencies s)) (ListTasks s) =
      filter (\<lambda>i. BlockersOf s (tiName i) False \<noteq> []) (TasksByStatus s TaskStatusBlocked)"
    by (auto simp: TasksByStatus_def ListTasks_def waiting_def BlockersOf_def openBlockers_def
        filter_empty_conv intro!: filter_cong)
  ultimately show ?thesis
    by (simp add: DependencyStats_def Let_def fold_countEdge fold_countTask AllDependencies_def
        ResolvedDependencies_def ListTasks_def)
qed

section \<open>Snapshots\<close>

lemma Restore_Snapshot: "Restore (Snapshot now s) s' = s"
  by (simp add: Restore_def Snapshot_def)

lemma Snapshot_Restore: "Snapshot (psSavedAt ps) (Restore ps s) = ps"
  by (simp add: Restore_def Snapshot_def)

end
