(* ===== verification/Coordinator.thy ===== *)
theory Coordinator
  imports StateGraph IrcEvents
begin

text \<open>
  The unblock notifier of \<^verbatim>\<open>internal/agent/coordinator.go\<close>.  Its state is the set of task names that
  were acknowledged; an operation returns the new set and the calls of \<^verbatim>\<open>client.SendMessage\<close> it makes, in
  order, as pairs of a target and a text.  The error that a send may return is ignored by the code.
\<close>

definition NewUnblockNotifier :: "string list" where
  "NewUnblockNotifier = []"

definition ackMsg :: "string \<Rightarrow> string \<Rightarrow> Message" where
  "ackMsg name completedTask =
     mkMessage ActionAcknowledged [(''task'', name), (''unblocked-by'', completedTask)] [''auto-unblock'']"

text \<open>The loop over the unblocked tasks: the notified set and the tasks to acknowledge.\<close>

fun notify_loop :: "string list \<Rightarrow> string list \<Rightarrow> string list \<times> string list" where
  "notify_loop notified [] = (notified, [])"
| "notify_loop notified (name # names) =
     (if name \<in> set notified then notify_loop notified names
      else (case notify_loop (name # notified) names of (notified', acks) \<Rightarrow> (notified', name # acks)))"

definition OnTaskCompleted :: "StateStore \<Rightarrow> Message \<Rightarrow> string list \<Rightarrow> string list \<times> outbox" where
  "OnTaskCompleted state msg notified =
     (if msgAction msg \<noteq> ActionCompleted then (notified, [])
      else
        let completedTask = Get msg ''task''
        in if completedTask = [] then (notified, [])
           else
             let unblocked = UnblockedTasks state
             in if unblocked = [] then (notified, [])
                else
                  let (notified', acks) = notify_loop notified (map tiName unblocked);
                      target = (if msgChannel msg = [] then msgNick msg else msgChannel msg)
                  in (notified', map (\<lambda>name. (target, String_Message (ackMsg name completedTask))) acks))"

definition Reset :: "string list \<Rightarrow> string list" where
  "Reset notified = []"

definition NotifiedTasks :: "string list \<Rightarrow> string list" where
  "NotifiedTasks notified = notified"

definition FormatUnblockMessage :: "string \<Rightarrow> string \<Rightarrow> string" where
  "FormatUnblockMessage unblockedTask completedTask =
     ''ACKNOWLEDGED task='' @ unblockedTask @ '' unblocked-by='' @ completedTask @ '' #auto-unblock''"

section \<open>Acknowledgements\<close>

lemma notify_loop_correct:
  "set (snd (notify_loop notified names)) = set names - set notified"
  "distinct (snd (notify_loop notified names))"
  "set (fst (notify_loop notified names)) = set notified \<union> set names"
  by (induction notified names rule: notify_loop.induct) (auto simp: case_prod_beta)

text \<open>The tasks that a call acknowledges.\<close>

definition ackedTasks :: "StateStore \<Rightarrow> Message \<Rightarrow> string list \<Rightarrow> string list" where
  "ackedTasks state msg notified =
     (if msgAction msg = ActionCompleted \<and> Get msg ''task'' \<noteq> []
      then snd (notify_loop notified (map tiName (UnblockedTasks state))) else [])"

lemma OnTaskCompleted_acked:
  "snd (OnTaskCompleted state msg notified) =
     map (\<lambda>name. (if msgChannel msg = [] then msgNick msg else msgChannel msg,
                   String_Message (ackMsg name (Get msg ''task'')))) (ackedTasks state msg notified)"
  by (auto simp: OnTaskCompleted_def ackedTasks_def Let_def split: prod.split)

lemma ackedTasks_correct:
  "set (ackedTasks state msg notified) =
     (if msgAction msg = ActionCompleted \<and> Get msg ''task'' \<noteq> []
      then tiName ` set (UnblockedTasks state) - set notified else {})"
  "distinct (ackedTasks state msg notified)"
  "set (fst (OnTaskCompleted state msg notified)) = set notified \<union> set (ackedTasks state msg notified)"
  by (auto simp: ackedTasks_def OnTaskCompleted_def Let_def notify_loop_correct case_prod_beta)

text \<open>A run of the notifier over the completions that the dispatcher reports, each with the store at that time.\<close>

fun ack_run :: "string list \<Rightarrow> (StateStore \<times> Message) list \<Rightarrow> string list" where
  "ack_run notified [] = []"
| "ack_run notified ((state, msg) # evs) =
     ackedTasks state msg notified @ ack_run (fst (OnTaskCompleted state msg notified)) evs"

lemma ack_run_fresh: "distinct (ack_run notified evs) \<and> set (ack_run notified evs) \<inter> set notified = {}"
  by (induction notified evs rule: ack_run.induct) (auto simp: ackedTasks_correct)

text \<open>
  Between two calls of \<^verbatim>\<open>Reset\<close> no task is acknowledged twice, whatever completions arrive; a call
  acknowledges exactly the unblocked tasks that were not acknowledged before; and each acknowledgement
  goes to the channel of the completion, or to its sender when there is no channel.
\<close>

theorem unblock_notifications:
  "distinct (ack_run NewUnblockNotifier evs)
   \<and> set (ackedTasks state msg notified) =
       (if msgAction msg = ActionCompleted \<and> Get msg ''task'' \<noteq> []
        then tiName ` set (UnblockedTasks state) - set (NotifiedTasks notified) else {})
   \<and> snd (OnTaskCompleted state msg notified) =
       map (\<lambda>name. (if msgChannel msg = [] then msgNick msg else msgChannel msg,
                     String_Message (ackMsg name (Get msg ''task'')))) (ackedTasks state msg notified)"
  by (simp add: ack_run_fresh ackedTasks_correct(1) OnTaskCompleted_acked NotifiedTasks_def)

lemma FormatUnblockMessage_is_ack:
  assumes "\<not> list_ex blank a" "\<not> list_ex blank b"
  shows "FormatUnblockMessage a b = String_Message (ackMsg a b)"
proof -
  have "sort [''task'', ''unblocked-by''] = [''task'', ''unblocked-by'']" by code_simp
  with assms show ?thesis
    by (simp add: FormatUnblockMessage_def String_Message_def ackMsg_def mkMessage_def Get_def mgetd_def
        fieldToken_def tagToken_def quoteValue_def)
qed

end
