(* ===== verification/TaskBoard.thy ===== *)
theory TaskBoard
  imports Interfaces
begin

text \<open>
  The task board of \<^verbatim>\<open>internal/agent/taskboard.go\<close>: offers, pending claims and their arbitration.  The
  timers map holds the deadline of each armed \<^verbatim>\<open>time.AfterFunc\<close>; the callback takes the board's mutex, so
  a firing is one more step that may come at any time after the deadline, between any two calls.  The
  step relation \<open>board_step\<close> has a rule for each operation and one for a firing.
\<close>

record OfferInfo =
  oiTask :: string
  oiChannel :: string
  oiOfferedBy :: string
  oiPriority :: string
  oiScope :: string
  oiOfferedAt :: gotime
  oiClaimedBy :: string

record ClaimEntry =
  ceNick :: string
  ceLoad :: goint
  ceClaimedAt :: gotime

record TaskBoard =
  tbClaimJitter :: duration
  tbOffers :: "OfferInfo gomap"
  tbPendingClaims :: "ClaimEntry list gomap"
  tbTimers :: "gotime gomap"

definition NewTaskBoard :: "duration \<Rightarrow> TaskBoard" where
  "NewTaskBoard claimJitter =
     \<lparr>tbClaimJitter = claimJitter, tbOffers = [], tbPendingClaims = [], tbTimers = []\<rparr>"

definition RecordOffer ::
  "gotime \<Rightarrow> string \<Rightarrow> string \<Rightarrow> string \<Rightarrow> string \<Rightarrow> string \<Rightarrow> TaskBoard \<Rightarrow> TaskBoard" where
  "RecordOffer now task channel offeredBy priority scope tb =
     tb\<lparr>tbOffers := mput task
          \<lparr>oiTask = task, oiChannel = channel, oiOfferedBy = offeredBy, oiPriority = priority,
           oiScope = scope, oiOfferedAt = now, oiClaimedBy = []\<rparr> (tbOffers tb)\<rparr>"

text \<open>The assignment to \<^verbatim>\<open>offer.ClaimedBy\<close> through the stored pointer, when the task has an offer.\<close>

definition setClaimedBy :: "string \<Rightarrow> string \<Rightarrow> TaskBoard \<Rightarrow> TaskBoard" where
  "setClaimedBy task nick tb =
     tb\<lparr>tbOffers := mmodify task (\<lambda>offer. offer\<lparr>oiClaimedBy := nick\<rparr>) (tbOffers tb)\<rparr>"

definition RecordClaim :: "gotime \<Rightarrow> string \<Rightarrow> string \<Rightarrow> goint \<Rightarrow> TaskBoard \<Rightarrow> string \<times> TaskBoard" where
  "RecordClaim now task nick load tb =
     (let entry = \<lparr>ceNick = nick, ceLoad = load, ceClaimedAt = now\<rparr>;
          claims = mlist (tbPendingClaims tb) task @ [entry];
          tb = tb\<lparr>tbPendingClaims := mput task claims (tbPendingClaims tb)\<rparr>
      in if tbClaimJitter tb = 0 then
           let winner = ceNick (hd claims);
               tb = setClaimedBy task winner tb
           in (winner, tb\<lparr>tbPendingClaims := mdel task (tbPendingClaims tb)\<rparr>)
         else if map_of (tbTimers tb) task = None then
           ([], tb\<lparr>tbTimers := mput task (now + tbClaimJitter tb) (tbTimers tb)\<rparr>)
         else ([], tb))"

text \<open>The loop of \<^verbatim>\<open>resolveArbitration\<close>: a later claim replaces the winner only when its load is smaller.\<close>

definition pickWinner :: "ClaimEntry \<Rightarrow> ClaimEntry list \<Rightarrow> ClaimEntry" where
  "pickWinner w claims = fold (\<lambda>c w. if ceLoad c < ceLoad w then c else w) claims w"

definition resolveArbitration :: "string \<Rightarrow> TaskBoard \<Rightarrow> TaskBoard" where
  "resolveArbitration task tb =
     (case mlist (tbPendingClaims tb) task of
        [] \<Rightarrow> tb
      | c # cs \<Rightarrow>
          let winner = pickWinner c cs;
              tb = setClaimedBy task (ceNick winner) tb
          in tb\<lparr>tbPendingClaims := mdel task (tbPendingClaims tb), tbTimers := mdel task (tbTimers tb)\<rparr>)"

definition RecordAssign :: "gotime \<Rightarrow> string \<Rightarrow> string \<Rightarrow> string \<Rightarrow> string \<Rightarrow> TaskBoard \<Rightarrow> TaskBoard" where
  "RecordAssign now task to assignedBy channel tb =
     (case map_of (tbOffers tb) task of
        Some _ \<Rightarrow> setClaimedBy task to tb
      | None \<Rightarrow> tb\<lparr>tbOffers := mput task
          \<lparr>oiTask = task, oiChannel = channel, oiOfferedBy = assignedBy, oiPriority = [],
           oiScope = [], oiOfferedAt = now, oiClaimedBy = to\<rparr> (tbOffers tb)\<rparr>)"

definition RecordDecline :: "string \<Rightarrow> TaskBoard \<Rightarrow> TaskBoard" where
  "RecordDecline task tb = setClaimedBy task [] tb"

definition RecordYield :: "string \<Rightarrow> TaskBoard \<Rightarrow> TaskBoard" where
  "RecordYield task tb = setClaimedBy task [] tb"

definition GetOffer :: "TaskBoard \<Rightarrow> string \<Rightarrow> OfferInfo option" where
  "GetOffer tb task = map_of (tbOffers tb) task"

definition ListOffers :: "TaskBoard \<Rightarrow> OfferInfo list" where
  "ListOffers tb = mvals (tbOffers tb)"

definition PendingClaims :: "TaskBoard \<Rightarrow> string \<Rightarrow> ClaimEntry list" where
  "PendingClaims tb task = mlist (tbPendingClaims tb) task"

definition Winner :: "TaskBoard \<Rightarrow> string \<Rightarrow> string" where
  "Winner tb task = (case map_of (tbOffers tb) task of Some offer \<Rightarrow> oiClaimedBy offer | None \<Rightarrow> [])"

section \<open>The board as a transition system\<close>

inductive board_step :: "TaskBoard \<Rightarrow> TaskBoard \<Rightarrow> bool" where
  offer: "board_step tb (RecordOffer now task channel by priority scope tb)"
| claim: "board_step tb (snd (RecordClaim now task nick load tb))"
| assign: "board_step tb (RecordAssign now task to by channel tb)"
| decline: "board_step tb (RecordDecline task tb)"
| yield: "board_step tb (RecordYield task tb)"
| fire: "map_of (tbTimers tb) task = Some deadline \<Longrightarrow> deadline \<le> now \<Longrightarrow>
    board_step tb (resolveArbitration task tb)"

inductive board_reachable :: "duration \<Rightarrow> TaskBoard \<Rightarrow> bool" for jitter where
  start: "board_reachable jitter (NewTaskBoard jitter)"
| step: "board_reachable jitter tb \<Longrightarrow> board_step tb tb' \<Longrightarrow> board_reachable jitter tb'"

inductive_cases board_stepE: "board_step tb tb'"

definition board_inv :: "duration \<Rightarrow> TaskBoard \<Rightarrow> bool" where
  "board_inv jitter tb \<longleftrightarrow>
     tbClaimJitter tb = jitter \<and> keyed (\<lambda>k offer. oiTask offer = k) (tbOffers tb)
     \<and> keyed (\<lambda>k claims. claims \<noteq> []) (tbPendingClaims tb)
     \<and> distinct (mkeys (tbTimers tb))
     \<and> dom (map_of (tbTimers tb)) = dom (map_of (tbPendingClaims tb))
     \<and> (jitter = 0 \<longrightarrow> tbPendingClaims tb = [])"

lemma setClaimedBy_inv: "board_inv j tb \<Longrightarrow> board_inv j (setClaimedBy task nick tb)"
  by (auto simp: board_inv_def setClaimedBy_def intro!: keyed_mmodify)

lemma setClaimedBy_frame [simp]:
  "tbClaimJitter (setClaimedBy task nick tb) = tbClaimJitter tb"
  "tbPendingClaims (setClaimedBy task nick tb) = tbPendingClaims tb"
  "tbTimers (setClaimedBy task nick tb) = tbTimers tb"
  by (simp_all add: setClaimedBy_def)

lemma RecordOffer_inv: "board_inv j tb \<Longrightarrow> board_inv j (RecordOffer now task channel by priority scope tb)"
  by (auto simp: board_inv_def RecordOffer_def)

lemma RecordAssign_inv: "board_inv j tb \<Longrightarrow> board_inv j (RecordAssign now task to by channel tb)"
  by (auto simp: RecordAssign_def setClaimedBy_inv split: option.split) (auto simp: board_inv_def)

lemma resolveArbitration_inv: "board_inv j tb \<Longrightarrow> board_inv j (resolveArbitration task tb)"
  using setClaimedBy_inv [of j tb task]
  by (auto simp: resolveArbitration_def Let_def split: list.split)
     (auto simp: board_inv_def setClaimedBy_def)

lemma RecordClaim_inv:
  assumes "board_inv j tb"
  shows "board_inv j (snd (RecordClaim now task nick load tb))"
proof (cases "j = 0")
  case True
  with assms have "tbPendingClaims tb = []" "tbClaimJitter tb = 0" by (auto simp: board_inv_def)
  with setClaimedBy_inv [OF assms] show ?thesis
    by (simp add: RecordClaim_def Let_def) (auto simp: setClaimedBy_def board_inv_def)
next
  case False
  with assms show ?thesis by (auto simp: RecordClaim_def Let_def board_inv_def)
qed

lemmas board_ops_inv = RecordOffer_inv RecordAssign_inv resolveArbitration_inv RecordClaim_inv setClaimedBy_inv

lemma board_step_inv: "board_step tb tb' \<Longrightarrow> board_inv j tb \<Longrightarrow> board_inv j tb'"
  by (erule board_stepE) (simp_all add: board_ops_inv RecordDecline_def RecordYield_def)

lemma board_inv_New: "board_inv j (NewTaskBoard j)"
  by (simp add: board_inv_def NewTaskBoard_def)

lemma board_reachable_inv: "board_reachable j tb \<Longrightarrow> board_inv j tb"
  by (induction rule: board_reachable.induct) (auto intro: board_step_inv board_inv_New)

lemmas board_reachable_ops = board_reachable.start
  board_reachable.step [OF _ board_step.offer] board_reachable.step [OF _ board_step.claim]

lemma board_inv_timers:
  "board_inv j tb \<Longrightarrow> map_of (tbTimers tb) task \<noteq> None \<longleftrightarrow> mlist (tbPendingClaims tb) task \<noteq> []"
proof -
  assume inv: "board_inv j tb"
  then have "map_of (tbTimers tb) task \<noteq> None \<longleftrightarrow> map_of (tbPendingClaims tb) task \<noteq> None"
    unfolding board_inv_def by (metis domIff)
  moreover have "map_of (tbPendingClaims tb) task \<noteq> None \<longleftrightarrow> mlist (tbPendingClaims tb) task \<noteq> []"
    using inv by (auto simp: mlist_def board_inv_def split: option.splits dest: keyedD)
  ultimately show ?thesis by blast
qed

text \<open>
  C12.  No claim is stranded: in every reachable state of a board that defers arbitration a task has
  pending claims exactly when a timer is armed for it, and a board that arbitrates at once never has
  pending claims.
\<close>

theorem claims_never_stranded:
  assumes "board_reachable jitter tb"
  shows "(PendingClaims tb task \<noteq> [] \<longleftrightarrow> map_of (tbTimers tb) task \<noteq> None)
    \<and> (jitter = 0 \<longrightarrow> PendingClaims tb task = [])"
  using board_reachable_inv [OF assms] board_inv_timers [OF board_reachable_inv [OF assms], of task]
  by (auto simp: PendingClaims_def board_inv_def)

definition demo_board :: TaskBoard where
  "demo_board =
     snd (RecordClaim 12 ''t'' ''bob'' 1 (snd (RecordClaim 11 ''t'' ''alice'' 4
       (RecordOffer 10 ''t'' ''#dev'' ''lead'' ''high'' '''' (NewTaskBoard 50)))))"

lemma demo_board_reachable: "board_reachable 50 demo_board"
  unfolding demo_board_def by (intro board_reachable_ops)

theorem claims_never_stranded_witness:
  "PendingClaims demo_board ''t'' \<noteq> [] \<and> map_of (tbTimers demo_board) ''t'' \<noteq> None"
proof -
  have "map_of (tbTimers demo_board) ''t'' \<noteq> None" by code_simp
  with claims_never_stranded [OF demo_board_reachable, of "''t''"] show ?thesis by blast
qed

section \<open>Arbitration\<close>

lemma pickWinner_correct:
  "\<exists>xs ys. c # cs = xs @ pickWinner c cs # ys \<and> (\<forall>x \<in> set xs. ceLoad (pickWinner c cs) < ceLoad x)
     \<and> (\<forall>y \<in> set ys. ceLoad (pickWinner c cs) \<le> ceLoad y)"
proof (induction cs rule: rev_induct)
  case Nil
  show ?case by (rule exI [of _ "[]"]) (simp add: pickWinner_def)
next
  case (snoc d cs)
  let ?w = "pickWinner c cs"
  from snoc obtain xs ys where split: "c # cs = xs @ ?w # ys" "\<forall>x \<in> set xs. ceLoad ?w < ceLoad x"
    "\<forall>y \<in> set ys. ceLoad ?w \<le> ceLoad y" by blast
  have next_w: "pickWinner c (cs @ [d]) = (if ceLoad d < ceLoad ?w then d else ?w)"
    by (simp add: pickWinner_def)
  show ?case
  proof (cases "ceLoad d < ceLoad ?w")
    case True
    then have "c # cs @ [d] = (c # cs) @ pickWinner c (cs @ [d]) # []" "\<forall>x \<in> set (c # cs). ceLoad d < ceLoad x"
      using split next_w by (simp_all, auto)
    with True next_w show ?thesis by (metis empty_iff empty_set)
  next
    case False
    have "c # cs @ [d] = xs @ ?w # (ys @ [d])" using split(1) by simp
    with False split(2,3) next_w show ?thesis
      by (intro exI [of _ xs] exI [of _ "ys @ [d]"]) auto
  qed
qed

text \<open>
  C11.  When the timer of a reachable board fires, the offer goes to the earliest of the pending claims
  with the lowest load, the claims and the timer of the task are gone, and no other task is touched.
\<close>

theorem arbitration_picks_least_load:
  assumes "board_reachable jitter tb" "map_of (tbTimers tb) task \<noteq> None" "GetOffer tb task \<noteq> None"
  shows "\<exists>xs w ys. PendingClaims tb task = xs @ w # ys
    \<and> (\<forall>x \<in> set xs. ceLoad w < ceLoad x) \<and> (\<forall>y \<in> set ys. ceLoad w \<le> ceLoad y)
    \<and> Winner (resolveArbitration task tb) task = ceNick w
    \<and> PendingClaims (resolveArbitration task tb) task = []
    \<and> map_of (tbTimers (resolveArbitration task tb)) task = None
    \<and> (\<forall>other. other \<noteq> task \<longrightarrow> GetOffer (resolveArbitration task tb) other = GetOffer tb other
         \<and> PendingClaims (resolveArbitration task tb) other = PendingClaims tb other)"
proof -
  have "mlist (tbPendingClaims tb) task \<noteq> []"
    using board_inv_timers [OF board_reachable_inv [OF assms(1)]] assms(2) by blast
  then obtain c cs where claims: "mlist (tbPendingClaims tb) task = c # cs"
    by (auto simp: neq_Nil_conv)
  define w where "w = pickWinner c cs"
  obtain xs ys where "c # cs = xs @ w # ys" "\<forall>x \<in> set xs. ceLoad w < ceLoad x" "\<forall>y \<in> set ys. ceLoad w \<le> ceLoad y"
    using pickWinner_correct unfolding w_def by blast
  moreover have "resolveArbitration task tb = (setClaimedBy task (ceNick w) tb)
      \<lparr>tbPendingClaims := mdel task (tbPendingClaims tb), tbTimers := mdel task (tbTimers tb)\<rparr>"
    by (simp add: resolveArbitration_def claims w_def)
  ultimately show ?thesis
    using assms(3) claims
    by (intro exI [of _ xs] exI [of _ w] exI [of _ ys])
       (simp add: Winner_def GetOffer_def PendingClaims_def setClaimedBy_def map_of_mmodify, force)
qed

theorem arbitration_picks_least_load_witness:
  "map ceNick (PendingClaims demo_board ''t'') = [''alice'', ''bob'']
   \<and> Winner (resolveArbitration ''t'' demo_board) ''t'' = ''bob''"
proof -
  have pend: "map (\<lambda>c. (ceNick c, ceLoad c)) (PendingClaims demo_board ''t'') = [(''alice'', 4), (''bob'', 1)]"
    "map_of (tbTimers demo_board) ''t'' \<noteq> None" "GetOffer demo_board ''t'' \<noteq> None" by code_simp+
  from arbitration_picks_least_load [OF demo_board_reachable pend(2,3)]
  obtain xs w ys where w: "PendingClaims demo_board ''t'' = xs @ w # ys" "\<forall>y \<in> set ys. ceLoad w \<le> ceLoad y"
    "Winner (resolveArbitration ''t'' demo_board) ''t'' = ceNick w" by (elim exE conjE)
  from pend(1) obtain a b where ab: "PendingClaims demo_board ''t'' = [a, b]"
    "ceNick a = ''alice''" "ceNick b = ''bob''" "ceLoad a = 4" "ceLoad b = 1" by (auto simp: map_eq_Cons_conv)
  with w(1,2) have "w = b" by (cases xs) (auto simp: append_eq_Cons_conv Cons_eq_append_conv)
  with w(3) ab show ?thesis by simp
qed

text \<open>
  With a zero jitter every claim of an offered task wins at once, also when the task was claimed
  before: the last claim takes the task, although the constructor promises that the first one does.
\<close>

theorem zero_jitter_last_claim_wins:
  assumes "board_reachable 0 tb" "GetOffer tb task \<noteq> None"
  shows "fst (RecordClaim now task nick load tb) = nick
    \<and> Winner (snd (RecordClaim now task nick load tb)) task = nick"
proof -
  have "board_inv 0 tb" using assms(1) by (rule board_reachable_inv)
  then have "tbPendingClaims tb = []" "tbClaimJitter tb = 0" by (auto simp: board_inv_def)
  with assms(2) show ?thesis
    by (auto simp: RecordClaim_def Let_def Winner_def GetOffer_def setClaimedBy_def map_of_mmodify)
qed

theorem zero_jitter_last_claim_wins_witness:
  "let tb = snd (RecordClaim 2 ''t'' ''alice'' 0 (RecordOffer 1 ''t'' ''#dev'' ''lead'' '''' '''' (NewTaskBoard 0)))
   in Winner tb ''t'' = ''alice'' \<and> Winner (snd (RecordClaim 3 ''t'' ''bob'' 9 tb)) ''t'' = ''bob''"
proof -
  let ?tb = "snd (RecordClaim 2 ''t'' ''alice'' 0 (RecordOffer 1 ''t'' ''#dev'' ''lead'' '''' '''' (NewTaskBoard 0)))"
  have "board_reachable 0 ?tb" by (intro board_reachable_ops)
  moreover have "GetOffer ?tb ''t'' \<noteq> None" "Winner ?tb ''t'' = ''alice''" by code_simp+
  ultimately show ?thesis using zero_jitter_last_claim_wins [of ?tb "''t''" 3 "''bob''" 9] by (simp add: Let_def)
qed

end
