(* ===== verification/Handoff.thy ===== *)
theory Handoff
  imports Interfaces
begin

text \<open>
  Checkpoints and handoffs of \<^verbatim>\<open>internal/agent/handoff.go\<close>: a history of progress reports per task and
  the latest handoff of each task.
\<close>

record CheckpointRecord =
  cpTask :: string
  cpNick :: string
  cpProgress :: goint
  cpSummary :: string
  cpChannel :: string
  cpTimestamp :: gotime

record HandoffRecord =
  hoTask :: string
  hoFrom :: string
  hoTo :: string
  hoContextID :: string
  hoChannel :: string
  hoProgress :: goint
  hoAccepted :: bool
  hoCreatedAt :: gotime

record HandoffStore =
  hsCheckpoints :: "CheckpointRecord list gomap"
  hsHandoffs :: "HandoffRecord gomap"

definition NewHandoffStore :: HandoffStore where
  "NewHandoffStore = \<lparr>hsCheckpoints = [], hsHandoffs = []\<rparr>"

definition RecordCheckpoint ::
  "gotime \<Rightarrow> string \<Rightarrow> string \<Rightarrow> goint \<Rightarrow> string \<Rightarrow> string \<Rightarrow> HandoffStore \<Rightarrow> HandoffStore" where
  "RecordCheckpoint now task nick progress summary channel hs =
     hs\<lparr>hsCheckpoints := mput task (mlist (hsCheckpoints hs) task @
          [\<lparr>cpTask = task, cpNick = nick, cpProgress = progress, cpSummary = summary, cpChannel = channel,
            cpTimestamp = now\<rparr>]) (hsCheckpoints hs)\<rparr>"

definition RecordHandoff ::
  "gotime \<Rightarrow> string \<Rightarrow> string \<Rightarrow> string \<Rightarrow> string \<Rightarrow> string \<Rightarrow> HandoffStore \<Rightarrow> HandoffStore" where
  "RecordHandoff now task from_nick to contextID channel hs =
     (let cps = mlist (hsCheckpoints hs) task;
          progress = (if length cps > 0 then cpProgress (last cps) else 0)
      in hs\<lparr>hsHandoffs := mput task
           \<lparr>hoTask = task, hoFrom = from_nick, hoTo = to, hoContextID = contextID, hoChannel = channel,
            hoProgress = progress, hoAccepted = False, hoCreatedAt = now\<rparr> (hsHandoffs hs)\<rparr>)"

definition AcceptHandoff :: "string \<Rightarrow> string \<Rightarrow> HandoffStore \<Rightarrow> HandoffStore" where
  "AcceptHandoff task nick hs =
     (case map_of (hsHandoffs hs) task of
        Some h \<Rightarrow> if hoTo h = nick
                  then hs\<lparr>hsHandoffs := mput task (h\<lparr>hoAccepted := True\<rparr>) (hsHandoffs hs)\<rparr> else hs
      | None \<Rightarrow> hs)"

definition GetHandoff :: "HandoffStore \<Rightarrow> string \<Rightarrow> HandoffRecord option" where
  "GetHandoff hs task = map_of (hsHandoffs hs) task"

definition Checkpoints :: "HandoffStore \<Rightarrow> string \<Rightarrow> CheckpointRecord list" where
  "Checkpoints hs task = mlist (hsCheckpoints hs) task"

definition ListHandoffs :: "HandoffStore \<Rightarrow> HandoffRecord list" where
  "ListHandoffs hs = mvals (hsHandoffs hs)"

section \<open>Progress history\<close>

interpretation checkpoints: keyed_history Checkpoints
  "\<lambda>task (now, nick, progress, summary, channel). RecordCheckpoint now task nick progress summary channel"
  "\<lambda>task (now, nick, progress, summary, channel).
     \<lparr>cpTask = task, cpNick = nick, cpProgress = progress, cpSummary = summary, cpChannel = channel,
      cpTimestamp = now\<rparr>"
  by unfold_locales (auto simp: Checkpoints_def RecordCheckpoint_def)

section \<open>The life of a handoff\<close>

datatype handoff_op =
    OpCheckpoint gotime string string goint string string
  | OpHandoff gotime string string string string string
  | OpAccept string string

fun handoff_step :: "handoff_op \<Rightarrow> HandoffStore \<Rightarrow> HandoffStore" where
  "handoff_step (OpCheckpoint now task nick progress summary channel) hs =
     RecordCheckpoint now task nick progress summary channel hs"
| "handoff_step (OpHandoff now task from_nick to cid channel) hs =
     RecordHandoff now task from_nick to cid channel hs"
| "handoff_step (OpAccept task nick) hs = AcceptHandoff task nick hs"

fun is_handoff_of :: "string \<Rightarrow> handoff_op \<Rightarrow> bool" where
  "is_handoff_of task (OpHandoff now task' from_nick to cid channel) \<longleftrightarrow> task' = task"
| "is_handoff_of task _ \<longleftrightarrow> False"

lemma handoff_step_frame:
  "\<not> is_handoff_of task x \<Longrightarrow> (\<And>nick. x \<noteq> OpAccept task nick) \<Longrightarrow>
   GetHandoff (handoff_step x hs) task = GetHandoff hs task"
  by (cases x) (auto simp: GetHandoff_def RecordCheckpoint_def RecordHandoff_def AcceptHandoff_def Let_def
      split: option.split)

lemma GetHandoff_accept:
  "GetHandoff (handoff_step (OpAccept task nick) hs) task =
     map_option (\<lambda>h. if hoTo h = nick then h\<lparr>hoAccepted := True\<rparr> else h) (GetHandoff hs task)"
  by (auto simp: GetHandoff_def AcceptHandoff_def split: option.split)

lemma GetHandoff_handoff:
  "GetHandoff (handoff_step (OpHandoff now task from_nick to cid channel) hs) task =
     Some \<lparr>hoTask = task, hoFrom = from_nick, hoTo = to, hoContextID = cid, hoChannel = channel,
       hoProgress = (case Checkpoints hs task of [] \<Rightarrow> 0 | cps \<Rightarrow> cpProgress (last cps)),
       hoAccepted = False, hoCreatedAt = now\<rparr>"
  by (simp add: GetHandoff_def RecordHandoff_def Let_def Checkpoints_def split: list.split)

text \<open>What the trace of operations says about the latest handoff of a task.\<close>

definition handoff_trace :: "handoff_op list \<Rightarrow> string \<Rightarrow> HandoffRecord \<Rightarrow> bool" where
  "handoff_trace ops task h \<longleftrightarrow>
     (\<exists>xs ys. ops = xs @ OpHandoff (hoCreatedAt h) task (hoFrom h) (hoTo h) (hoContextID h) (hoChannel h) # ys
        \<and> (\<forall>x \<in> set ys. \<not> is_handoff_of task x)
        \<and> (hoAccepted h \<longleftrightarrow> OpAccept task (hoTo h) \<in> set ys)
        \<and> hoProgress h = (case Checkpoints (fold handoff_step xs NewHandoffStore) task of
             [] \<Rightarrow> 0 | cps \<Rightarrow> cpProgress (last cps)))"

lemma handoff_trace_snoc:
  assumes "handoff_trace ops task h" "\<not> is_handoff_of task x"
  shows "handoff_trace (ops @ [x]) task (if x = OpAccept task (hoTo h) then h\<lparr>hoAccepted := True\<rparr> else h)"
proof -
  from assms(1) obtain xs ys where
    "ops = xs @ OpHandoff (hoCreatedAt h) task (hoFrom h) (hoTo h) (hoContextID h) (hoChannel h) # ys"
    "\<forall>x \<in> set ys. \<not> is_handoff_of task x" "hoAccepted h \<longleftrightarrow> OpAccept task (hoTo h) \<in> set ys"
    "hoProgress h = (case Checkpoints (fold handoff_step xs NewHandoffStore) task of
       [] \<Rightarrow> 0 | cps \<Rightarrow> cpProgress (last cps))" by (auto simp: handoff_trace_def)
  then show ?thesis
    unfolding handoff_trace_def using assms(2) by (intro exI [of _ xs] exI [of _ "ys @ [x]"]) auto
qed

text \<open>
  The handoff that a store reports for a task, after any sequence of operations, is the last one
  recorded for it; its progress is that of the last checkpoint before it, and it counts as accepted
  exactly when the agent it was addressed to has accepted since: nobody else's acceptance counts.
\<close>

theorem handoff_reports_last:
  assumes "GetHandoff (fold handoff_step ops NewHandoffStore) task = Some h"
  shows "\<exists>xs ys. ops = xs @ OpHandoff (hoCreatedAt h) task (hoFrom h) (hoTo h) (hoContextID h) (hoChannel h) # ys
        \<and> (\<forall>x \<in> set ys. \<not> is_handoff_of task x)
        \<and> (hoAccepted h \<longleftrightarrow> OpAccept task (hoTo h) \<in> set ys)
        \<and> hoProgress h = (case Checkpoints (fold handoff_step xs NewHandoffStore) task of
             [] \<Rightarrow> 0 | cps \<Rightarrow> cpProgress (last cps))"
  using assms unfolding handoff_trace_def [symmetric]
proof (induction ops arbitrary: h rule: rev_induct)
  case Nil
  then show ?case by (simp add: NewHandoffStore_def GetHandoff_def)
next
  case (snoc x ops)
  let ?s = "fold handoff_step ops NewHandoffStore"
  have s: "GetHandoff (handoff_step x ?s) task = Some h" using snoc.prems by simp
  show ?case
  proof (cases "is_handoff_of task x")
    case True
    then obtain now from_nick to cid channel where x: "x = OpHandoff now task from_nick to cid channel"
      by (cases x) auto
    with s show ?thesis
      unfolding handoff_trace_def
      by (intro exI [of _ ops] exI [of _ "[]"]) (auto simp: GetHandoff_handoff simp del: handoff_step.simps)
  next
    case False
    then consider nick where "x = OpAccept task nick" | "GetHandoff ?s task = Some h" "\<And>nick. x \<noteq> OpAccept task nick"
      using s handoff_step_frame by metis
    then show ?thesis
    proof cases
      case 1
      with s obtain h' where h': "GetHandoff ?s task = Some h'" "h = (if hoTo h' = nick then h'\<lparr>hoAccepted := True\<rparr> else h')"
        by (auto simp: GetHandoff_accept simp del: handoff_step.simps)
      from handoff_trace_snoc [OF snoc.IH [OF h'(1)] False] 1 h'(2) show ?thesis by auto
    next
      case 2
      from handoff_trace_snoc [OF snoc.IH [OF 2(1)] False] 2(2) show ?thesis by simp
    qed
  qed
qed

theorem handoff_reports_last_witness:
  "let ops = [OpCheckpoint 1 ''t'' ''ann'' 40 ''s'' ''#c'', OpHandoff 2 ''t'' ''ann'' ''bob'' '''' ''#c'',
              OpAccept ''t'' ''eve'']
   in \<exists>h. GetHandoff (fold handoff_step ops NewHandoffStore) ''t'' = Some h \<and> \<not> hoAccepted h \<and> hoTo h = ''bob''
        \<and> (\<exists>xs ys. ops = xs @ OpHandoff (hoCreatedAt h) ''t'' (hoFrom h) (hoTo h) (hoContextID h) (hoChannel h) # ys)"
proof -
  let ?ops = "[OpCheckpoint 1 ''t'' ''ann'' 40 ''s'' ''#c'', OpHandoff 2 ''t'' ''ann'' ''bob'' '''' ''#c'',
              OpAccept ''t'' ''eve'']"
  let ?h = "the (GetHandoff (fold handoff_step ?ops NewHandoffStore) ''t'')"
  have h: "GetHandoff (fold handoff_step ?ops NewHandoffStore) ''t'' = Some ?h" "\<not> hoAccepted ?h" "hoTo ?h = ''bob''"
    by code_simp+
  from handoff_reports_last [OF h(1)] have
    "\<exists>xs ys. ?ops = xs @ OpHandoff (hoCreatedAt ?h) ''t'' (hoFrom ?h) (hoTo ?h) (hoContextID ?h) (hoChannel ?h) # ys"
    by (elim exE conjE) (rule exI, rule exI)
  with h show ?thesis unfolding Let_def by (intro exI [of _ ?h] conjI)
qed

end
