(* ===== verification/Review.thy ===== *)
theory Review
  imports Interfaces
begin

text \<open>
  Reviews and quality gates of \<^verbatim>\<open>internal/agent/review.go\<close>.  Verdicts and gate states are the strings
  that messages carry; the source compares them with its constants and with the empty string, which
  marks a pending review.
\<close>

definition ReviewApproved :: string where "ReviewApproved = ''approved''"
definition ReviewChangesRequested :: string where "ReviewChangesRequested = ''changes-requested''"
definition ReviewRejected :: string where "ReviewRejected = ''rejected''"
definition GatePassed :: string where "GatePassed = ''passed''"
definition GateFailed :: string where "GateFailed = ''failed''"
definition GatePending :: string where "GatePending = ''pending''"

record ReviewRecord =
  rrTask :: string
  rrPR :: string
  rrReviewType :: string
  rrRequestedBy :: string
  rrReviewer :: string
  rrVerdict :: string
  rrDetails :: string
  rrChannel :: string
  rrRequestedAt :: gotime
  rrCompletedAt :: gotime
  rrIteration :: nat

record GateRecord =
  grTask :: string
  grGate :: string
  grStatus :: string
  grDetails :: string
  grCheckedBy :: string
  grChannel :: string
  grCheckedAt :: gotime

record ReviewSummary =
  rsmTask :: string
  rsmTotalReviews :: nat
  rsmPendingReviews :: nat
  rsmApprovedReviews :: nat
  rsmAllGatesPassed :: bool
  rsmIterationCount :: nat
  rsmNeedsEscalation :: bool

record ReviewStore =
  rsReviews :: "ReviewRecord list gomap"
  rsGates :: "GateRecord list gomap"
  rsIterations :: "nat gomap"
  rsMaxIterations :: goint

definition NewReviewStore :: "goint \<Rightarrow> ReviewStore" where
  "NewReviewStore maxIterations =
     \<lparr>rsReviews = [], rsGates = [], rsIterations = [], rsMaxIterations = maxIterations\<rparr>"

definition RecordRequest ::
  "gotime \<Rightarrow> string \<Rightarrow> string \<Rightarrow> string \<Rightarrow> string \<Rightarrow> string \<Rightarrow> ReviewStore \<Rightarrow> ReviewStore" where
  "RecordRequest now task pr reviewType requestedBy channel rs =
     (let rs = rs\<lparr>rsIterations := mincr task (rsIterations rs)\<rparr>
      in rs\<lparr>rsReviews := mput task (mlist (rsReviews rs) task @
           [\<lparr>rrTask = task, rrPR = pr, rrReviewType = reviewType, rrRequestedBy = requestedBy,
             rrReviewer = [], rrVerdict = [], rrDetails = [], rrChannel = channel, rrRequestedAt = now,
             rrCompletedAt = 0, rrIteration = mgetd 0 (rsIterations rs) task\<rparr>]) (rsReviews rs)\<rparr>)"

definition pendingMatch :: "string \<Rightarrow> string \<Rightarrow> ReviewRecord \<Rightarrow> bool" where
  "pendingMatch task pr r \<longleftrightarrow> rrTask r = task \<and> (pr = [] \<or> rrPR r = pr) \<and> rrVerdict r = []"

definition RecordComplete ::
  "gotime \<Rightarrow> string \<Rightarrow> string \<Rightarrow> string \<Rightarrow> string \<Rightarrow> string \<Rightarrow> string \<Rightarrow> ReviewStore \<Rightarrow> ReviewStore" where
  "RecordComplete now task pr reviewer verdict details channel rs =
     rs\<lparr>rsReviews := mmodify task
          (updateLast (pendingMatch task pr)
             (\<lambda>r. r\<lparr>rrReviewer := reviewer, rrVerdict := verdict, rrDetails := details, rrCompletedAt := now\<rparr>))
          (rsReviews rs)\<rparr>"

definition RecordGate ::
  "gotime \<Rightarrow> string \<Rightarrow> string \<Rightarrow> string \<Rightarrow> string \<Rightarrow> string \<Rightarrow> string \<Rightarrow> ReviewStore \<Rightarrow> ReviewStore" where
  "RecordGate now task gate status details checkedBy channel rs =
     rs\<lparr>rsGates := mput task (mlist (rsGates rs) task @
          [\<lparr>grTask = task, grGate = gate, grStatus = status, grDetails = details, grCheckedBy = checkedBy,
            grChannel = channel, grCheckedAt = now\<rparr>]) (rsGates rs)\<rparr>"

text \<open>The map of the latest status per gate.\<close>

definition latestStatus :: "GateRecord list \<Rightarrow> string gomap" where
  "latestStatus gates = fold (\<lambda>g. mput (grGate g) (grStatus g)) gates []"

definition allGatesPassedLocked :: "ReviewStore \<Rightarrow> string \<Rightarrow> bool" where
  "allGatesPassedLocked rs task =
     (let gates = mlist (rsGates rs) task
      in if length gates = 0 then False
         else list_all (\<lambda>(g, s). s = GatePassed) (latestStatus gates))"

definition countReview :: "ReviewRecord \<Rightarrow> ReviewSummary \<Rightarrow> ReviewSummary" where
  "countReview r s =
     (let s = s\<lparr>rsmTotalReviews := rsmTotalReviews s + 1\<rparr>
      in if rrVerdict r = [] then s\<lparr>rsmPendingReviews := rsmPendingReviews s + 1\<rparr>
         else if rrVerdict r = ReviewApproved then s\<lparr>rsmApprovedReviews := rsmApprovedReviews s + 1\<rparr>
         else s)"

definition Summary :: "ReviewStore \<Rightarrow> string \<Rightarrow> ReviewSummary" where
  "Summary rs task =
     (let s = \<lparr>rsmTask = task, rsmTotalReviews = 0, rsmPendingReviews = 0, rsmApprovedReviews = 0,
               rsmAllGatesPassed = False, rsmIterationCount = 0, rsmNeedsEscalation = False\<rparr>;
          s = fold countReview (mlist (rsReviews rs) task) s;
          s = s\<lparr>rsmIterationCount := mgetd 0 (rsIterations rs) task\<rparr>;
          s = s\<lparr>rsmAllGatesPassed := allGatesPassedLocked rs task\<rparr>
      in if rsMaxIterations rs > 0 \<and> int (rsmIterationCount s) > rsMaxIterations rs
         then s\<lparr>rsmNeedsEscalation := True\<rparr> else s)"

definition AllGatesPassed :: "ReviewStore \<Rightarrow> string \<Rightarrow> bool" where
  "AllGatesPassed rs task = allGatesPassedLocked rs task"

definition Reviews :: "ReviewStore \<Rightarrow> string \<Rightarrow> ReviewRecord list" where
  "Reviews rs task = mlist (rsReviews rs) task"

definition Gates :: "ReviewStore \<Rightarrow> string \<Rightarrow> GateRecord list" where
  "Gates rs task = mlist (rsGates rs) task"

definition ListReviews :: "ReviewStore \<Rightarrow> ReviewRecord list" where
  "ListReviews rs = concat (mvals (rsReviews rs))"

section \<open>Gates\<close>

interpretation gates: keyed_history Gates
  "\<lambda>task (now, gate, status, details, by, channel). RecordGate now task gate status details by channel"
  "\<lambda>task (now, gate, status, details, by, channel).
     \<lparr>grTask = task, grGate = gate, grStatus = status, grDetails = details, grCheckedBy = by,
      grChannel = channel, grCheckedAt = now\<rparr>"
  by unfold_locales (auto simp: Gates_def RecordGate_def)

lemma latestStatus_lookup:
  "map_of (latestStatus gs) g =
     (if g \<in> grGate ` set gs then Some (grStatus (last (filter (\<lambda>r. grGate r = g) gs))) else None)"
  by (induction gs rule: rev_induct) (auto simp: latestStatus_def)

lemma distinct_latestStatus: "distinct (mkeys (latestStatus gs))"
  by (induction gs rule: rev_induct) (simp_all add: latestStatus_def)

lemma latestStatus_all:
  "list_all (\<lambda>(g, s). P s) (latestStatus gs) \<longleftrightarrow>
     list_all (\<lambda>r. P (grStatus (last (filter (\<lambda>r'. grGate r' = grGate r) gs)))) gs"
proof -
  have "list_all (\<lambda>(g, s). P s) (latestStatus gs) \<longleftrightarrow> (\<forall>g s. map_of (latestStatus gs) g = Some s \<longrightarrow> P s)"
    using distinct_latestStatus [of gs] by (auto simp: list_all_iff)
  then show ?thesis by (auto simp: latestStatus_lookup list_all_iff)
qed

text \<open>
  The gates of a task count as passed exactly when at least one check was recorded and, for
  every gate that was ever checked, the last recorded status is \<open>passed\<close>; a check with another status
  takes the verdict back at once, and the checks of other tasks do not matter.
\<close>

theorem gates_passed_iff:
  "(AllGatesPassed rs task \<longleftrightarrow>
      Gates rs task \<noteq> [] \<and>
      list_all (\<lambda>r. grStatus (last (filter (\<lambda>r'. grGate r' = grGate r) (Gates rs task))) = ''passed'') (Gates rs task))
   \<and> (AllGatesPassed (RecordGate now task gate status details by channel rs) task \<longleftrightarrow>
        status = ''passed'' \<and>
        list_all (\<lambda>r. grStatus (last (filter (\<lambda>r'. grGate r' = grGate r) (Gates rs task))) = ''passed'')
          (filter (\<lambda>r. grGate r \<noteq> gate) (Gates rs task)))
   \<and> (AllGatesPassed (RecordGate now task gate status details by channel rs) other \<longleftrightarrow>
        (if other = task then AllGatesPassed (RecordGate now task gate status details by channel rs) task
         else AllGatesPassed rs other))"
proof -
  have iff: "AllGatesPassed rs task \<longleftrightarrow> Gates rs task \<noteq> [] \<and>
      list_all (\<lambda>r. grStatus (last (filter (\<lambda>r'. grGate r' = grGate r) (Gates rs task))) = ''passed'') (Gates rs task)"
    for rs task
    by (simp add: AllGatesPassed_def allGatesPassedLocked_def Gates_def latestStatus_all GatePassed_def Let_def)
  have "Gates (RecordGate now task gate status details by channel rs) task = Gates rs task @
     [\<lparr>grTask = task, grGate = gate, grStatus = status, grDetails = details, grCheckedBy = by,
      grChannel = channel, grCheckedAt = now\<rparr>]"
    using gates.history_record [of task "(now, gate, status, details, by, channel)" rs task] by simp
  moreover have "Gates (RecordGate now task gate status details by channel rs) other = Gates rs other" if "other \<noteq> task"
    using gates.history_record [of task "(now, gate, status, details, by, channel)" rs other] that by simp
  ultimately show ?thesis by (auto simp: iff list_all_iff)
qed

section \<open>Review rounds\<close>

lemma fold_countReview:
  "fold countReview rv s =
     s\<lparr>rsmTotalReviews := rsmTotalReviews s + length rv,
       rsmPendingReviews := rsmPendingReviews s + length (filter (\<lambda>r. rrVerdict r = []) rv),
       rsmApprovedReviews := rsmApprovedReviews s + length (filter (\<lambda>r. rrVerdict r = ReviewApproved) rv)\<rparr>"
  by (induction rv arbitrary: s) (auto simp: countReview_def Let_def ReviewApproved_def)

datatype review_op =
    OpRequest gotime string string string string string
  | OpComplete gotime string string string string string string
  | OpGate gotime string string string string string string

fun review_step :: "review_op \<Rightarrow> ReviewStore \<Rightarrow> ReviewStore" where
  "review_step (OpRequest now task pr rtype by channel) rs = RecordRequest now task pr rtype by channel rs"
| "review_step (OpComplete now task pr reviewer verdict details channel) rs =
     RecordComplete now task pr reviewer verdict details channel rs"
| "review_step (OpGate now task gate status details by channel) rs =
     RecordGate now task gate status details by channel rs"

text \<open>The reviews of a task are its rounds, numbered from one.\<close>

definition rounds :: "string \<Rightarrow> nat \<Rightarrow> ReviewRecord list \<Rightarrow> bool" where
  "rounds task n rv \<longleftrightarrow> map rrIteration rv = map Suc [0..<n] \<and> list_all (\<lambda>r. rrTask r = task) rv"

definition review_inv :: "goint \<Rightarrow> ReviewStore \<Rightarrow> bool" where
  "review_inv n rs \<longleftrightarrow> rsMaxIterations rs = n \<and>
     (\<forall>task. rounds task (mgetd 0 (rsIterations rs) task) (mlist (rsReviews rs) task))"

lemma mlist_mmodify: "f [] = [] \<Longrightarrow> mlist (mmodify k f m) k' = (if k' = k then f (mlist m k) else mlist m k')"
  by (auto simp: mlist_def map_of_mmodify split: option.split)

lemma updateLast_Nil [simp]: "updateLast P f [] = []"
  by (simp add: updateLast_def)

lemma updateFirst_Ball: "\<forall>x \<in> set xs. Q x \<Longrightarrow> (\<And>x. Q x \<Longrightarrow> Q (f x)) \<Longrightarrow> \<forall>x \<in> set (updateFirst P f xs). Q x"
  by (induction xs) auto

lemma updateLast_Ball: "\<forall>x \<in> set xs. Q x \<Longrightarrow> (\<And>x. Q x \<Longrightarrow> Q (f x)) \<Longrightarrow> \<forall>x \<in> set (updateLast P f xs). Q x"
  using updateFirst_Ball [of "rev xs" Q f P] by (simp add: updateLast_def)

lemma rounds_snoc:
  "rounds task n rv \<Longrightarrow> rrTask r = task \<Longrightarrow> rrIteration r = Suc n \<Longrightarrow> rounds task (Suc n) (rv @ [r])"
  by (simp add: rounds_def)

lemma rounds_length: "rounds task n rv \<Longrightarrow> length rv = n"
  unfolding rounds_def by (metis length_map length_upt minus_nat.diff_0)

lemma rounds_updateLast:
  assumes "rounds task n rv" "\<And>r. rrTask (f r) = rrTask r" "\<And>r. rrIteration (f r) = rrIteration r"
  shows "rounds task n (updateLast P f rv)"
proof -
  have t: "map rrTask (updateLast P f rv) = map rrTask rv" by (rule map_updateLast) (rule assms(2))
  have la: "list_all (\<lambda>r. rrTask r = task) rs \<longleftrightarrow> (\<forall>t \<in> set (map rrTask rs). t = task)" for rs
    by (simp add: list_all_iff)
  have "map rrIteration (updateLast P f rv) = map rrIteration rv" by (rule map_updateLast) (rule assms(3))
  moreover have "list_all (\<lambda>r. rrTask r = task) (updateLast P f rv) \<longleftrightarrow> list_all (\<lambda>r. rrTask r = task) rv"
    by (simp only: la t)
  ultimately show ?thesis using assms(1) by (simp add: rounds_def)
qed

lemma review_inv_step:
  assumes "review_inv n rs"
  shows "review_inv n (review_step x rs)"
proof (cases x)
  case (OpRequest now task pr rtype who channel)
  with assms show ?thesis
    by (auto simp: review_inv_def RecordRequest_def Let_def mincr_def intro!: rounds_snoc)
next
  case (OpComplete now task pr reviewer verdict details channel)
  with assms show ?thesis
    by (auto simp: review_inv_def RecordComplete_def mlist_mmodify intro!: rounds_updateLast)
next
  case (OpGate now task gate status details who channel)
  with assms show ?thesis by (auto simp: review_inv_def RecordGate_def)
qed

interpretation reviews: guarded_store "NewReviewStore n" review_step "review_inv n" for n
  by unfold_locales (simp add: review_inv_def NewReviewStore_def rounds_def, rule review_inv_step)

text \<open>
  After any sequence of requests, verdicts and gate checks the summary of a task counts one
  review per round, numbered in order, and asks for escalation exactly when a positive limit was
  configured and more rounds than that were requested.
\<close>

theorem review_summary_counts:
  "let rs = fold review_step ops (NewReviewStore limit); s = Summary rs task
   in map rrIteration (Reviews rs task) = map Suc [0..<rsmTotalReviews s]
      \<and> rsmTotalReviews s = rsmIterationCount s
      \<and> rsmPendingReviews s = length (filter (\<lambda>r. rrVerdict r = []) (Reviews rs task))
      \<and> rsmApprovedReviews s = length (filter (\<lambda>r. rrVerdict r = ''approved'') (Reviews rs task))
      \<and> (rsmNeedsEscalation s \<longleftrightarrow> limit > 0 \<and> int (length (Reviews rs task)) > limit)
      \<and> rsmAllGatesPassed s = AllGatesPassed rs task"
proof -
  let ?rs = "fold review_step ops (NewReviewStore limit)"
  have inv: "review_inv limit ?rs" by (rule reviews.inv_run)
  then have r: "rounds task (mgetd 0 (rsIterations ?rs) task) (mlist (rsReviews ?rs) task)"
    and m: "rsMaxIterations ?rs = limit" by (simp_all add: review_inv_def)
  from rounds_length [OF r] r m show ?thesis
    by (simp add: Let_def Summary_def fold_countReview Reviews_def AllGatesPassed_def rounds_def
        ReviewApproved_def)
qed

text \<open>
  A verdict completes the most recent pending review of the task, of the given pull request when
  one is named, and changes no other record; without such a review it changes nothing.
\<close>

theorem verdict_completes_last_pending:
  "(if list_ex (pendingMatch task pr) (Reviews rs task)
    then \<exists>xs r ys. Reviews rs task = xs @ r # ys \<and> pendingMatch task pr r \<and> list_all (\<lambda>y. \<not> pendingMatch task pr y) ys
      \<and> Reviews (RecordComplete now task pr reviewer verdict details channel rs) task =
          xs @ r\<lparr>rrReviewer := reviewer, rrVerdict := verdict, rrDetails := details, rrCompletedAt := now\<rparr> # ys
    else Reviews (RecordComplete now task pr reviewer verdict details channel rs) task = Reviews rs task)
   \<and> (other = task \<or> Reviews (RecordComplete now task pr reviewer verdict details channel rs) other = Reviews rs other)"
proof -
  let ?f = "\<lambda>r. r\<lparr>rrReviewer := reviewer, rrVerdict := verdict, rrDetails := details, rrCompletedAt := now\<rparr>"
  let ?P = "pendingMatch task pr"
  have eq: "Reviews (RecordComplete now task pr reviewer verdict details channel rs) k =
      (if k = task then updateLast ?P ?f (Reviews rs task) else Reviews rs k)" for k
    by (simp add: Reviews_def RecordComplete_def mlist_mmodify)
  show ?thesis
  proof (cases "list_ex ?P (Reviews rs task)")
    case True
    then have "\<exists>r \<in> set (Reviews rs task). ?P r" by (simp add: list_ex_iff)
    then obtain xs r ys where "Reviews rs task = xs @ r # ys" "?P r" "\<forall>y \<in> set ys. \<not> ?P y"
      by (rule split_list_last_propE)
    then have "Reviews rs task = xs @ r # ys \<and> ?P r \<and> list_all (\<lambda>y. \<not> ?P y) ys
        \<and> updateLast ?P ?f (Reviews rs task) = xs @ ?f r # ys"
      by (simp add: updateLast_split list_all_iff)
    then have "\<exists>xs r ys. Reviews rs task = xs @ r # ys \<and> ?P r \<and> list_all (\<lambda>y. \<not> ?P y) ys
        \<and> Reviews (RecordComplete now task pr reviewer verdict details channel rs) task = xs @ ?f r # ys"
      by (rule_tac x = xs in exI, rule_tac x = r in exI, rule_tac x = ys in exI) (simp add: eq)
    with True eq [of other] show ?thesis by (simp only: if_True) simp
  next
    case False
    then have "updateLast ?P ?f (Reviews rs task) = Reviews rs task"
      by (intro updateLast_none) (simp add: list_ex_iff)
    with False eq show ?thesis by simp
  qed
qed

end
