(* ===== verification/Consensus.thy ===== *)
theory Consensus
  imports Interfaces
begin

text \<open>
  Votes and escalations of \<^verbatim>\<open>internal/agent/consensus.go\<close>: per topic the latest vote of each nick, and
  the list of escalations.
\<close>

record VoteRecord =
  vrTopic :: string
  vrNick :: string
  vrChoice :: string
  vrChannel :: string
  vrVotedAt :: gotime

record TopicSummary =
  tsTopic :: string
  tsVotes :: "nat gomap"
  tsTotalVotes :: nat
  tsResolved :: bool
  tsResolution :: string

record EscalationRecord =
  erTask :: string
  erToNick :: string
  erReason :: string
  erSeverity :: string
  erEscalatedBy :: string
  erChannel :: string
  erEscalatedAt :: gotime
  erResolved :: bool

record ConsensusStore =
  csVotes :: "VoteRecord gomap gomap"
  csEscalations :: "EscalationRecord list"

definition NewConsensusStore :: ConsensusStore where
  "NewConsensusStore = \<lparr>csVotes = [], csEscalations = []\<rparr>"

definition RecordVote :: "gotime \<Rightarrow> string \<Rightarrow> string \<Rightarrow> string \<Rightarrow> string \<Rightarrow> ConsensusStore \<Rightarrow> ConsensusStore" where
  "RecordVote now topic nick choice channel cs =
     (let cs = (if map_of (csVotes cs) topic = None
                then cs\<lparr>csVotes := mput topic [] (csVotes cs)\<rparr> else cs);
          vote = \<lparr>vrTopic = topic, vrNick = nick, vrChoice = choice, vrChannel = channel, vrVotedAt = now\<rparr>
      in cs\<lparr>csVotes := mmodify topic (mput nick vote) (csVotes cs)\<rparr>)"

definition countVote :: "VoteRecord \<Rightarrow> TopicSummary \<Rightarrow> TopicSummary" where
  "countVote v s = s\<lparr>tsVotes := mincr (vrChoice v) (tsVotes s), tsTotalVotes := tsTotalVotes s + 1\<rparr>"

definition summarize :: "string \<Rightarrow> VoteRecord gomap \<Rightarrow> TopicSummary" where
  "summarize topic votes =
     fold countVote (mvals votes)
       \<lparr>tsTopic = topic, tsVotes = [], tsTotalVotes = 0, tsResolved = False, tsResolution = []\<rparr>"

definition TopicSummaryFor :: "ConsensusStore \<Rightarrow> string \<Rightarrow> TopicSummary" where
  "TopicSummaryFor cs topic = summarize topic (mlist (csVotes cs) topic)"

definition RecordEscalation ::
  "gotime \<Rightarrow> string \<Rightarrow> string \<Rightarrow> string \<Rightarrow> string \<Rightarrow> string \<Rightarrow> string \<Rightarrow> ConsensusStore \<Rightarrow> ConsensusStore" where
  "RecordEscalation now task toNick reason severity escalatedBy channel cs =
     cs\<lparr>csEscalations := csEscalations cs @
          [\<lparr>erTask = task, erToNick = toNick, erReason = reason, erSeverity = severity,
            erEscalatedBy = escalatedBy, erChannel = channel, erEscalatedAt = now, erResolved = False\<rparr>]\<rparr>"

definition ResolveEscalation :: "string \<Rightarrow> ConsensusStore \<Rightarrow> ConsensusStore" where
  "ResolveEscalation task cs =
     cs\<lparr>csEscalations := updateLast (\<lambda>e. erTask e = task \<and> \<not> erResolved e) (\<lambda>e. e\<lparr>erResolved := True\<rparr>)
                           (csEscalations cs)\<rparr>"

definition ListEscalations :: "ConsensusStore \<Rightarrow> EscalationRecord list" where
  "ListEscalations cs = csEscalations cs"

definition ListTopics :: "ConsensusStore \<Rightarrow> TopicSummary list" where
  "ListTopics cs = map (\<lambda>(topic, votes). summarize topic votes) (csVotes cs)"

section \<open>Votes\<close>

definition voteOf :: "ConsensusStore \<Rightarrow> string \<times> string \<Rightarrow> VoteRecord option" where
  "voteOf cs k = map_of (mlist (csVotes cs) (fst k)) (snd k)"

lemma mlist_RecordVote:
  "mlist (csVotes (RecordVote now topic nick choice channel cs)) t =
     (if t = topic
      then mput nick \<lparr>vrTopic = topic, vrNick = nick, vrChoice = choice, vrChannel = channel, vrVotedAt = now\<rparr>
             (mlist (csVotes cs) topic)
      else mlist (csVotes cs) t)"
  by (auto simp: RecordVote_def Let_def mlist_def map_of_mmodify split: option.split)

interpretation votes: last_write voteOf
  "\<lambda>(topic, nick) (now, choice, channel). RecordVote now topic nick choice channel"
  "\<lambda>(topic, nick) (now, choice, channel).
     \<lparr>vrTopic = topic, vrNick = nick, vrChoice = choice, vrChannel = channel, vrVotedAt = now\<rparr>"
  by unfold_locales (auto simp: voteOf_def mlist_RecordVote split: if_splits)

lemma fold_countVote:
  "tsTotalVotes (fold countVote vs s) = tsTotalVotes s + length vs"
  "tsVotes (fold countVote vs s) = fold (\<lambda>v. mincr (vrChoice v)) vs (tsVotes s)"
  by (induction vs arbitrary: s) (simp_all add: countVote_def)

lemma summarize_counts:
  "tsTotalVotes (summarize topic votes) = length votes"
  "mgetd 0 (tsVotes (summarize topic votes)) c = length (filter (\<lambda>v. vrChoice v = c) (mvals votes))"
  by (simp_all add: summarize_def fold_countVote mgetd_fold_mincr)

lemma length_filter_card:
  assumes "distinct (mkeys m)"
  shows "length (filter P (mvals m)) = card {k. \<exists>v. map_of m k = Some v \<and> P v}"
proof -
  have "{k. \<exists>v. map_of m k = Some v \<and> P v} = fst ` set (filter (P \<circ> snd) m)"
    using assms by (force simp: image_iff)
  moreover have "distinct (map fst (filter (P \<circ> snd) m))" using assms by (rule distinct_map_filter)
  ultimately show ?thesis
    using distinct_card [of "map fst (filter (P \<circ> snd) m)"] by (simp add: filter_map)
qed

definition votes_inv :: "ConsensusStore \<Rightarrow> bool" where
  "votes_inv cs \<longleftrightarrow> (\<forall>topic. distinct (mkeys (mlist (csVotes cs) topic)))"

text \<open>A history of votes: topic and nick with time, choice and channel.\<close>

definition cast_votes :: "((string \<times> string) \<times> gotime \<times> string \<times> string) list \<Rightarrow> ConsensusStore" where
  "cast_votes ballots =
     fold (\<lambda>((topic, nick), (now, choice, channel)). RecordVote now topic nick choice channel)
       ballots NewConsensusStore"

lemma cast_votes_distinct: "distinct (mkeys (mlist (csVotes (cast_votes ballots)) topic))"
proof (induction ballots rule: rev_induct)
  case (snoc b bs)
  then show ?case by (cases b) (auto simp: cast_votes_def mlist_RecordVote)
qed (simp add: cast_votes_def NewConsensusStore_def)

lemma voteOf_cast_votes:
  "voteOf (cast_votes ballots) k =
     (case find (\<lambda>(k', _). k' = k) (rev ballots) of
        None \<Rightarrow> None
      | Some ((topic, nick), (now, choice, channel)) \<Rightarrow>
          Some \<lparr>vrTopic = topic, vrNick = nick, vrChoice = choice, vrChannel = channel, vrVotedAt = now\<rparr>)"
  using votes.get_fold_puts [of ballots NewConsensusStore k]
  by (simp add: cast_votes_def case_prod_unfold voteOf_def NewConsensusStore_def split: option.split)

text \<open>
  One agent, one vote, the last one: after any history of votes the count of a choice is the
  number of agents whose last vote on that topic was for it, and the total is the number of agents that
  voted on the topic at all.
\<close>

theorem last_vote_counts:
  "mgetd 0 (tsVotes (TopicSummaryFor (cast_votes ballots) topic)) c =
     card {nick. \<exists>now ch. find (\<lambda>(k, _). k = (topic, nick)) (rev ballots) = Some ((topic, nick), (now, c, ch))}
   \<and> tsTotalVotes (TopicSummaryFor (cast_votes ballots) topic) =
       card {nick. (topic, nick) \<in> fst ` set ballots}"
proof -
  let ?m = "mlist (csVotes (cast_votes ballots)) topic"
  have key: "find (\<lambda>(k, _). k = (topic, nick)) (rev ballots) = Some ((t, n), r) \<Longrightarrow> t = topic \<and> n = nick"
    for nick t n r by (drule find_Some_iff [THEN iffD1]) (metis (mono_tags, lifting) case_prod_conv prod.inject)
  have "{nick. \<exists>v. map_of ?m nick = Some v \<and> vrChoice v = c} =
      {nick. \<exists>now ch. find (\<lambda>(k, _). k = (topic, nick)) (rev ballots) = Some ((topic, nick), (now, c, ch))}"
    using voteOf_cast_votes [of ballots "(topic, _)"]
    by (auto simp: voteOf_def split: option.splits dest: key)
  moreover have "{nick. \<exists>v. map_of ?m nick = Some v \<and> True} = {nick. (topic, nick) \<in> fst ` set ballots}"
    using voteOf_cast_votes [of ballots "(topic, _)"]
    by (force simp: voteOf_def find_None_iff split: option.splits dest: key)
  ultimately show ?thesis
    using length_filter_card [OF cast_votes_distinct, of "\<lambda>v. vrChoice v = c" ballots topic]
      length_filter_card [OF cast_votes_distinct, of "\<lambda>v. True" ballots topic]
    by (simp add: TopicSummaryFor_def summarize_counts)
qed

section \<open>Escalations\<close>

lemma ResolveEscalation_last:
  assumes "csEscalations cs = xs @ e # ys" "erTask e = task" "\<not> erResolved e"
    and "\<forall>y \<in> set ys. erTask y = task \<longrightarrow> erResolved y"
  shows "csEscalations (ResolveEscalation task cs) = xs @ e\<lparr>erResolved := True\<rparr> # ys"
  using assms by (simp add: ResolveEscalation_def updateLast_split)

end
