(* ===== verification/ContextStore.thy ===== *)
theory ContextStore
  imports Protocol IrcEvents
begin

text \<open>
  Context sharing of \<^verbatim>\<open>internal/agent/context_sharing.go\<close>: entries by component, requests and
  subscriptions.  A subscription is known by its number; an operation returns the callbacks it makes as
  pairs of the number and the entry.  \<open>Store\<close> takes three locks one after the other, so its three parts are
  definitions of their own.
\<close>

record ContextEntry =
  ctComponent :: string
  ctProject :: string
  ctStatus :: string
  ctPayload :: string
  ctSharedBy :: string
  ctUpdatedAt :: gotime

record ContextRequest =
  cqComponent :: string
  cqRequestedBy :: string
  cqChannel :: string
  cqRequestedAt :: gotime
  cqFulfilled :: bool
  cqFulfilledAt :: gotime

record ContextStore =
  ctsEntries :: "ContextEntry gomap"
  ctsRequests :: "ContextRequest list"
  ctsSubscriptions :: "(nat \<times> string) list"
  ctsNextSubID :: nat

definition NewContextStore :: ContextStore where
  "NewContextStore = \<lparr>ctsEntries = [], ctsRequests = [], ctsSubscriptions = [], ctsNextSubID = 0\<rparr>"

definition contextEntry :: "Message \<Rightarrow> ContextEntry" where
  "contextEntry msg =
     \<lparr>ctComponent = Get msg ''component'', ctProject = Get msg ''project'', ctStatus = Get msg ''status'',
      ctPayload = [], ctSharedBy = msgNick msg, ctUpdatedAt = msgTimestamp msg\<rparr>"

definition putEntry :: "string \<Rightarrow> ContextEntry \<Rightarrow> ContextStore \<Rightarrow> ContextStore" where
  "putEntry component entry cs = cs\<lparr>ctsEntries := mput component entry (ctsEntries cs)\<rparr>"

definition FulfillRequest :: "gotime \<Rightarrow> string \<Rightarrow> ContextStore \<Rightarrow> ContextStore" where
  "FulfillRequest now component cs =
     cs\<lparr>ctsRequests := map (\<lambda>r. if cqComponent r = component \<and> \<not> cqFulfilled r
                                 then r\<lparr>cqFulfilled := True, cqFulfilledAt := now\<rparr> else r) (ctsRequests cs)\<rparr>"

definition fireSubscriptions :: "string \<Rightarrow> ContextEntry \<Rightarrow> ContextStore \<Rightarrow> (nat \<times> ContextEntry) list" where
  "fireSubscriptions component entry cs =
     map (\<lambda>(id, _). (id, entry)) (filter (\<lambda>(id, c). c = component) (ctsSubscriptions cs))"

definition Store :: "gotime \<Rightarrow> Message \<Rightarrow> ContextStore \<Rightarrow> ContextStore \<times> (nat \<times> ContextEntry) list" where
  "Store now msg cs =
     (let component = Get msg ''component''
      in if component = [] then (cs, [])
         else
           let entry = contextEntry msg;
               cs = putEntry component entry cs;
               cs = FulfillRequest now component cs
           in (cs, fireSubscriptions component entry cs))"

definition StorePayload :: "Message \<Rightarrow> ContextStore \<Rightarrow> ContextStore" where
  "StorePayload msg cs =
     (case find (\<lambda>(k, entry). ctSharedBy entry = msgNick msg) (ctsEntries cs) of
        Some (k, target) \<Rightarrow>
          putEntry k (target\<lparr>ctPayload := msgPayload msg, ctUpdatedAt := msgTimestamp msg\<rparr>) cs
      | None \<Rightarrow>
          putEntry (''_payload_'' @ msgNick msg)
            \<lparr>ctComponent = ''_payload_'' @ msgNick msg, ctProject = [], ctStatus = [],
             ctPayload = msgPayload msg, ctSharedBy = msgNick msg, ctUpdatedAt = msgTimestamp msg\<rparr> cs)"

definition ListEntries :: "ContextStore \<Rightarrow> ContextEntry list" where
  "ListEntries cs = mvals (ctsEntries cs)"

definition GetContext :: "ContextStore \<Rightarrow> string \<Rightarrow> ContextEntry option" where
  "GetContext cs component = map_of (ctsEntries cs) component"

definition TrackRequest :: "Message \<Rightarrow> ContextStore \<Rightarrow> ContextStore" where
  "TrackRequest msg cs =
     (let component = Get msg ''component''
      in if component = [] then cs
         else cs\<lparr>ctsRequests := ctsRequests cs @
                [\<lparr>cqComponent = component, cqRequestedBy = msgNick msg, cqChannel = msgChannel msg,
                  cqRequestedAt = msgTimestamp msg, cqFulfilled = False, cqFulfilledAt = 0\<rparr>]\<rparr>)"

definition PendingRequests :: "ContextStore \<Rightarrow> ContextRequest list" where
  "PendingRequests cs = filter (\<lambda>r. \<not> cqFulfilled r) (ctsRequests cs)"

definition TimedOutRequests :: "gotime \<Rightarrow> duration \<Rightarrow> ContextStore \<Rightarrow> ContextRequest list" where
  "TimedOutRequests now timeout cs =
     (let cutoff = now - timeout
      in filter (\<lambda>r. \<not> cqFulfilled r \<and> cqRequestedAt r < cutoff) (ctsRequests cs))"

definition Subscribe :: "string \<Rightarrow> ContextStore \<Rightarrow> nat \<times> ContextStore" where
  "Subscribe component cs =
     (let id = ctsNextSubID cs
      in (id, cs\<lparr>ctsNextSubID := id + 1, ctsSubscriptions := ctsSubscriptions cs @ [(id, component)]\<rparr>))"

definition Unsubscribe :: "nat \<Rightarrow> ContextStore \<Rightarrow> ContextStore" where
  "Unsubscribe subID cs = cs\<lparr>ctsSubscriptions := filter (\<lambda>(i, c). i \<noteq> subID) (ctsSubscriptions cs)\<rparr>"

text \<open>The reply to a request, and the messages sent for it.\<close>

definition contextReply :: "ContextEntry \<Rightarrow> Message" where
  "contextReply entry =
     mkMessage ActionContext
       ((''component'', ctComponent entry)
        # (if ctProject entry \<noteq> [] then [(''project'', ctProject entry)] else [])
        @ (if ctStatus entry \<noteq> [] then [(''status'', ctStatus entry)] else [])) []"

definition payloadReply :: "ContextEntry \<Rightarrow> Message" where
  "payloadReply entry = (mkMessage ActionSharingContext [] [])\<lparr>msgPayload := ctPayload entry\<rparr>"

definition HandleContextRequest :: "Message \<Rightarrow> ContextStore \<Rightarrow> outbox" where
  "HandleContextRequest msg cs =
     (let component = Get msg ''component''
      in if component = [] then []
         else
           case GetContext cs component of
             None \<Rightarrow> []
           | Some entry \<Rightarrow>
               let target = (if msgChannel msg = [] then msgNick msg else msgChannel msg)
               in (target, String_Message (contextReply entry))
                  # (if ctPayload entry \<noteq> [] then [(target, String_Message (payloadReply entry))] else []))"

section \<open>Requests\<close>

text \<open>
  Storing a context fulfils every pending request for its component and no other, calls exactly the
  subscribers of that component, and is what a later look-up returns.
\<close>

theorem store_fulfils_requests:
  assumes "Get msg ''component'' = c" "c \<noteq> []"
  shows "PendingRequests (fst (Store now msg cs)) = filter (\<lambda>r. cqComponent r \<noteq> c) (PendingRequests cs)
    \<and> snd (Store now msg cs) = map (\<lambda>(id, _). (id, contextEntry msg)) (filter (\<lambda>(id, c'). c' = c) (ctsSubscriptions cs))
    \<and> GetContext (fst (Store now msg cs)) c' = (if c' = c then Some (contextEntry msg) else GetContext cs c')"
proof -
  have "filter (\<lambda>r. \<not> cqFulfilled r)
      (map (\<lambda>r. if cqComponent r = c \<and> \<not> cqFulfilled r then r\<lparr>cqFulfilled := True, cqFulfilledAt := now\<rparr> else r) rs)
    = filter (\<lambda>r. cqComponent r \<noteq> c) (filter (\<lambda>r. \<not> cqFulfilled r) rs)" for rs
    by (induction rs) auto
  then show ?thesis
    using assms by (simp add: Store_def Let_def PendingRequests_def FulfillRequest_def putEntry_def
        fireSubscriptions_def GetContext_def)
qed

theorem store_fulfils_requests_witness:
  "let req = (\<lambda>c. mkMessage ActionRequestContext [(''component'', c)] []);
       cs = TrackRequest (req ''db'') (TrackRequest (req ''ui'') NewContextStore)
   in map cqComponent (PendingRequests (fst (Store 7 (mkMessage ActionContext [(''component'', ''db'')] []) cs))) = [''ui'']"
proof -
  let ?req = "\<lambda>c. mkMessage ActionRequestContext [(''component'', c)] []"
  let ?cs = "TrackRequest (?req ''db'') (TrackRequest (?req ''ui'') NewContextStore)"
  let ?m = "mkMessage ActionContext [(''component'', ''db'')] []"
  have "PendingRequests (fst (Store 7 ?m ?cs)) = filter (\<lambda>r. cqComponent r \<noteq> ''db'') (PendingRequests ?cs)"
    using store_fulfils_requests [of ?m "''db''" 7 ?cs] by (simp add: mkMessage_def Get_def mgetd_def)
  moreover have "map cqComponent (filter (\<lambda>r. cqComponent r \<noteq> ''db'') (PendingRequests ?cs)) = [''ui'']" by code_simp
  ultimately show ?thesis by (simp add: Let_def)
qed

section \<open>Payloads\<close>

text \<open>
  A payload is filed under whichever entry of its sender the map visits first: for a sender with two
  entries there are two visiting orders of one and the same map after which the payload is in different
  entries, so it is not tied to the component that was requested.
\<close>

theorem payload_target_depends_on_map_order:
  assumes "c1 \<noteq> c2" "ctSharedBy e1 = msgNick msg" "ctSharedBy e2 = msgNick msg"
    and "ctPayload e1 \<noteq> msgPayload msg" "ctPayload e2 \<noteq> msgPayload msg"
  shows "let cs = cs0\<lparr>ctsEntries := [(c1, e1), (c2, e2)]\<rparr>; cs' = cs0\<lparr>ctsEntries := [(c2, e2), (c1, e1)]\<rparr>
    in GetContext cs = GetContext cs'
       \<and> map_option ctPayload (GetContext (StorePayload msg cs) c1) = Some (msgPayload msg)
       \<and> map_option ctPayload (GetContext (StorePayload msg cs') c1) = Some (ctPayload e1)"
  using assms by (auto simp: Let_def GetContext_def [abs_def] StorePayload_def putEntry_def fun_eq_iff)

theorem payload_target_depends_on_map_order_witness:
  "let e = (\<lambda>c. \<lparr>ctComponent = c, ctProject = [], ctStatus = [], ctPayload = [], ctSharedBy = ''ann'', ctUpdatedAt = 1\<rparr>);
       msg = (mkMessage ActionSharingContext [] [])\<lparr>msgPayload := ''data'', msgNick := ''ann''\<rparr>
   in map_option ctPayload (GetContext (StorePayload msg (NewContextStore\<lparr>ctsEntries := [(''ui'', e ''ui''), (''db'', e ''db'')]\<rparr>)) ''ui'')
        = Some ''data''
      \<and> map_option ctPayload (GetContext (StorePayload msg (NewContextStore\<lparr>ctsEntries := [(''db'', e ''db''), (''ui'', e ''ui'')]\<rparr>)) ''ui'')
        = Some []"
proof -
  let ?e = "\<lambda>c. \<lparr>ctComponent = c, ctProject = [], ctStatus = [], ctPayload = [], ctSharedBy = ''ann'', ctUpdatedAt = 1\<rparr>"
  let ?m = "(mkMessage ActionSharingContext [] [])\<lparr>msgPayload := ''data'', msgNick := ''ann''\<rparr>"
  show ?thesis
    using payload_target_depends_on_map_order [of "''ui''" "''db''" "?e ''ui''" ?m "?e ''db''" NewContextStore]
    by (simp add: Let_def)
qed

section \<open>Transfer of a context between agents\<close>

text \<open>What a receiver does with the text of a reply from \<open>nick\<close>.\<close>

definition receive :: "string \<Rightarrow> gotime \<Rightarrow> string \<Rightarrow> ContextStore \<Rightarrow> ContextStore" where
  "receive nick now text cs =
     (case Parse text of
        Inl e \<Rightarrow> cs
      | Inr m \<Rightarrow>
          let m = m\<lparr>msgNick := nick, msgTimestamp := now\<rparr>
          in case msgAction m of
               ActionContext \<Rightarrow> fst (Store now m cs)
             | ActionSharingContext \<Rightarrow> StorePayload m cs
             | _ \<Rightarrow> cs)"

definition wf_entry :: "ContextEntry \<Rightarrow> bool" where
  "wf_entry e \<longleftrightarrow> wf_value (ctComponent e) \<and> wf_value (ctProject e) \<and> wf_value (ctStatus e)
     \<and> no_ws_left (ctPayload e) \<and> no_ws_right (ctPayload e)"

lemma wf_contextReply: "wf_entry e \<Longrightarrow> wf_Message (contextReply e)"
proof -
  assume "wf_entry e"
  moreover have "wf_key ''component''" "wf_key ''project''" "wf_key ''status''" by code_simp+
  ultimately show ?thesis by (auto simp: wf_entry_def wf_Message_def contextReply_def mkMessage_def)
qed

lemma wf_payloadReply: "wf_entry e \<Longrightarrow> wf_Message (payloadReply e)"
  by (simp add: wf_entry_def wf_Message_def payloadReply_def mkMessage_def)

lemma Get_contextReply:
  "Get (contextReply e) ''component'' = ctComponent e"
  "Get (contextReply e) ''project'' = ctProject e"
  "Get (contextReply e) ''status'' = ctStatus e"
  by (simp_all add: contextReply_def mkMessage_def Get_def mgetd_def)

lemma receive_context:
  assumes "wf_entry e" "ctComponent e \<noteq> []"
  shows "ctsEntries (receive nick now (String_Message (contextReply e)) cs) =
    mput (ctComponent e) \<lparr>ctComponent = ctComponent e, ctProject = ctProject e, ctStatus = ctStatus e,
      ctPayload = [], ctSharedBy = nick, ctUpdatedAt = now\<rparr> (ctsEntries cs)"
proof -
  have "msgAction (contextReply e) = ActionContext" by (simp add: contextReply_def mkMessage_def)
  with assms(2) wire.parse_print [OF wf_contextReply [OF assms(1)]] show ?thesis
    by (simp add: receive_def Store_def Let_def Get_contextReply contextEntry_def putEntry_def FulfillRequest_def)
qed

lemma receive_payload:
  assumes "wf_entry e"
  shows "receive nick now (String_Message (payloadReply e)) cs =
    StorePayload ((payloadReply e)\<lparr>msgNick := nick, msgTimestamp := now\<rparr>) cs"
  using wire.parse_print [OF wf_payloadReply [OF assms]]
  by (simp add: receive_def payloadReply_def mkMessage_def wire_image_def)

lemma find_unique_update:
  "\<forall>(k', v) \<in> set m. k' \<noteq> k \<longrightarrow> \<not> P v \<Longrightarrow> P v0 \<Longrightarrow> distinct (mkeys m) \<Longrightarrow>
   find (\<lambda>(k, v). P v) (mput k v0 m) = Some (k, v0)"
  by (induction m) auto


definition demo_context :: ContextStore where
  "demo_context =
     NewContextStore\<lparr>ctsEntries := [(''db'', \<lparr>ctComponent = ''db'', ctProject = ''core app'', ctStatus = ''ok'',
        ctPayload = ''schema v2'', ctSharedBy = ''ann'', ctUpdatedAt = 1\<rparr>)]\<rparr>"


end
