(* ===== verification/PathMatch.thy ===== *)
theory PathMatch
  imports Prelude
begin

text \<open>
  Go's \<^verbatim>\<open>path.Match\<close>, which the access rules use for nick and channel patterns: UTF-8 decoding, character
  classes, escapes, and the loop over star-separated chunks.
\<close>

section \<open>UTF-8\<close>

definition byte_at :: "string \<Rightarrow> nat \<Rightarrow> int" where
  "byte_at s i = (if i < length s then of_char (s ! i) else 0)"

definition between :: "int \<Rightarrow> int \<Rightarrow> int \<Rightarrow> bool" where
  "between lo hi n \<longleftrightarrow> lo \<le> n \<and> n \<le> hi"

definition RuneError :: int where
  "RuneError = 0xFFFD"

text \<open>\<^verbatim>\<open>utf8.DecodeRuneInString\<close>: the rune and its width in bytes.\<close>

definition DecodeRune :: "string \<Rightarrow> int \<times> nat" where
  "DecodeRune s =
     (let b0 = byte_at s 0; b1 = byte_at s 1; b2 = byte_at s 2; b3 = byte_at s 3; n = length s
      in if n = 0 then (RuneError, 0)
         else if b0 < 0x80 then (b0, 1)
         else if between 0xC2 0xDF b0 \<and> n \<ge> 2 \<and> between 0x80 0xBF b1
           then ((b0 - 0xC0) * 64 + (b1 - 0x80), 2)
         else if between 0xE0 0xEF b0 \<and> n \<ge> 3
              \<and> between (if b0 = 0xE0 then 0xA0 else 0x80) (if b0 = 0xED then 0x9F else 0xBF) b1
              \<and> between 0x80 0xBF b2
           then ((b0 - 0xE0) * 4096 + (b1 - 0x80) * 64 + (b2 - 0x80), 3)
         else if between 0xF0 0xF4 b0 \<and> n \<ge> 4
              \<and> between (if b0 = 0xF0 then 0x90 else 0x80) (if b0 = 0xF4 then 0x8F else 0xBF) b1
              \<and> between 0x80 0xBF b2 \<and> between 0x80 0xBF b3
           then ((b0 - 0xF0) * 262144 + (b1 - 0x80) * 4096 + (b2 - 0x80) * 64 + (b3 - 0x80), 4)
         else (RuneError, 1))"

lemma DecodeRune_width: "s \<noteq> [] \<Longrightarrow> 0 < snd (DecodeRune s)"
  by (simp add: DecodeRune_def Let_def)

section \<open>Chunks\<close>

datatype match_error = ErrBadPattern

text \<open>The bytes with a meaning of their own in a pattern.\<close>

abbreviation star_byte :: char where "star_byte \<equiv> CHR 0x2A"
abbreviation escape_byte :: char where "escape_byte \<equiv> CHR 0x5C"
abbreviation open_byte :: char where "open_byte \<equiv> CHR 0x5B"
abbreviation close_byte :: char where "close_byte \<equiv> CHR 0x5D"
abbreviation any_byte :: char where "any_byte \<equiv> CHR 0x3F"
abbreviation slash_byte :: char where "slash_byte \<equiv> CHR 0x2F"
abbreviation caret_byte :: char where "caret_byte \<equiv> CHR 0x5E"
abbreviation dash_byte :: char where "dash_byte \<equiv> CHR 0x2D"

text \<open>The scan for the next star outside a class: the chunk and the rest.\<close>

fun scan_loop :: "bool \<Rightarrow> string \<Rightarrow> string \<times> string" where
  "scan_loop inrange [] = ([], [])"
| "scan_loop inrange (c # p) =
     (if c = escape_byte then
        (case p of
           [] \<Rightarrow> ([c], [])
         | d # p' \<Rightarrow> (case scan_loop inrange p' of (chunk, rest) \<Rightarrow> (c # d # chunk, rest)))
      else if c = star_byte \<and> \<not> inrange then ([], c # p)
      else
        let inrange' = (if c = open_byte then True else if c = close_byte then False else inrange)
        in case scan_loop inrange' p of (chunk, rest) \<Rightarrow> (c # chunk, rest))"

definition scanChunk :: "string \<Rightarrow> bool \<times> string \<times> string" where
  "scanChunk pattern =
     (let rest = dropWhile (\<lambda>c. c = star_byte) pattern
      in (rest \<noteq> pattern, scan_loop False rest))"

definition getEsc :: "string \<Rightarrow> match_error + int \<times> string" where
  "getEsc chunk =
     (if chunk = [] \<or> hd chunk = dash_byte \<or> hd chunk = close_byte then Inl ErrBadPattern
      else
        let chunk = (if hd chunk = escape_byte then tl chunk else chunk)
        in if chunk = [] then Inl ErrBadPattern
           else
             let (r, n) = DecodeRune chunk; nchunk = drop n chunk
             in if r = RuneError \<and> n = 1 then Inl ErrBadPattern
                else if nchunk = [] then Inl ErrBadPattern
                else Inr (r, nchunk))"

lemma getEsc_shorter: "getEsc chunk = Inr (r, rest) \<Longrightarrow> length rest < length chunk \<and> rest \<noteq> []"
  using DecodeRune_width [of chunk] DecodeRune_width [of "tl chunk"]
  by (cases chunk) (auto simp: getEsc_def Let_def split: prod.splits if_splits)

text \<open>The loop over the ranges of a character class, for the rune \<open>r\<close>.\<close>

function class_loop :: "int \<Rightarrow> bool \<Rightarrow> nat \<Rightarrow> string \<Rightarrow> match_error + bool \<times> string" where
  "class_loop r matched nrange chunk =
     (if chunk \<noteq> [] \<and> hd chunk = close_byte \<and> nrange > 0 then Inr (matched, tl chunk)
      else
        (case getEsc chunk of
           Inl e \<Rightarrow> Inl e
         | Inr (lo, chunk1) \<Rightarrow>
             if hd chunk1 = dash_byte then
               (case getEsc (tl chunk1) of
                  Inl e \<Rightarrow> Inl e
                | Inr (hi, chunk2) \<Rightarrow> class_loop r (matched \<or> lo \<le> r \<and> r \<le> hi) (nrange + 1) chunk2)
             else class_loop r (matched \<or> lo \<le> r \<and> r \<le> lo) (nrange + 1) chunk1))"
  by pat_completeness auto

termination
proof (relation "measure (\<lambda>(r, m, n, chunk). length chunk)", goal_cases)
  case (2 r matched nrange chunk x lo chunk1 y hi chunk2)
  then have "length chunk1 < length chunk" "length chunk2 < length (tl chunk1)"
    using getEsc_shorter by (metis)+
  then show ?case by simp
next
  case (3 r matched nrange chunk x lo chunk1)
  then show ?case using getEsc_shorter [of chunk lo chunk1] by simp
qed simp

declare class_loop.simps [simp del]

lemma class_loop_shorter: "class_loop r m n chunk = Inr (b, rest) \<Longrightarrow> length rest < length chunk"
proof (induction r m n chunk rule: class_loop.induct)
  case (1 r m n chunk)
  show ?case
  proof (cases "chunk \<noteq> [] \<and> hd chunk = close_byte \<and> n > 0")
    case True
    with "1.prems" show ?thesis by (cases chunk) (auto simp: class_loop.simps)
  next
    case False
    with "1.prems" obtain lo chunk1 where lo: "getEsc chunk = Inr (lo, chunk1)"
      by (subst (asm) class_loop.simps) (auto split: sum.splits)
    from getEsc_shorter [OF lo] have len: "length chunk1 < length chunk" by simp
    show ?thesis
    proof (cases "hd chunk1 = dash_byte")
      case True
      with "1.prems" lo False obtain hi chunk2 where hi: "getEsc (tl chunk1) = Inr (hi, chunk2)"
        and next_r: "class_loop r (m \<or> lo \<le> r \<and> r \<le> hi) (n + 1) chunk2 = Inr (b, rest)"
        by (subst (asm) class_loop.simps) (auto split: sum.splits)
      have "length chunk2 < length (tl chunk1)" using getEsc_shorter [OF hi] by simp
      with "1.IH"(1) [OF False lo refl True hi refl next_r] len show ?thesis by simp
    next
      case other: False
      with "1.prems" lo False have next_r: "class_loop r (m \<or> lo \<le> r \<and> r \<le> lo) (n + 1) chunk1 = Inr (b, rest)"
        by (subst (asm) class_loop.simps) (auto split: sum.splits)
      from "1.IH"(2) [OF False lo refl other next_r] len show ?thesis by simp
    qed
  qed
qed

text \<open>
  The chunk matcher.  \<open>Inr (Some t)\<close> is a match that leaves \<open>t\<close>, \<open>Inr None\<close> is no match; after a failure
  the loop goes on over the chunk only to find syntax errors.
\<close>

function matchChunk :: "bool \<Rightarrow> string \<Rightarrow> string \<Rightarrow> match_error + string option" where
  "matchChunk failed [] s = Inr (if failed then None else Some s)"
| "matchChunk failed (c # chunk) s =
     (let failed = (failed \<or> s = [])
      in if c = open_byte then
           (let r = (if failed then 0 else fst (DecodeRune s));
                s = (if failed then s else drop (snd (DecodeRune s)) s);
                negated = (chunk \<noteq> [] \<and> hd chunk = caret_byte);
                chunk = (if negated then tl chunk else chunk)
            in case class_loop r False 0 chunk of
                 Inl e \<Rightarrow> Inl e
               | Inr (matched, chunk) \<Rightarrow> matchChunk (failed \<or> matched = negated) chunk s)
         else if c = any_byte then
           (if failed then matchChunk failed chunk s
            else matchChunk (hd s = slash_byte) chunk (drop (snd (DecodeRune s)) s))
         else if c = escape_byte then
           (case chunk of
              [] \<Rightarrow> Inl ErrBadPattern
            | d # chunk \<Rightarrow>
                if failed then matchChunk failed chunk s
                else matchChunk (d \<noteq> hd s) chunk (tl s))
         else if failed then matchChunk failed chunk s
         else matchChunk (c \<noteq> hd s) chunk (tl s))"
  by pat_completeness auto

termination
proof (relation "measure (\<lambda>(failed, chunk, s). length chunk)", goal_cases)
  case (2 failed c chunk s x xa xb xc xd y matched rest)
  then have "length rest < length xd" using class_loop_shorter by metis
  moreover have "length xd \<le> length chunk" using 2 by simp
  ultimately show ?case by simp
qed auto

section \<open>The pattern loop\<close>

text \<open>The search for a later position of a starred chunk; it may not skip a slash.\<close>

fun skip_loop :: "bool \<Rightarrow> string \<Rightarrow> string \<Rightarrow> match_error + string option" where
  "skip_loop isLast chunk [] = Inr None"
| "skip_loop isLast chunk (c # name) =
     (if c = slash_byte then Inr None
      else
        (case matchChunk False chunk name of
           Inl e \<Rightarrow> Inl e
         | Inr (Some t) \<Rightarrow> if isLast \<and> t \<noteq> [] then skip_loop isLast chunk name else Inr (Some t)
         | Inr None \<Rightarrow> skip_loop isLast chunk name))"

lemma scan_loop_append: "fst (scan_loop b p) @ snd (scan_loop b p) = p"
  by (induction b p rule: scan_loop.induct) (auto simp: Let_def case_prod_beta split: list.split)

lemma scan_loop_progress: "c \<noteq> star_byte \<Longrightarrow> fst (scan_loop b (c # p)) \<noteq> []"
  by (subst scan_loop.simps(2)) (simp add: Let_def case_prod_beta split: list.split)

lemma dropWhile_shorter: "P c \<Longrightarrow> length (dropWhile P (c # p)) < length (c # p)"
  using length_dropWhile_le [of P p] by simp

lemma scanChunk_shorter:
  assumes "(star, chunk, rest) = scanChunk (c # p)"
  shows "length rest < Suc (length p)"
proof -
  let ?p = "dropWhile (\<lambda>c. c = star_byte) (c # p)"
  from assms have s: "scan_loop False ?p = (chunk, rest)"
    by (auto simp: scanChunk_def Let_def simp del: scan_loop.simps)
  with scan_loop_append [of False ?p] have app: "?p = chunk @ rest" by (simp del: scan_loop.simps)
  show ?thesis
  proof (cases "c = star_byte")
    case True
    with app dropWhile_shorter [of "\<lambda>c. c = star_byte" c p] show ?thesis by (metis (mono_tags, lifting) length_Cons length_append le_add2 le_less_trans)
  next
    case False
    with s scan_loop_progress [of c False p] have "chunk \<noteq> []" by (simp del: scan_loop.simps)
    with app False show ?thesis by (cases chunk) auto
  qed
qed

text \<open>The check of the remaining chunks for syntax errors before a mismatch is reported.\<close>

function check_rest :: "string \<Rightarrow> match_error + bool" where
  "check_rest [] = Inr False"
| "check_rest (c # p) =
     (case scanChunk (c # p) of
        (star, chunk, rest) \<Rightarrow>
          (case matchChunk False chunk [] of Inl e \<Rightarrow> Inl e | Inr _ \<Rightarrow> check_rest rest))"
  by pat_completeness auto
termination
  by (relation "measure length") (auto dest: scanChunk_shorter)

function Match :: "string \<Rightarrow> string \<Rightarrow> match_error + bool" where
  "Match [] name = Inr (name = [])"
| "Match (c # p) name =
     (case scanChunk (c # p) of
        (star, chunk, rest) \<Rightarrow>
          if star \<and> chunk = [] then Inr (slash_byte \<notin> set name)
          else
            (case matchChunk False chunk name of
               Inl e \<Rightarrow> Inl e
             | Inr m \<Rightarrow>
                 if m \<noteq> None \<and> (m = Some [] \<or> rest \<noteq> []) then Match rest (the m)
                 else if star then
                   (case skip_loop (rest = []) chunk name of
                      Inl e \<Rightarrow> Inl e
                    | Inr (Some t) \<Rightarrow> Match rest t
                    | Inr None \<Rightarrow> check_rest rest)
                 else check_rest rest))"
  by pat_completeness auto
termination
  by (relation "measure (\<lambda>(p, n). length p)") (auto dest: scanChunk_shorter)

section \<open>Plain patterns\<close>

text \<open>A pattern without special bytes, and one that ends in a single star after such a text.\<close>

definition plain_pattern :: "string \<Rightarrow> bool" where
  "plain_pattern p \<longleftrightarrow> list_all (\<lambda>c. c \<notin> {star_byte, escape_byte, open_byte, any_byte}) p"

lemma plain_pattern_Cons [simp]:
  "plain_pattern (c # p) \<longleftrightarrow> c \<noteq> star_byte \<and> c \<noteq> escape_byte \<and> c \<noteq> open_byte \<and> c \<noteq> any_byte \<and> plain_pattern p"
  by (auto simp: plain_pattern_def)

lemma scan_loop_plain: "plain_pattern p \<Longrightarrow> q = [] \<or> hd q = star_byte \<Longrightarrow> scan_loop False (p @ q) = (p, q)"
proof (induction p)
  case Nil
  then show ?case by (cases q) auto
qed simp

lemma matchChunk_plain_failed: "plain_pattern p \<Longrightarrow> matchChunk True p s = Inr None"
  by (induction p arbitrary: s) simp_all

lemma matchChunk_plain:
  "plain_pattern p \<Longrightarrow> matchChunk False p s = Inr (if prefix p s then Some (drop (length p) s) else None)"
proof (induction p arbitrary: s)
  case (Cons c p)
  show ?case
  proof (cases s)
    case Nil
    with Cons.prems show ?thesis by (simp add: matchChunk_plain_failed)
  next
    case (Cons d s')
    with Cons.prems Cons.IH [of s'] show ?thesis
      by (cases "c = d") (simp_all add: matchChunk_plain_failed)
  qed
qed simp

lemma plain_no_star: "plain_pattern p \<Longrightarrow> p \<noteq> [] \<Longrightarrow> dropWhile (\<lambda>c. c = star_byte) (p @ q) = p @ q"
  by (cases p) auto

lemma Match_plain: "plain_pattern p \<Longrightarrow> Match p s = Inr (p = s)"
proof (cases p)
  case (Cons c p')
  assume plain: "plain_pattern p"
  then have "scanChunk p = (False, p, [])"
    using scan_loop_plain [OF plain, of "[]"] plain_no_star [OF plain, of "[]"] Cons
    by (simp add: scanChunk_def Let_def del: scan_loop.simps)
  with Cons matchChunk_plain [OF plain, of s] show ?thesis
    by (auto simp: prefix_def)
qed auto

lemma Match_star: "Match [star_byte] s = Inr (slash_byte \<notin> set s)"
  by (simp add: scanChunk_def)

lemma Match_plain_star:
  assumes "plain_pattern p"
  shows "Match (p @ [star_byte]) s = Inr (prefix p s \<and> slash_byte \<notin> set (drop (length p) s))"
proof (cases p)
  case Nil
  then show ?thesis using Match_star by (simp del: Match.simps)
next
  case (Cons c p')
  then have "scanChunk (p @ [star_byte]) = (False, p, [star_byte])"
    using scan_loop_plain [OF assms, of "[star_byte]"] plain_no_star [OF assms, of "[star_byte]"]
    by (simp add: scanChunk_def Let_def del: scan_loop.simps)
  moreover have "check_rest [star_byte] = Inr False"
    by (simp add: scanChunk_def)
  ultimately show ?thesis
    using Match.simps(2) [of c "p' @ [star_byte]" s] Cons matchChunk_plain [OF assms, of s]
      Match_star [of "drop (length p) s"]
    by (simp del: matchChunk.simps check_rest.simps Match.simps scan_loop.simps)
qed

declare Match.simps(2) [simp del]

end
