(* ===== verification/ACL.thy ===== *)
theory ACL
  imports PathMatch Protocol Interfaces
begin

text \<open>
  The authorization rules of \<^verbatim>\<open>internal/agent/acl.go\<close>, with the rule type of \<^verbatim>\<open>internal/config/loader.go\<close>.
  The actions of a rule come from a YAML file and are arbitrary strings.
\<close>

record ACLRule =
  arChannel :: string
  arNickPattern :: string
  arActions :: "string list"
  arEffect :: string

type_synonym ACLEngine = "ACLRule list"

definition NewACLEngine :: "ACLRule list \<Rightarrow> ACLEngine" where
  "NewACLEngine rules = rules"

definition matchGlob :: "string \<Rightarrow> string \<Rightarrow> bool" where
  "matchGlob pattern val =
     (if pattern = [] \<or> pattern = ''*'' then True
      else case Match pattern val of Inl _ \<Rightarrow> False | Inr matched \<Rightarrow> matched)"

definition containsAction :: "string list \<Rightarrow> Action \<Rightarrow> bool" where
  "containsAction actions action \<longleftrightarrow> list_ex (\<lambda>a. a = action_string action) actions"

fun Check :: "ACLEngine \<Rightarrow> string \<Rightarrow> string \<Rightarrow> Action \<Rightarrow> bool" where
  "Check [] nick channel action = True"
| "Check (rule # rules) nick channel action =
     (if \<not> matchGlob (arChannel rule) channel then Check rules nick channel action
      else if \<not> matchGlob (arNickPattern rule) nick then Check rules nick channel action
      else if length (arActions rule) > 0 \<and> \<not> containsAction (arActions rule) action
        then Check rules nick channel action
      else arEffect rule = ''allow'')"

definition SetRules :: "ACLRule list \<Rightarrow> ACLEngine \<Rightarrow> ACLEngine" where
  "SetRules rules e = rules"

section \<open>First match\<close>

definition rule_matches :: "ACLRule \<Rightarrow> string \<times> string \<times> Action \<Rightarrow> bool" where
  "rule_matches r q =
     (case q of (nick, channel, action) \<Rightarrow>
        matchGlob (arChannel r) channel \<and> matchGlob (arNickPattern r) nick
        \<and> (arActions r = [] \<or> action_string action \<in> set (arActions r)))"

lemma containsAction_iff: "containsAction actions a \<longleftrightarrow> action_string a \<in> set actions"
  by (auto simp: containsAction_def list_ex_iff)

interpretation acl: first_match
  "\<lambda>rules (nick, channel, action). Check rules nick channel action" rule_matches
  "\<lambda>r. arEffect r = ''allow''" True
  by unfold_locales (auto simp: rule_matches_def containsAction_iff)

text \<open>
  C14.  The first rule that matches the nick, the channel and the action decides, by whether its effect
  is the word \<open>allow\<close>; rules after it have no influence, and without a matching rule the message is
  allowed.
\<close>

theorem acl_first_match_decides:
  "Check rules nick channel action =
     (case find (\<lambda>r. matchGlob (arChannel r) channel \<and> matchGlob (arNickPattern r) nick
                   \<and> (arActions r = [] \<or> action_string action \<in> set (arActions r))) rules of
        None \<Rightarrow> True | Some r \<Rightarrow> arEffect r = ''allow'')"
  using acl.check_find [of rules "(nick, channel, action)"] by (simp add: rule_matches_def)

lemma acl_shadowed:
  "rule_matches r (nick, channel, action) \<Longrightarrow>
   Check (rules @ r # rules') nick channel action = Check (rules @ [r]) nick channel action"
  using acl.check_shadowed [of "rules @ [r]" "(nick, channel, action)" rules'] by auto

text \<open>
  What the patterns of a rule mean: the empty pattern and a lone star match every text, a pattern
  without special characters only itself, one that ends in a star every text with that prefix whose
  remainder has no slash; a pattern with a syntax error matches nothing, so a rule that denies by such
  a pattern denies nobody.
\<close>

theorem acl_patterns:
  "matchGlob [] v \<and> matchGlob ''*'' v
   \<and> (plain_pattern p \<longrightarrow> p \<noteq> [] \<longrightarrow>
        (matchGlob p v \<longleftrightarrow> v = p)
        \<and> (matchGlob (p @ ''*'') v \<longleftrightarrow> (\<exists>w. v = p @ w \<and> CHR ''/'' \<notin> set w)))
   \<and> (\<forall>e. Match p v = Inl e \<longrightarrow> \<not> matchGlob p v)
   \<and> Check [\<lparr>arChannel = [], arNickPattern = ''[evil'', arActions = [], arEffect = ''deny''\<rparr>] ''[evil'' ch a"
proof -
  have "matchGlob p v \<longleftrightarrow> v = p" if "plain_pattern p" "p \<noteq> []"
    using Match_plain [OF that(1), of v] that by (auto simp: matchGlob_def)
  moreover have "matchGlob (p @ ''*'') v \<longleftrightarrow> (\<exists>w. v = p @ w \<and> CHR ''/'' \<notin> set w)"
    if "plain_pattern p" "p \<noteq> []"
    using Match_plain_star [OF that(1), of v] that by (auto simp: matchGlob_def prefix_def)
  moreover have "\<not> matchGlob p v" if "Match p v = Inl e" for e
    using that Match_star [of v] by (auto simp: matchGlob_def)
  moreover have "\<not> matchGlob ''[evil'' ''[evil''" by code_simp
  then have "Check [\<lparr>arChannel = [], arNickPattern = ''[evil'', arActions = [], arEffect = ''deny''\<rparr>] ''[evil'' ch a"
    by simp
  ultimately show ?thesis by (simp add: matchGlob_def [of "[]"] matchGlob_def [of "''*''"])
qed

theorem acl_patterns_witness:
  "matchGlob ''#team-*'' ''#team-a'' \<and> \<not> matchGlob ''#team-*'' ''#team-a/b'' \<and> \<not> matchGlob ''#team-*'' ''#ops''"
proof -
  have plain: "plain_pattern ''#team-''" by code_simp
  have "matchGlob ''#team-*'' v \<longleftrightarrow> (\<exists>w. v = ''#team-'' @ w \<and> CHR ''/'' \<notin> set w)" for v
    using acl_patterns [of v "''#team-''"] plain by simp
  then show ?thesis by simp
qed

end
