(* ===== verification/Discovery.thy ===== *)
theory Discovery
  imports Interfaces
begin

text \<open>
  Capability discovery of \<^verbatim>\<open>internal/agent/discovery.go\<close>: what agents advertise, with an expiry time.
  The slices of a capability are copied on the way in, so an entry is a value.
\<close>

record AgentCapability =
  acNick :: string
  acExpertise :: "string list"
  acChannels :: "string list"
  acCurrentTask :: string
  acUpdatedAt :: gotime
  acExpiresAt :: gotime
  acRole :: string
  acLoad :: goint
  acMaxLoad :: goint
  acActiveTasks :: "string list"

record DiscoveryStore =
  dstAgents :: "AgentCapability gomap"
  dstTtl :: duration

definition NewDiscoveryStore :: "duration \<Rightarrow> DiscoveryStore" where
  "NewDiscoveryStore ttl =
     (let ttl = (if ttl \<le> 0 then 300000000000 else ttl) in \<lparr>dstAgents = [], dstTtl = ttl\<rparr>)"

definition Update :: "gotime \<Rightarrow> AgentCapability \<Rightarrow> DiscoveryStore \<Rightarrow> DiscoveryStore" where
  "Update now cap ds =
     (let cp = cap;
          cp = (if isZero (acUpdatedAt cp) then cp\<lparr>acUpdatedAt := now\<rparr> else cp);
          cp = (if isZero (acExpiresAt cp) then cp\<lparr>acExpiresAt := acUpdatedAt cp + dstTtl ds\<rparr> else cp)
      in ds\<lparr>dstAgents := mput (acNick cp) cp (dstAgents ds)\<rparr>)"

definition expired :: "gotime \<Rightarrow> AgentCapability \<Rightarrow> bool" where
  "expired now cap \<longleftrightarrow> now > acExpiresAt cap"

definition GetCapability :: "gotime \<Rightarrow> DiscoveryStore \<Rightarrow> string \<Rightarrow> AgentCapability option" where
  "GetCapability now ds nick =
     (case map_of (dstAgents ds) nick of
        None \<Rightarrow> None
      | Some cap \<Rightarrow> if expired now cap then None else Some cap)"

definition FindByExpertise :: "gotime \<Rightarrow> DiscoveryStore \<Rightarrow> string \<Rightarrow> AgentCapability list" where
  "FindByExpertise now ds tag =
     (let tag = ToLower tag
      in filter (\<lambda>cap. \<not> expired now cap \<and> list_ex (\<lambda>e. ToLower e = tag) (acExpertise cap)) (mvals (dstAgents ds)))"

definition ListActive :: "gotime \<Rightarrow> DiscoveryStore \<Rightarrow> AgentCapability list" where
  "ListActive now ds = filter (\<lambda>cap. \<not> expired now cap) (mvals (dstAgents ds))"

definition Prune :: "gotime \<Rightarrow> DiscoveryStore \<Rightarrow> DiscoveryStore" where
  "Prune now ds = ds\<lparr>dstAgents := filter (\<lambda>(nick, cap). \<not> expired now cap) (dstAgents ds)\<rparr>"

section \<open>Expiry\<close>

datatype discovery_op = OpUpdate gotime AgentCapability | OpPrune gotime

fun discovery_step :: "discovery_op \<Rightarrow> DiscoveryStore \<Rightarrow> DiscoveryStore" where
  "discovery_step (OpUpdate now cap) ds = Update now cap ds"
| "discovery_step (OpPrune now) ds = Prune now ds"

definition discovery_inv :: "DiscoveryStore \<Rightarrow> bool" where
  "discovery_inv ds \<longleftrightarrow> dstTtl ds > 0 \<and> keyed (\<lambda>k cap. acNick cap = k) (dstAgents ds)"

lemma keyed_filter: "keyed P m \<Longrightarrow> keyed P (filter (\<lambda>(k, v). Q v) m)"
  by (auto simp: keyed_def distinct_map_filter case_prod_unfold)

lemma discovery_inv_step: "discovery_inv ds \<Longrightarrow> discovery_inv (discovery_step x ds)"
  by (cases x) (auto simp: discovery_inv_def Update_def Prune_def Let_def keyed_filter)

interpretation discovery: guarded_store "NewDiscoveryStore ttl" discovery_step discovery_inv for ttl
  by unfold_locales (simp add: discovery_inv_def NewDiscoveryStore_def Let_def, rule discovery_inv_step)

lemma map_of_filter_vals:
  "distinct (mkeys m) \<Longrightarrow>
   map_of (filter (\<lambda>(k, v). P v) m) k = (case map_of m k of None \<Rightarrow> None | Some v \<Rightarrow> if P v then Some v else None)"
  by (induction m) (auto split: option.split simp: map_of_eq_None_iff rev_image_eqI)

lemma filter_vals: "map snd (filter (\<lambda>(k, v). P v) m) = filter P (map snd m)"
  by (induction m) auto

text \<open>
  Pruning is invisible: at the time of the prune or later, every query of the store gives the same
  answer as without it, after any history of updates and prunes.
\<close>

theorem prune_invisible:
  assumes "now \<le> later"
  shows "let ds = fold discovery_step ops (NewDiscoveryStore ttl)
    in GetCapability later (Prune now ds) nick = GetCapability later ds nick
       \<and> ListActive later (Prune now ds) = ListActive later ds
       \<and> FindByExpertise later (Prune now ds) tag = FindByExpertise later ds tag"
proof -
  let ?ds = "fold discovery_step ops (NewDiscoveryStore ttl)"
  have "discovery_inv ?ds" by (rule discovery.inv_run)
  then have d: "distinct (mkeys (dstAgents ?ds))" by (simp add: discovery_inv_def keyed_def)
  have e: "expired now cap \<Longrightarrow> expired later cap" for cap using assms by (simp add: expired_def)
  show ?thesis
    unfolding Let_def
    by (auto simp: GetCapability_def Prune_def map_of_filter_vals [OF d] ListActive_def FindByExpertise_def
        filter_vals Let_def e intro!: filter_cong split: option.split)
qed

theorem prune_invisible_witness:
  "let ds = fold discovery_step [OpUpdate 5 \<lparr>acNick = ''ann'', acExpertise = [''Go''], acChannels = [],
        acCurrentTask = [], acUpdatedAt = 0, acExpiresAt = 0, acRole = [], acLoad = 0, acMaxLoad = 0,
        acActiveTasks = []\<rparr>] (NewDiscoveryStore 10)
   in map acNick (FindByExpertise 12 (Prune 7 ds) ''GO'') = [''ann''] \<and> FindByExpertise 16 (Prune 7 ds) ''GO'' = []"
proof -
  let ?ops = "[OpUpdate 5 \<lparr>acNick = ''ann'', acExpertise = [''Go''], acChannels = [],
        acCurrentTask = [], acUpdatedAt = 0, acExpiresAt = 0, acRole = [], acLoad = 0, acMaxLoad = 0,
        acActiveTasks = []\<rparr>]"
  have p: "FindByExpertise later (Prune 7 (fold discovery_step ?ops (NewDiscoveryStore 10))) ''GO'' =
      FindByExpertise later (fold discovery_step ?ops (NewDiscoveryStore 10)) ''GO''" if "7 \<le> later" for later
    using prune_invisible [OF that, of ?ops 10 undefined "''GO''"] by (simp add: Let_def)
  have "map acNick (FindByExpertise 12 (fold discovery_step ?ops (NewDiscoveryStore 10)) ''GO'') = [''ann'']"
    "FindByExpertise 16 (fold discovery_step ?ops (NewDiscoveryStore 10)) ''GO'' = []" by code_simp+
  then show ?thesis using p [of 12] p [of 16] unfolding Let_def by simp
qed

text \<open>The life of an advertisement that comes without times of its own.\<close>

lemma advertisement_lifetime:
  assumes "isZero (acUpdatedAt cap)" "isZero (acExpiresAt cap)" "discovery_inv ds"
  shows "GetCapability later (Update now cap ds) (acNick cap) \<noteq> None \<longleftrightarrow> later \<le> now + dstTtl ds"
  using assms by (auto simp: GetCapability_def Update_def Let_def isZero_def expired_def)

end
