(* ===== verification/Dispatcher.thy ===== *)
theory Dispatcher
  imports Coordinator TaskBoard Handoff Review Consensus ContextStore ACL Discovery
begin

text \<open>
  The protocol dispatcher of \<^verbatim>\<open>internal/agent/protocol.go\<close>: it parses what arrives, checks it against the
  access rules and feeds the stores.  Its state is the stores it points to (a nil pointer is \<open>None\<close>), its
  nick and the registered handlers; what a message causes outside, the sends, the callbacks to context
  subscribers and the calls of handlers, is returned in order.  The clock is read once per message.
\<close>

text \<open>The handlers that the agent registers, and any other one.\<close>

datatype handler_ref = HNotifier | HMetrics | HInspector | HPersist | HRoles | HUser nat

record Dispatcher =
  pdSelfNick :: string
  pdState :: StateStore
  pdContext :: ContextStore
  pdNotified :: "string list"
  pdAcl :: "ACLEngine option"
  pdDiscovery :: "DiscoveryStore option"
  pdSelfCaps :: "string list"
  pdTaskBoard :: "TaskBoard option"
  pdHandoff :: "HandoffStore option"
  pdReview :: "ReviewStore option"
  pdConsensus :: "ConsensusStore option"
  pdHandlers :: "(nat \<times> handler_ref) list"
  pdNextID :: nat

record Effects =
  efSends :: outbox
  efCallbacks :: "(nat \<times> ContextEntry) list"
  efCalls :: "(handler_ref \<times> Message) list"

definition noEffects :: Effects where
  "noEffects = \<lparr>efSends = [], efCallbacks = [], efCalls = []\<rparr>"

definition NewProtocolDispatcher :: "string \<Rightarrow> StateStore \<Rightarrow> ContextStore \<Rightarrow> Dispatcher" where
  "NewProtocolDispatcher nick state context =
     \<lparr>pdSelfNick = nick, pdState = state, pdContext = context, pdNotified = NewUnblockNotifier,
      pdAcl = None, pdDiscovery = None, pdSelfCaps = [], pdTaskBoard = None, pdHandoff = None,
      pdReview = None, pdConsensus = None, pdHandlers = [], pdNextID = 0\<rparr>"

definition OnProtocolMessage :: "handler_ref \<Rightarrow> Dispatcher \<Rightarrow> nat \<times> Dispatcher" where
  "OnProtocolMessage handler pd =
     (pdNextID pd, pd\<lparr>pdNextID := pdNextID pd + 1, pdHandlers := pdHandlers pd @ [(pdNextID pd, handler)]\<rparr>)"

definition RemoveProtocolHandler :: "nat \<Rightarrow> Dispatcher \<Rightarrow> Dispatcher" where
  "RemoveProtocolHandler hid pd = pd\<lparr>pdHandlers := filter (\<lambda>(i, h). i \<noteq> hid) (pdHandlers pd)\<rparr>"

section \<open>Stores\<close>

text \<open>The actions that both switches over the task store list.\<close>

definition stateActions :: "Action list" where
  "stateActions =
     [ActionStarted, ActionCompleted, ActionBlocked, ActionAcknowledged, ActionOffer, ActionClaim, ActionAssign,
      ActionAccept, ActionDecline, ActionYield, ActionCheckpoint, ActionHandoff]"

definition updateTaskState :: "gotime \<Rightarrow> Message \<Rightarrow> StateStore \<Rightarrow> StateStore" where
  "updateTaskState now msg s =
     (if msgAction msg \<in> set stateActions then
        let s = UpdateTask now msg s; taskName = Get msg ''task''
        in if taskName \<noteq> [] then UpdateAgentStatus now (msgNick msg) (msgChannel msg) taskName s else s
      else s)"

text \<open>A number field with 0 for a missing or malformed value.\<close>

definition intField :: "Message \<Rightarrow> string \<Rightarrow> goint" where
  "intField msg key =
     (let l = Get msg key in if l \<noteq> [] then (case Atoi l of Some v \<Rightarrow> v | None \<Rightarrow> 0) else 0)"

definition updateTaskBoard :: "gotime \<Rightarrow> Message \<Rightarrow> TaskBoard \<Rightarrow> TaskBoard" where
  "updateTaskBoard now msg tb =
     (let task = Get msg ''task''
      in case msgAction msg of
           ActionOffer \<Rightarrow> RecordOffer now task (msgChannel msg) (msgNick msg) (Get msg ''priority'') (Get msg ''scope'') tb
         | ActionClaim \<Rightarrow> snd (RecordClaim now task (msgNick msg) (intField msg ''load'') tb)
         | ActionAssign \<Rightarrow> RecordAssign now task (Get msg ''to'') (msgNick msg) (msgChannel msg) tb
         | ActionDecline \<Rightarrow> RecordDecline task tb
         | ActionYield \<Rightarrow> RecordYield task tb
         | _ \<Rightarrow> tb)"

definition updateHandoff :: "gotime \<Rightarrow> Message \<Rightarrow> HandoffStore \<Rightarrow> HandoffStore" where
  "updateHandoff now msg hs =
     (let task = Get msg ''task''
      in case msgAction msg of
           ActionCheckpoint \<Rightarrow>
             RecordCheckpoint now task (msgNick msg) (intField msg ''progress'') (Get msg ''summary'') (msgChannel msg) hs
         | ActionHandoff \<Rightarrow>
             RecordHandoff now task (msgNick msg) (Get msg ''to'') (Get msg ''context-id'') (msgChannel msg) hs
         | ActionAccept \<Rightarrow> AcceptHandoff task (msgNick msg) hs
         | _ \<Rightarrow> hs)"

definition updateReview :: "gotime \<Rightarrow> Message \<Rightarrow> ReviewStore \<Rightarrow> ReviewStore" where
  "updateReview now msg rs =
     (let task = Get msg ''task''
      in case msgAction msg of
           ActionReviewRequest \<Rightarrow>
             RecordRequest now task (Get msg ''pr'') (Get msg ''review-type'') (msgNick msg) (msgChannel msg) rs
         | ActionReviewComplete \<Rightarrow>
             RecordComplete now task (Get msg ''pr'') (msgNick msg) (Get msg ''verdict'') (Get msg ''details'')
               (msgChannel msg) rs
         | ActionGateCheck \<Rightarrow>
             RecordGate now task (Get msg ''gate'') (Get msg ''status'') (Get msg ''details'') (msgNick msg)
               (msgChannel msg) rs
         | _ \<Rightarrow> rs)"

definition updateConsensus :: "gotime \<Rightarrow> Message \<Rightarrow> ConsensusStore \<Rightarrow> ConsensusStore" where
  "updateConsensus now msg cs =
     (case msgAction msg of
        ActionVote \<Rightarrow> RecordVote now (Get msg ''topic'') (msgNick msg) (Get msg ''choice'') (msgChannel msg) cs
      | ActionEscalate \<Rightarrow>
          RecordEscalation now (Get msg ''task'') (Get msg ''to'') (Get msg ''reason'') (Get msg ''severity'')
            (msgNick msg) (msgChannel msg) cs
      | _ \<Rightarrow> cs)"

definition updateCoordinationStores :: "gotime \<Rightarrow> Message \<Rightarrow> Dispatcher \<Rightarrow> Dispatcher" where
  "updateCoordinationStores now msg pd =
     pd\<lparr>pdTaskBoard := map_option (updateTaskBoard now msg) (pdTaskBoard pd),
        pdHandoff := map_option (updateHandoff now msg) (pdHandoff pd),
        pdReview := map_option (updateReview now msg) (pdReview pd),
        pdConsensus := map_option (updateConsensus now msg) (pdConsensus pd)\<rparr>"

definition updateContext :: "gotime \<Rightarrow> Message \<Rightarrow> ContextStore \<Rightarrow> ContextStore \<times> (nat \<times> ContextEntry) list" where
  "updateContext now msg cs =
     (case msgAction msg of
        ActionContext \<Rightarrow> Store now msg cs
      | ActionSharingContext \<Rightarrow> (StorePayload msg cs, [])
      | _ \<Rightarrow> (cs, []))"

definition updateLocalState :: "gotime \<Rightarrow> Message \<Rightarrow> Dispatcher \<Rightarrow> Dispatcher \<times> (nat \<times> ContextEntry) list" where
  "updateLocalState now msg pd =
     (let pd = pd\<lparr>pdState := updateTaskState now msg (pdState pd)\<rparr>;
          (ctx, cbs) = updateContext now msg (pdContext pd);
          pd = pd\<lparr>pdContext := ctx\<rparr>
      in (updateCoordinationStores now msg pd, cbs))"

section \<open>Discovery messages\<close>

definition handleCapabilities :: "gotime \<Rightarrow> Message \<Rightarrow> DiscoveryStore \<Rightarrow> DiscoveryStore" where
  "handleCapabilities now msg ds =
     Update now
       \<lparr>acNick = msgNick msg, acExpertise = splitTrim (Get msg ''expertise''),
        acChannels = splitTrim (Get msg ''channels''), acCurrentTask = Get msg ''current-task'',
        acUpdatedAt = msgTimestamp msg, acExpiresAt = 0, acRole = Get msg ''role'',
        acLoad = intField msg ''load'', acMaxLoad = intField msg ''max-load'',
        acActiveTasks = splitTrim (Get msg ''active-tasks'')\<rparr> ds"

definition handleDiscover :: "Message \<Rightarrow> string list \<Rightarrow> outbox" where
  "handleDiscover msg selfCaps =
     (let requested = ToLower (Get msg ''expertise'')
      in if requested = [] \<or> length selfCaps = 0 then []
         else if list_ex (\<lambda>cap. ToLower cap = requested) selfCaps then
           let reply = mkMessage ActionCapabilities [(''expertise'', Join selfCaps '','')] [];
               target = (if msgChannel msg = [] then msgNick msg else msgChannel msg)
           in [(target, String_Message reply)]
         else [])"

section \<open>An incoming message\<close>

text \<open>What follows the checks, for the message with the dispatcher's context added.\<close>

definition processMessage :: "gotime \<Rightarrow> Message \<Rightarrow> Dispatcher \<Rightarrow> Dispatcher \<times> Effects" where
  "processMessage now msg pd =
     (let pd = pd\<lparr>pdState := updateTaskState now msg (pdState pd)\<rparr>;
          (notified, acks) = (if msgAction msg = ActionCompleted
                              then OnTaskCompleted (pdState pd) msg (pdNotified pd) else (pdNotified pd, []));
          pd = pd\<lparr>pdNotified := notified\<rparr>;
          pd = updateCoordinationStores now msg pd;
          (ctx, cbs) = updateContext now msg (pdContext pd);
          ctx = (if msgAction msg = ActionRequestContext then TrackRequest msg ctx else ctx);
          pd = pd\<lparr>pdContext := ctx\<rparr>;
          replies = (if msgAction msg = ActionRequestContext then HandleContextRequest msg ctx else []);
          disc = (case pdDiscovery pd of
                    None \<Rightarrow> None
                  | Some ds \<Rightarrow> Some (if msgAction msg = ActionCapabilities then handleCapabilities now msg ds else ds));
          caps = (if pdDiscovery pd \<noteq> None \<and> msgAction msg = ActionDiscover
                  then handleDiscover msg (pdSelfCaps pd) else []);
          pd = pd\<lparr>pdDiscovery := disc\<rparr>
      in (pd, \<lparr>efSends = acks @ replies @ caps, efCallbacks = cbs,
               efCalls = map (\<lambda>(i, h). (h, msg)) (pdHandlers pd)\<rparr>))"

definition enrich :: "gotime \<Rightarrow> MessageEvent \<Rightarrow> Message \<Rightarrow> Message" where
  "enrich now ev msg =
     msg\<lparr>msgChannel := meChannel ev, msgNick := meNick ev,
         msgTimestamp := (if isZero (meTimestamp ev) then now else meTimestamp ev)\<rparr>"

definition handleMessage :: "gotime \<Rightarrow> MessageEvent \<Rightarrow> Dispatcher \<Rightarrow> Dispatcher \<times> Effects" where
  "handleMessage now ev pd =
     (if \<not> IsProtocolMessage (meMessage ev) then (pd, noEffects)
      else if meNick ev = pdSelfNick pd then (pd, noEffects)
      else
        case Parse (meMessage ev) of
          Inl err \<Rightarrow> (pd, noEffects)
        | Inr msg \<Rightarrow>
            let msg = enrich now ev msg
            in if (case pdAcl pd of
                     None \<Rightarrow> False
                   | Some acl \<Rightarrow> \<not> Check acl (msgNick msg) (msgChannel msg) (msgAction msg))
               then (pd, noEffects)
               else processMessage now msg pd)"

section \<open>Rejected messages\<close>

text \<open>
  A text that is not a protocol message, comes from the agent itself, does not parse, or is denied by
  the access rules leaves every store as it was and causes no send, no callback and no handler call.
\<close>

theorem rejected_message_is_ignored:
  assumes "\<not> IsProtocolMessage (meMessage ev) \<or> meNick ev = pdSelfNick pd \<or> (\<exists>e. Parse (meMessage ev) = Inl e)
    \<or> (\<exists>msg acl. Parse (meMessage ev) = Inr msg \<and> pdAcl pd = Some acl
          \<and> \<not> Check acl (meNick ev) (meChannel ev) (msgAction msg))"
  shows "handleMessage now ev pd = (pd, \<lparr>efSends = [], efCallbacks = [], efCalls = []\<rparr>)"
  using assms by (auto simp: handleMessage_def noEffects_def enrich_def Let_def split: sum.split option.split)

definition demo_ev :: "string \<Rightarrow> string \<Rightarrow> string \<Rightarrow> MessageEvent" where
  "demo_ev channel nick text =
     \<lparr>meChannel = channel, meNick = nick, meUser = [], meHost = [], meMessage = text, meIsNotice = False,
      meTimestamp = 7\<rparr>"

theorem rejected_message_is_ignored_witness:
  "let pd = (NewProtocolDispatcher ''bot'' NewStateStore NewContextStore)
        \<lparr>pdAcl := Some [\<lparr>arChannel = [], arNickPattern = ''eve'', arActions = [], arEffect = ''deny''\<rparr>]\<rparr>
   in handleMessage 9 (demo_ev ''#dev'' ''eve'' ''STARTED task=x'') pd
        = (pd, \<lparr>efSends = [], efCallbacks = [], efCalls = []\<rparr>)
      \<and> map tiName (ListTasks (pdState (fst (handleMessage 9 (demo_ev ''#dev'' ''ann'' ''STARTED task=x'') pd)))) = [''x'']"
proof -
  let ?acl = "[\<lparr>arChannel = [], arNickPattern = ''eve'', arActions = [], arEffect = ''deny''\<rparr>]"
  let ?pd = "(NewProtocolDispatcher ''bot'' NewStateStore NewContextStore)\<lparr>pdAcl := Some ?acl\<rparr>"
  have p: "Parse ''STARTED task=x'' = Inr (mkMessage ActionStarted [(''task'', ''x'')] [])" by code_simp
  have c: "\<not> Check ?acl ''eve'' ''#dev'' ActionStarted" by code_simp
  have "handleMessage 9 (demo_ev ''#dev'' ''eve'' ''STARTED task=x'') ?pd
      = (?pd, \<lparr>efSends = [], efCallbacks = [], efCalls = []\<rparr>)"
    by (rule rejected_message_is_ignored) (simp add: demo_ev_def p c mkMessage_def del: Check.simps)
  moreover have "map tiName (ListTasks (pdState (fst (handleMessage 9
      (demo_ev ''#dev'' ''ann'' ''STARTED task=x'') ?pd)))) = [''x'']" by code_simp
  ultimately show ?thesis by (simp add: Let_def)
qed

section \<open>Sender and receiver agree\<close>

text \<open>Two messages that no store can tell apart.\<close>

definition same_obs :: "Message \<Rightarrow> Message \<Rightarrow> bool" where
  "same_obs m m' \<longleftrightarrow> msgAction m = msgAction m' \<and> Get m = Get m' \<and> msgTags m = msgTags m'
     \<and> msgPayload m = msgPayload m' \<and> msgNick m = msgNick m' \<and> msgChannel m = msgChannel m'
     \<and> msgTimestamp m = msgTimestamp m'"

lemma same_obs_store:
  assumes "same_obs m m'"
  shows "updateTaskState now m = updateTaskState now m'" "updateTaskBoard now m = updateTaskBoard now m'"
    "updateHandoff now m = updateHandoff now m'" "updateReview now m = updateReview now m'"
    "updateConsensus now m = updateConsensus now m'" "updateContext now m = updateContext now m'"
proof -
  from assms have eqs: "msgAction m = msgAction m'" "Get m = Get m'" "msgTags m = msgTags m'"
    "msgPayload m = msgPayload m'" "msgNick m = msgNick m'" "msgChannel m = msgChannel m'"
    "msgTimestamp m = msgTimestamp m'" by (simp_all add: same_obs_def)
  have "switchInfo m = switchInfo m'" "switchDeps now m = switchDeps now m'"
    unfolding switchInfo_def [abs_def] switchDeps_def [abs_def] extractDependenciesLocked_def eqs by (rule refl)+
  then show "updateTaskState now m = updateTaskState now m'"
    by (intro ext) (simp add: updateTaskState_def UpdateTask_def eqs Let_def)
  show "updateTaskBoard now m = updateTaskBoard now m'" "updateHandoff now m = updateHandoff now m'"
    "updateReview now m = updateReview now m'" "updateConsensus now m = updateConsensus now m'"
    "updateContext now m = updateContext now m'"
    unfolding updateTaskBoard_def [abs_def] updateHandoff_def [abs_def] updateReview_def [abs_def]
      updateConsensus_def [abs_def] updateContext_def [abs_def] intField_def Store_def [abs_def]
      StorePayload_def [abs_def] contextEntry_def eqs by (rule refl)+
qed

text \<open>The stores that hold the shared picture of the tasks.\<close>

definition sharedView :: "Dispatcher \<Rightarrow> StateStore \<times> TaskBoard option \<times> HandoffStore option
    \<times> ReviewStore option \<times> ConsensusStore option \<times> ContextEntry gomap" where
  "sharedView pd =
     (pdState pd, pdTaskBoard pd, pdHandoff pd, pdReview pd, pdConsensus pd, ctsEntries (pdContext pd))"

lemma entries_TrackRequest [simp]: "ctsEntries (TrackRequest m cs) = ctsEntries cs"
  by (simp add: TrackRequest_def Let_def)

lemma entries_updateContext:
  "ctsEntries cs = ctsEntries cs' \<Longrightarrow>
   ctsEntries (fst (updateContext now m cs)) = ctsEntries (fst (updateContext now m cs'))"
  by (auto simp: updateContext_def Store_def StorePayload_def putEntry_def FulfillRequest_def Let_def
      split: Action.split option.split)

lemma sharedView_process:
  "sharedView (fst (processMessage now m pd)) =
     (updateTaskState now m (pdState pd), map_option (updateTaskBoard now m) (pdTaskBoard pd),
      map_option (updateHandoff now m) (pdHandoff pd), map_option (updateReview now m) (pdReview pd),
      map_option (updateConsensus now m) (pdConsensus pd), ctsEntries (fst (updateContext now m (pdContext pd))))"
  by (auto simp: processMessage_def sharedView_def updateCoordinationStores_def Let_def case_prod_beta)

lemma sharedView_local:
  "sharedView (fst (updateLocalState now m pd)) =
     (updateTaskState now m (pdState pd), map_option (updateTaskBoard now m) (pdTaskBoard pd),
      map_option (updateHandoff now m) (pdHandoff pd), map_option (updateReview now m) (pdReview pd),
      map_option (updateConsensus now m) (pdConsensus pd), ctsEntries (fst (updateContext now m (pdContext pd))))"
  by (simp add: updateLocalState_def sharedView_def updateCoordinationStores_def Let_def case_prod_beta)

text \<open>The text of a well-formed message is received as that message.\<close>

lemma handleMessage_wire:
  assumes "wf_Message m" "meMessage ev = String_Message m" "pdSelfNick pd \<noteq> meNick ev"
    and "case pdAcl pd of None \<Rightarrow> True | Some acl \<Rightarrow> Check acl (meNick ev) (meChannel ev) (msgAction m)"
  shows "handleMessage now ev pd = processMessage now (enrich now ev (wire_image m)) pd"
  using assms(2-4) printed_is_protocol [OF assms(1)] wire.parse_print [OF assms(1)]
  by (auto simp: handleMessage_def enrich_def Let_def split: option.splits)

lemma receiver_agrees:
  assumes "wf_Message m" "sharedView pdA = sharedView pdB"
    and "meMessage ev = String_Message m" "meChannel ev = ch" "meNick ev = nickA" "meTimestamp ev = t" "t \<noteq> 0"
    and "pdSelfNick pdB \<noteq> nickA"
    and "case pdAcl pdB of None \<Rightarrow> True | Some acl \<Rightarrow> Check acl nickA ch (msgAction m)"
  shows "sharedView (fst (handleMessage now ev pdB)) =
    sharedView (fst (updateLocalState now (m\<lparr>msgChannel := ch, msgNick := nickA, msgTimestamp := t\<rparr>) pdA))"
proof -
  let ?loc = "m\<lparr>msgChannel := ch, msgNick := nickA, msgTimestamp := t\<rparr>"
  let ?rcv = "enrich now ev (wire_image m)"
  have obs: "same_obs ?rcv ?loc"
    using assms(4-7) by (auto simp: same_obs_def enrich_def isZero_def)
  have "handleMessage now ev pdB = processMessage now ?rcv pdB"
    using assms(3-9) by (intro handleMessage_wire [OF assms(1)]) (simp_all split: option.splits)
  moreover have "ctsEntries (pdContext pdB) = ctsEntries (pdContext pdA)"
    using assms(2) by (simp add: sharedView_def)
  then have "ctsEntries (fst (updateContext now ?loc (pdContext pdB))) =
      ctsEntries (fst (updateContext now ?loc (pdContext pdA)))" by (rule entries_updateContext)
  ultimately show ?thesis
    using assms(2) by (simp add: sharedView_process sharedView_local same_obs_store [OF obs])
      (simp add: sharedView_def)
qed



section \<open>Invariants of the stores in a running agent\<close>

definition pd_inv :: "duration \<Rightarrow> goint \<Rightarrow> Dispatcher \<Rightarrow> bool" where
  "pd_inv jitter limit pd \<longleftrightarrow> ss_inv (pdState pd)
     \<and> (\<forall>tb. pdTaskBoard pd = Some tb \<longrightarrow> board_inv jitter tb)
     \<and> (\<forall>rs. pdReview pd = Some rs \<longrightarrow> review_inv limit rs)
     \<and> (\<forall>ds. pdDiscovery pd = Some ds \<longrightarrow> discovery_inv ds)"

lemma ss_inv_updateTaskState: "ss_inv s \<Longrightarrow> ss_inv (updateTaskState now m s)"
  by (simp add: updateTaskState_def Let_def ss_inv_ops)

lemma board_inv_update: "board_inv j tb \<Longrightarrow> board_inv j (updateTaskBoard now m tb)"
  by (simp add: updateTaskBoard_def Let_def board_ops_inv RecordDecline_def RecordYield_def split: Action.split)

lemma review_inv_update: "review_inv n rs \<Longrightarrow> review_inv n (updateReview now m rs)"
  using review_inv_step [of n rs "OpRequest now (Get m ''task'') (Get m ''pr'') (Get m ''review-type'') (msgNick m) (msgChannel m)"]
    review_inv_step [of n rs "OpComplete now (Get m ''task'') (Get m ''pr'') (msgNick m) (Get m ''verdict'') (Get m ''details'') (msgChannel m)"]
    review_inv_step [of n rs "OpGate now (Get m ''task'') (Get m ''gate'') (Get m ''status'') (Get m ''details'') (msgNick m) (msgChannel m)"]
  by (simp add: updateReview_def Let_def split: Action.split)

lemma discovery_inv_capabilities: "discovery_inv ds \<Longrightarrow> discovery_inv (handleCapabilities now m ds)"
  unfolding handleCapabilities_def using discovery_inv_step [of ds "OpUpdate now _"] by simp

lemma pd_inv_process: "pd_inv j n pd \<Longrightarrow> pd_inv j n (fst (processMessage now m pd))"
  by (auto simp: processMessage_def updateCoordinationStores_def Let_def case_prod_beta pd_inv_def
      ss_inv_updateTaskState discovery_inv_capabilities board_inv_update review_inv_update split: option.splits)

lemma pd_inv_handleMessage: "pd_inv j n pd \<Longrightarrow> pd_inv j n (fst (handleMessage now ev pd))"
  by (simp add: handleMessage_def Let_def pd_inv_process split: sum.split)

lemma pd_inv_updateLocalState: "pd_inv j n pd \<Longrightarrow> pd_inv j n (fst (updateLocalState now m pd))"
  by (auto simp: updateLocalState_def updateCoordinationStores_def Let_def case_prod_beta pd_inv_def
      ss_inv_updateTaskState board_inv_update review_inv_update)

text \<open>What can happen to a dispatcher: a text arrives, the agent records its own message, a claim timer fires.\<close>

datatype dispatcher_op =
    Arrive gotime MessageEvent
  | RecordOwn gotime Message
  | ClaimTimer string

fun dispatcher_step :: "dispatcher_op \<Rightarrow> Dispatcher \<Rightarrow> Dispatcher" where
  "dispatcher_step (Arrive now ev) pd = fst (handleMessage now ev pd)"
| "dispatcher_step (RecordOwn now m) pd = fst (updateLocalState now m pd)"
| "dispatcher_step (ClaimTimer task) pd = pd\<lparr>pdTaskBoard := map_option (resolveArbitration task) (pdTaskBoard pd)\<rparr>"

lemma pd_inv_timer: "pd_inv j n pd \<Longrightarrow> pd_inv j n (dispatcher_step (ClaimTimer task) pd)"
  by (auto simp: pd_inv_def resolveArbitration_inv)

lemma pd_inv_step: "pd_inv j n pd \<Longrightarrow> pd_inv j n (dispatcher_step x pd)"
  using pd_inv_timer by (cases x) (simp_all add: pd_inv_handleMessage pd_inv_updateLocalState)

text \<open>The dispatcher as \<^verbatim>\<open>Agent.initProtocol\<close> wires it, with a fresh task store.\<close>

definition wiredDispatcher ::
  "string \<Rightarrow> ACLEngine option \<Rightarrow> duration \<Rightarrow> string list \<Rightarrow> duration \<Rightarrow> goint \<Rightarrow> Dispatcher" where
  "wiredDispatcher nick acl ttl caps jitter limit =
     (NewProtocolDispatcher nick NewStateStore NewContextStore)
       \<lparr>pdAcl := acl, pdDiscovery := Some (NewDiscoveryStore ttl), pdSelfCaps := caps,
        pdTaskBoard := Some (NewTaskBoard jitter), pdHandoff := Some NewHandoffStore,
        pdReview := Some (NewReviewStore limit), pdConsensus := Some NewConsensusStore\<rparr>"

lemma pd_inv_wired: "pd_inv jitter limit (wiredDispatcher nick acl ttl caps jitter limit)"
  using board_inv_New [of jitter] reviews.inv_init [of limit] discovery.inv_init [of ttl] ss_inv_New
  by (simp add: pd_inv_def wiredDispatcher_def NewProtocolDispatcher_def)

interpretation dispatcher: guarded_store "wiredDispatcher nick acl ttl caps jitter limit" dispatcher_step "pd_inv jitter limit"
  for nick acl ttl caps jitter limit
  by unfold_locales (rule pd_inv_wired, rule pd_inv_step)

text \<open>
  C2.  Whatever arrives from the network, in whatever order, mixed with the agent's own messages and claim
  timers, the agent's unresolved task dependencies never form a cycle, its claims and timers stay paired, and
  its review rounds are counted correctly: no sender can bring the stores out of shape.
\<close>

theorem network_keeps_stores_sound:
  "let pd = fold dispatcher_step xs (wiredDispatcher nick acl ttl caps jitter limit)
   in acyclic (openEdges (AllDependencies (pdState pd)))
      \<and> (case pdTaskBoard pd of
           None \<Rightarrow> True
         | Some tb \<Rightarrow> (PendingClaims tb task \<noteq> []) = (map_of (tbTimers tb) task \<noteq> None))
      \<and> (case pdReview pd of
           None \<Rightarrow> True
         | Some rs \<Rightarrow> rsmTotalReviews (Summary rs task) = rsmIterationCount (Summary rs task))"
proof -
  let ?pd = "fold dispatcher_step xs (wiredDispatcher nick acl ttl caps jitter limit)"
  have inv: "pd_inv jitter limit ?pd" by (rule dispatcher.inv_run)
  have "rsmTotalReviews (Summary rs task) = rsmIterationCount (Summary rs task)" if "review_inv limit rs" for rs
    using that rounds_length [of task] by (simp add: review_inv_def Summary_def fold_countReview Let_def)
  with inv show ?thesis
    using board_inv_timers [of jitter _ task]
    by (auto simp: Let_def pd_inv_def ss_inv_def deps_inv_def AllDependencies_def PendingClaims_def split: option.split)
qed

section \<open>Replies\<close>

text \<open>
  Replies to a request go to the channel field of the event.  For a private message that field is the
  agent's own nick, so the fall-back to the sender is not taken and the reply goes to the agent itself.
\<close>

lemma private_request_answered_to_self:
  assumes "Parse (meMessage ev) = Inr m" "msgAction m = ActionRequestContext" "meChannel ev = pdSelfNick pd"
    and "pdSelfNick pd \<noteq> []" "(target, text) \<in> set (efSends (snd (handleMessage now ev pd)))"
  shows "target = pdSelfNick pd"
  using assms
  by (auto simp: handleMessage_def noEffects_def processMessage_def enrich_def Let_def case_prod_beta
      HandleContextRequest_def updateCoordinationStores_def split: if_splits option.splits)

end
