(* ===== verification/Sanitizer.thy ===== *)
theory Sanitizer
  imports Protocol
begin

text \<open>
  The credential filter of \<^verbatim>\<open>pkg/protocol/sanitizer.go\<close>.  The five regular expressions are written as
  data (a sequence of repeated byte-string classes) and matched by a backtracking function; the
  theory proves that the function decides the language the expressions denote, and states what a
  message that passes \<open>Sanitize\<close> cannot contain.
\<close>

section \<open>The fragment of regular expressions in use\<close>

text \<open>
  An item is a character class, a minimal count and whether more repetitions are allowed.  A class is
  the list of the UTF-8 encodings of its runes: under the flag \<^verbatim>\<open>(?i)\<close> the letters k and s also match
  U+212A and U+017F, which are three and two bytes long.
\<close>

type_synonym char_class = "string list"
type_synonym re_item = "char_class \<times> nat \<times> bool"

definition chars :: "string \<Rightarrow> char_class" where
  "chars s = map (\<lambda>c. [c]) s"

definition kelvin_sign :: string where
  "kelvin_sign = [CHR 0xE2, CHR 0x84, CHR 0xAA]"

definition long_s :: string where
  "long_s = [CHR 0xC5, CHR 0xBF]"

definition one :: "string \<Rightarrow> re_item" where
  "one s = (chars s, 1, False)"

definition upper_letters :: string where
  "upper_letters = ''ABCDEFGHIJKLMNOPQRSTUVWXYZ''"

definition lower_letters :: string where
  "lower_letters = ''abcdefghijklmnopqrstuvwxyz''"

definition alnum :: string where
  "alnum = digit_chars @ upper_letters @ lower_letters"

definition alnum_fold :: char_class where
  "alnum_fold = chars alnum @ [kelvin_sign, long_s]"

definition aws_key :: "re_item list" where
  "aws_key =
     [one ''Aa'', (chars ''Kk'' @ [kelvin_sign], 1, False), one ''Ii'', one ''Aa'', (alnum_fold, 16, False)]"

definition bearer_token :: "re_item list" where
  "bearer_token =
     [one ''Bb'', one ''Ee'', one ''Aa'', one ''Rr'', one ''Ee'', one ''Rr'',
      (chars [CHR 0x09, CHR 0x0A, CHR 0x0C, CHR 0x0D, CHR 0x20], 1, True),
      (alnum_fold @ chars ''-_.'', 1, True)]"

definition long_hex :: "re_item list" where
  "long_hex = [(chars ''0123456789abcdefABCDEF'', 40, True)]"

definition github_token :: "re_item list" where
  "github_token = [one ''g'', one ''h'', one ''ps'', one ''_'', (chars (alnum @ ''_''), 36, True)]"

definition slack_token :: "re_item list" where
  "slack_token = [one ''x'', one ''o'', one ''x'', one ''bpras'', one ''-'', (chars (alnum @ ''-''), 1, True)]"

definition credentialPatterns :: "re_item list list" where
  "credentialPatterns = [aws_key, bearer_token, long_hex, github_token, slack_token]"

text \<open>The language of a sequence of items, and matching at a position.\<close>

fun item_lang :: "re_item \<Rightarrow> string set" where
  "item_lang (c, n, rep) =
     {concat ws | ws. set ws \<subseteq> set c \<and> (if rep then n \<le> length ws else length ws = n)}"

fun re_lang :: "re_item list \<Rightarrow> string set" where
  "re_lang [] = {[]}"
| "re_lang (i # is) = {u @ v | u v. u \<in> item_lang i \<and> v \<in> re_lang is}"

function match_here :: "re_item list \<Rightarrow> string \<Rightarrow> bool" where
  "match_here [] s = True"
| "match_here ((c, Suc n, rep) # is) s =
     list_ex (\<lambda>a. if a \<noteq> [] \<and> prefix a s
                  then match_here ((c, n, rep) # is) (drop (length a) s) else False) c"
| "match_here ((c, 0, rep) # is) s =
     (if match_here is s then True
      else rep \<and> list_ex (\<lambda>a. if a \<noteq> [] \<and> prefix a s
                  then match_here ((c, 0, rep) # is) (drop (length a) s) else False) c)"
  by pat_completeness auto
termination
  by (relation "measures [\<lambda>(is, s). length is, \<lambda>(is, s). length s]") (auto simp: prefix_def)

fun MatchString :: "re_item list \<Rightarrow> string \<Rightarrow> bool" where
  "MatchString p [] = match_here p []"
| "MatchString p (c # s) = (if match_here p (c # s) then True else MatchString p s)"

section \<open>The matcher decides the language\<close>

definition wf_items :: "re_item list \<Rightarrow> bool" where
  "wf_items is \<longleftrightarrow> list_all (\<lambda>(c, n, rep). [] \<notin> set c) is"

lemma item_lang_Cons:
  "u \<in> item_lang (c, Suc n, rep) \<longleftrightarrow> (\<exists>a v. u = a @ v \<and> a \<in> set c \<and> v \<in> item_lang (c, n, rep))"
  (is "?l \<longleftrightarrow> ?r")
proof
  assume ?l
  then obtain ws where u: "u = concat ws" and ws: "set ws \<subseteq> set c"
    "if rep then Suc n \<le> length ws else length ws = Suc n" by auto
  from ws(2) obtain a vs where "ws = a # vs" by (cases ws) (auto split: if_splits)
  with u ws show ?r by (intro exI [of _ a] exI [of _ "concat vs"]) (auto split: if_splits)
next
  assume ?r
  then obtain a ws where u: "u = a @ concat ws" and ws: "a \<in> set c" "set ws \<subseteq> set c"
    "if rep then n \<le> length ws else length ws = n" by auto
  then show ?l by (auto intro!: exI [of _ "a # ws"] split: if_splits)
qed

lemma item_lang_rep:
  "u \<in> item_lang (c, 0, True) \<longleftrightarrow> u = [] \<or> (\<exists>a v. u = a @ v \<and> a \<in> set c \<and> v \<in> item_lang (c, 0, True))"
  (is "?l \<longleftrightarrow> ?r")
proof
  assume ?l
  then obtain ws where "u = concat ws" "set ws \<subseteq> set c" by auto
  then show ?r by (cases ws) auto
next
  assume ?r
  then consider "u = []" | a ws where "u = a @ concat ws" "a \<in> set c" "set ws \<subseteq> set c" by auto
  then show ?l
  proof cases
    case 1
    then show ?thesis by (auto intro: exI [of _ "[]"])
  next
    case 2
    then show ?thesis by (auto intro!: exI [of _ "a # ws"])
  qed
qed

declare item_lang.simps [simp del]

definition starts_in :: "re_item list \<Rightarrow> string \<Rightarrow> bool" where
  "starts_in is s \<longleftrightarrow> (\<exists>u. prefix u s \<and> u \<in> re_lang is)"

lemma starts_in_append: "(\<exists>v. prefix (a @ v) s \<and> v \<in> re_lang is) \<longleftrightarrow> prefix a s \<and> starts_in is (drop (length a) s)"
  by (auto simp: prefix_def starts_in_def) blast+

lemma re_lang_appI: "u \<in> item_lang i \<Longrightarrow> v \<in> re_lang is \<Longrightarrow> u @ v \<in> re_lang (i # is)"
  by auto

lemma re_lang_appE:
  assumes "x \<in> re_lang (i # is)"
  obtains u v where "x = u @ v" "u \<in> item_lang i" "v \<in> re_lang is"
  using assms by auto

lemma re_lang_Suc:
  "u \<in> re_lang ((c, Suc n, rep) # is) \<longleftrightarrow> (\<exists>a v. u = a @ v \<and> a \<in> set c \<and> v \<in> re_lang ((c, n, rep) # is))"
  by (auto simp: item_lang_Cons) (metis append.assoc)+

lemma re_lang_repI:
  assumes "a \<in> set c" "v \<in> re_lang ((c, 0, True) # is)"
  shows "a @ v \<in> re_lang ((c, 0, True) # is)"
proof -
  from assms(2) obtain x y where v: "v = x @ y" "x \<in> item_lang (c, 0, True)" "y \<in> re_lang is"
    by (rule re_lang_appE)
  with assms(1) have "a @ x \<in> item_lang (c, 0, True)" by (subst item_lang_rep) blast
  from re_lang_appI [OF this v(3)] v(1) show ?thesis by simp
qed

lemma re_lang_skipI: "u \<in> re_lang is \<Longrightarrow> u \<in> re_lang ((c, 0, True) # is)"
proof -
  assume u: "u \<in> re_lang is"
  have "[] \<in> item_lang (c, 0, True)" by (subst item_lang_rep) simp
  from re_lang_appI [OF this u] show ?thesis by (simp del: re_lang.simps)
qed

lemma re_lang_repE:
  assumes "u \<in> re_lang ((c, 0, True) # is)"
  obtains (skip) "u \<in> re_lang is"
    | (more) a v where "u = a @ v" "a \<in> set c" "v \<in> re_lang ((c, 0, True) # is)"
proof -
  from assms obtain x y where u: "u = x @ y" "x \<in> item_lang (c, 0, True)" "y \<in> re_lang is"
    by (rule re_lang_appE)
  from u(2) item_lang_rep [of x c]
  consider "x = []" | a z where "x = a @ z" "a \<in> set c" "z \<in> item_lang (c, 0, True)" by blast
  then show thesis
  proof cases
    case 1
    with u skip show ?thesis by simp
  next
    case 2
    with u more [of a "z @ y"] re_lang_appI show ?thesis by simp
  qed
qed

lemma starts_in_Suc:
  "starts_in ((c, Suc n, rep) # is) s \<longleftrightarrow>
     (\<exists>a \<in> set c. prefix a s \<and> starts_in ((c, n, rep) # is) (drop (length a) s))"
  unfolding starts_in_append [symmetric] starts_in_def [of "(c, Suc n, rep) # is"] re_lang_Suc by blast

lemma starts_in_rep:
  "starts_in ((c, 0, True) # is) s \<longleftrightarrow> starts_in is s \<or>
     (\<exists>a \<in> set c. prefix a s \<and> starts_in ((c, 0, True) # is) (drop (length a) s))"
proof
  assume "starts_in ((c, 0, True) # is) s"
  then obtain u where u: "prefix u s" "u \<in> re_lang ((c, 0, True) # is)" by (auto simp only: starts_in_def)
  from u(2) show "starts_in is s \<or>
     (\<exists>a \<in> set c. prefix a s \<and> starts_in ((c, 0, True) # is) (drop (length a) s))"
  proof (cases rule: re_lang_repE)
    case skip
    with u(1) show ?thesis by (auto simp only: starts_in_def)
  next
    case (more a v)
    then have "prefix a s \<and> starts_in ((c, 0, True) # is) (drop (length a) s)"
      using u(1) by (subst starts_in_append [symmetric]) blast
    with more(2) show ?thesis by blast
  qed
next
  assume "starts_in is s \<or>
     (\<exists>a \<in> set c. prefix a s \<and> starts_in ((c, 0, True) # is) (drop (length a) s))"
  then show "starts_in ((c, 0, True) # is) s"
    unfolding starts_in_append [symmetric] unfolding starts_in_def
    using re_lang_skipI re_lang_repI by metis
qed

lemma starts_in_no_rep: "starts_in ((c, 0, False) # is) s \<longleftrightarrow> starts_in is s"
  by (auto simp: starts_in_def item_lang.simps)

lemma match_here_correct: "wf_items is \<Longrightarrow> match_here is s \<longleftrightarrow> starts_in is s"
proof (induction "is" s rule: match_here.induct)
  case (1 s)
  then show ?case by (simp add: starts_in_def)
next
  case (2 c n rep "is" s)
  have "wf_items ((c, n, rep) # is)" "[] \<notin> set c" using 2(2) by (auto simp: wf_items_def)
  then have "list_ex (\<lambda>a. if a \<noteq> [] \<and> prefix a s
      then match_here ((c, n, rep) # is) (drop (length a) s) else False) c \<longleftrightarrow>
    (\<exists>a \<in> set c. prefix a s \<and> starts_in ((c, n, rep) # is) (drop (length a) s))"
    unfolding list_ex_iff using 2(1) by (intro bex_cong refl) metis
  then show ?case by (simp only: match_here.simps starts_in_Suc)
next
  case (3 c rep "is" s)
  have wf: "wf_items is" "[] \<notin> set c" using 3(3) by (auto simp: wf_items_def)
  show ?case
  proof (cases rep)
    case False
    with 3(1) wf(1) show ?thesis by (simp add: starts_in_no_rep)
  next
    case True
    with 3(2,3) have "list_ex (\<lambda>a. if a \<noteq> [] \<and> prefix a s
        then match_here ((c, 0, rep) # is) (drop (length a) s) else False) c \<longleftrightarrow>
      (\<exists>a \<in> set c. prefix a s \<and> starts_in ((c, 0, True) # is) (drop (length a) s))"
      if "\<not> match_here is s"
      unfolding list_ex_iff using that wf(2) by (intro bex_cong refl) metis
    moreover have "starts_in ((c, 0, rep) # is) s \<longleftrightarrow> starts_in is s \<or>
        (\<exists>a \<in> set c. prefix a s \<and> starts_in ((c, 0, True) # is) (drop (length a) s))"
      using starts_in_rep [of c "is" s] True by simp
    ultimately show ?thesis
      using True 3(1) [OF wf(1)] by (subst match_here.simps) argo
  qed
qed

text \<open>A string contains a match when some factor of it is in the language.\<close>

definition contains_match :: "re_item list \<Rightarrow> string \<Rightarrow> bool" where
  "contains_match p s \<longleftrightarrow> (\<exists>u v w. s = u @ v @ w \<and> v \<in> re_lang p)"

lemma contains_match_suffix: "contains_match p s \<longleftrightarrow> (\<exists>u t. s = u @ t \<and> starts_in p t)"
  by (auto simp: contains_match_def starts_in_def prefix_def)

lemma MatchString_correct: "wf_items p \<Longrightarrow> MatchString p s \<longleftrightarrow> contains_match p s"
proof (induction p s rule: MatchString.induct)
  case (1 p)
  then show ?case by (simp add: match_here_correct contains_match_suffix)
next
  case (2 p c s)
  then show ?case
    by (simp only: MatchString.simps match_here_correct contains_match_suffix) (auto simp: Cons_eq_append_conv)
qed

lemma wf_credentialPatterns: "list_all wf_items credentialPatterns"
  by code_simp

section \<open>Sanitize\<close>

definition sensitiveKeys :: "string list" where
  "sensitiveKeys =
    [''password'', ''passwd'', ''secret'', ''token'', ''api_key'', ''apikey'', ''api-key'', ''auth'',
     ''credential'', ''credentials'', ''private_key'', ''private-key'', ''access_key'', ''access-key'',
     ''secret_key'', ''secret-key'']"

definition credentialLike :: "string \<Rightarrow> bool" where
  "credentialLike v \<longleftrightarrow> list_ex (\<lambda>pat. MatchString pat v) credentialPatterns"

definition Sanitize :: "Message \<Rightarrow> proto_error option" where
  "Sanitize msg =
     (case find (\<lambda>(k, v). ToLower k \<in> set sensitiveKeys) (msgFields msg) of
        Some (k, v) \<Rightarrow> Some (ErrCredentialDetected (SensitiveKey k))
      | None \<Rightarrow>
          (case find (\<lambda>(k, v). credentialLike v) (msgFields msg) of
             Some (k, v) \<Rightarrow> Some (ErrCredentialDetected (PatternInField k))
           | None \<Rightarrow>
               if msgPayload msg \<noteq> [] \<and> credentialLike (msgPayload msg)
               then Some (ErrCredentialDetected PatternInPayload)
               else None))"

lemma credentialLike_iff: "credentialLike v \<longleftrightarrow> (\<exists>p \<in> set credentialPatterns. contains_match p v)"
  using wf_credentialPatterns by (auto simp: credentialLike_def list_ex_iff list_all_iff MatchString_correct)

lemma credentialLike_Nil [simp]: "\<not> credentialLike []"
  by code_simp

lemma Sanitize_None_iff:
  "Sanitize m = None \<longleftrightarrow>
     (\<forall>(k, v) \<in> set (msgFields m). ToLower k \<notin> set sensitiveKeys \<and> \<not> credentialLike v)
     \<and> \<not> credentialLike (msgPayload m)"
proof -
  have "Sanitize m = None \<longleftrightarrow>
      find (\<lambda>(k, v). ToLower k \<in> set sensitiveKeys) (msgFields m) = None
      \<and> find (\<lambda>(k, v). credentialLike v) (msgFields m) = None
      \<and> \<not> (msgPayload m \<noteq> [] \<and> credentialLike (msgPayload m))"
    by (simp add: Sanitize_def split: option.split)
  then show ?thesis by (auto simp: find_None_iff)
qed

lemma Sanitize_Some: "Sanitize m = Some e \<Longrightarrow> \<exists>r. e = ErrCredentialDetected r"
  by (auto simp: Sanitize_def split: option.splits if_splits)

text \<open>
  C13.  \<open>Sanitize\<close> accepts a message exactly when no field name is a sensitive word in any case and no
  field value and not the payload has a factor in the language of a credential pattern; otherwise the
  error is \<^verbatim>\<open>ErrCredentialDetected\<close> and nothing else.
\<close>

theorem sanitize_correct:
  "(Sanitize m = None \<longleftrightarrow>
      (\<forall>k \<in> set (mkeys (msgFields m)). ToLower k \<notin> set sensitiveKeys) \<and>
      (\<forall>t \<in> insert (msgPayload m) (set (mvals (msgFields m))). \<forall>p \<in> set credentialPatterns.
         \<nexists>u v w. t = u @ v @ w \<and> v \<in> re_lang p))
   \<and> (\<forall>e. Sanitize m = Some e \<longrightarrow> (\<exists>r. e = ErrCredentialDetected r))"
proof -
  have "Sanitize m = None \<longleftrightarrow>
      (\<forall>k \<in> set (mkeys (msgFields m)). ToLower k \<notin> set sensitiveKeys) \<and>
      (\<forall>t \<in> insert (msgPayload m) (set (mvals (msgFields m))). \<not> credentialLike t)"
    by (force simp: Sanitize_None_iff)
  then show ?thesis
    unfolding credentialLike_iff contains_match_def using Sanitize_Some by blast
qed

theorem sanitize_correct_witness:
  "Sanitize (mkMessage ActionStarted [(''task'', ''use Bearer abc.def'')] []) \<noteq> None
   \<and> (\<exists>t \<in> {[], ''use Bearer abc.def''}. \<exists>p \<in> set credentialPatterns.
        \<exists>u v w. t = u @ v @ w \<and> v \<in> re_lang p)"
proof -
  let ?m = "mkMessage ActionStarted [(''task'', ''use Bearer abc.def'')] []"
  have s: "Sanitize ?m \<noteq> None" by code_simp
  have k: "ToLower ''task'' \<notin> set sensitiveKeys" by code_simp
  from sanitize_correct [of ?m] s k show ?thesis by (auto simp: mkMessage_def)
qed

text \<open>
  \<open>Sanitize\<close> never looks at the tags: a token written as a tag passes, although the tags are part of
  the text that is sent.
\<close>

theorem sanitize_ignores_tags:
  "Sanitize (m\<lparr>msgTags := ts\<rparr>) = Sanitize m
   \<and> Sanitize (mkMessage ActionStarted [] [''xoxb-1234'']) = None
   \<and> credentialLike (String_Message (mkMessage ActionStarted [] [''xoxb-1234'']))"
proof (intro conjI)
  show "Sanitize (m\<lparr>msgTags := ts\<rparr>) = Sanitize m" by (simp add: Sanitize_def cong: option.case_cong)
  show "Sanitize (mkMessage ActionStarted [] [''xoxb-1234'']) = None" by code_simp
  show "credentialLike (String_Message (mkMessage ActionStarted [] [''xoxb-1234'']))" by code_simp
qed

end
