(* ===== verification/Notifier.thy ===== *)
theory Notifier
  imports Protocol IrcEvents
begin

text \<open>
  Notification routing of \<^verbatim>\<open>internal/agent/notifier.go\<close>.  The formatter verb \<^verbatim>\<open>%q\<close> quotes a string with Go's
  table of printable characters; it enters the default formatter as an argument \<open>q\<close>, about which nothing is
  assumed.
\<close>

text \<open>An event is a string in the source; \<open>NotifyOther\<close> is any string but the eighteen constants.\<close>

datatype NotificationEvent =
    NotifyTaskCompleted | NotifyTaskBlocked | NotifyTaskStarted | NotifyHelpNeeded | NotifyContextUpdate
  | NotifyUnblocked | NotifyTaskOffered | NotifyTaskClaimed | NotifyTaskAssigned | NotifyTaskYielded
  | NotifyCheckpoint | NotifyHandoff | NotifyReviewRequested | NotifyReviewCompleted | NotifyGatePassed
  | NotifyGateFailed | NotifyVote | NotifyEscalation | NotifyOther string

type_synonym NotificationFormatter = "NotificationEvent \<Rightarrow> Message \<Rightarrow> string"

record NotificationRule =
  nrEvent :: NotificationEvent
  nrChannel :: string
  nrFormatter :: "NotificationFormatter option"

type_synonym Notifier = "NotificationRule list"

definition NewNotifier :: Notifier where
  "NewNotifier = []"

definition AddRule :: "NotificationRule \<Rightarrow> Notifier \<Rightarrow> Notifier" where
  "AddRule rule n = n @ [rule]"

definition RemoveRulesForEvent :: "NotificationEvent \<Rightarrow> Notifier \<Rightarrow> Notifier" where
  "RemoveRulesForEvent event n = filter (\<lambda>r. nrEvent r \<noteq> event) n"

definition RemoveRulesForChannel :: "string \<Rightarrow> Notifier \<Rightarrow> Notifier" where
  "RemoveRulesForChannel channel n = filter (\<lambda>r. nrChannel r \<noteq> channel) n"

definition Rules :: "Notifier \<Rightarrow> NotificationRule list" where
  "Rules n = n"

definition actionToEvent :: "Action \<Rightarrow> NotificationEvent option" where
  "actionToEvent action =
     (case action of
        ActionCompleted \<Rightarrow> Some NotifyTaskCompleted
      | ActionBlocked \<Rightarrow> Some NotifyTaskBlocked
      | ActionStarted \<Rightarrow> Some NotifyTaskStarted
      | ActionHelpNeeded \<Rightarrow> Some NotifyHelpNeeded
      | ActionContext \<Rightarrow> Some NotifyContextUpdate
      | ActionAcknowledged \<Rightarrow> Some NotifyUnblocked
      | ActionOffer \<Rightarrow> Some NotifyTaskOffered
      | ActionClaim \<Rightarrow> Some NotifyTaskClaimed
      | ActionAssign \<Rightarrow> Some NotifyTaskAssigned
      | ActionYield \<Rightarrow> Some NotifyTaskYielded
      | ActionCheckpoint \<Rightarrow> Some NotifyCheckpoint
      | ActionHandoff \<Rightarrow> Some NotifyHandoff
      | ActionReviewRequest \<Rightarrow> Some NotifyReviewRequested
      | ActionReviewComplete \<Rightarrow> Some NotifyReviewCompleted
      | ActionGateCheck \<Rightarrow> Some NotifyGatePassed
      | ActionVote \<Rightarrow> Some NotifyVote
      | ActionEscalate \<Rightarrow> Some NotifyEscalation
      | _ \<Rightarrow> None)"

definition DefaultNotificationFormatter :: "(string \<Rightarrow> string) \<Rightarrow> NotificationFormatter" where
  "DefaultNotificationFormatter q event msg =
     (let task = Get msg ''task''; nick = msgNick msg; channel = msgChannel msg
      in case event of
           NotifyTaskCompleted \<Rightarrow> ''[COMPLETED] '' @ nick @ '' completed task '' @ q task @ '' in '' @ channel
         | NotifyTaskBlocked \<Rightarrow>
             (let waitFor = Get msg ''waiting-for''
              in if waitFor \<noteq> []
                 then ''[BLOCKED] '' @ nick @ '' blocked on task '' @ q task @ '' waiting for '' @ waitFor
                 else ''[BLOCKED] '' @ nick @ '' blocked on task '' @ q task)
         | NotifyTaskStarted \<Rightarrow> ''[STARTED] '' @ nick @ '' started task '' @ q task @ '' in '' @ channel
         | NotifyHelpNeeded \<Rightarrow>
             (let expertise = Get msg ''expertise''
              in if expertise \<noteq> []
                 then ''[HELP-NEEDED] '' @ nick @ '' needs help with '' @ q task @ '' (expertise: '' @ expertise @ '')''
                 else ''[HELP-NEEDED] '' @ nick @ '' needs help with '' @ q task)
         | NotifyContextUpdate \<Rightarrow>
             ''[CONTEXT] '' @ nick @ '' updated context for '' @ q (Get msg ''component'')
         | NotifyUnblocked \<Rightarrow>
             (let unblockedBy = Get msg ''unblocked-by''
              in if unblockedBy \<noteq> []
                 then ''[UNBLOCKED] task '' @ q task @ '' unblocked by completion of '' @ q unblockedBy
                 else ''[UNBLOCKED] task '' @ q task @ '' unblocked'')
         | NotifyTaskOffered \<Rightarrow> ''[OFFERED] '' @ nick @ '' offered task '' @ q task @ '' in '' @ channel
         | NotifyTaskClaimed \<Rightarrow> ''[CLAIMED] '' @ nick @ '' claimed task '' @ q task
         | NotifyTaskAssigned \<Rightarrow> ''[ASSIGNED] '' @ nick @ '' assigned task '' @ q task @ '' to '' @ Get msg ''to''
         | NotifyTaskYielded \<Rightarrow> ''[YIELDED] '' @ nick @ '' yielded task '' @ q task
         | NotifyCheckpoint \<Rightarrow>
             ''[CHECKPOINT] '' @ nick @ '' checkpoint on '' @ q task @ '': '' @ Get msg ''progress'' @ ''% - ''
               @ Get msg ''summary''
         | NotifyHandoff \<Rightarrow> ''[HANDOFF] '' @ nick @ '' handed off '' @ q task @ '' to '' @ Get msg ''to''
         | NotifyReviewRequested \<Rightarrow>
             ''[REVIEW-REQUEST] '' @ nick @ '' requested '' @ Get msg ''review-type'' @ '' review for '' @ q task
         | NotifyReviewCompleted \<Rightarrow>
             ''[REVIEW-COMPLETE] '' @ nick @ '' reviewed '' @ q task @ '': '' @ Get msg ''verdict''
         | NotifyGatePassed \<Rightarrow>
             ''[GATE-CHECK] '' @ nick @ '' gate '' @ q (Get msg ''gate'') @ '' for '' @ q task @ '': '' @ Get msg ''status''
         | NotifyGateFailed \<Rightarrow>
             ''[GATE-FAILED] '' @ nick @ '' gate '' @ q (Get msg ''gate'') @ '' for '' @ q task @ '' failed: ''
               @ Get msg ''details''
         | NotifyVote \<Rightarrow>
             ''[VOTE] '' @ nick @ '' voted '' @ q (Get msg ''choice'') @ '' on topic '' @ q (Get msg ''topic'')
         | NotifyEscalation \<Rightarrow>
             ''[ESCALATE] '' @ nick @ '' escalated '' @ q task @ '' to '' @ Get msg ''to'' @ '': '' @ Get msg ''reason''
               @ '' (severity: '' @ Get msg ''severity'' @ '')''
         | NotifyOther _ \<Rightarrow> [])"

text \<open>The event of a message after the two checks of \<^verbatim>\<open>HandleMessage\<close>.\<close>

definition messageEvent :: "Message \<Rightarrow> NotificationEvent option" where
  "messageEvent msg =
     (case actionToEvent (msgAction msg) of
        None \<Rightarrow> None
      | Some event \<Rightarrow>
          let event = (if msgAction msg = ActionAcknowledged \<and> HasTag msg ''auto-unblock''
                       then NotifyUnblocked else event);
              event = (if msgAction msg = ActionGateCheck \<and> Get msg ''status'' = ''failed''
                       then NotifyGateFailed else event)
          in Some event)"

definition HandleNotification :: "(string \<Rightarrow> string) \<Rightarrow> Notifier \<Rightarrow> Message \<Rightarrow> outbox" where
  "HandleNotification q n msg =
     (case messageEvent msg of
        None \<Rightarrow> []
      | Some event \<Rightarrow>
          concat (map (\<lambda>rule.
             let text = DefaultNotificationFormatter q event msg;
                 text = (case nrFormatter rule of None \<Rightarrow> text | Some f \<Rightarrow> f event msg)
             in if text \<noteq> [] then [(nrChannel rule, text)] else [])
            (filter (\<lambda>r. nrEvent r = event) n)))"

section \<open>Routing\<close>

lemma messageEvent_not_other: "messageEvent msg \<noteq> Some (NotifyOther e)"
  by (auto simp: messageEvent_def actionToEvent_def Let_def split: Action.splits)

lemma default_text_nonempty:
  "messageEvent msg = Some event \<Longrightarrow> DefaultNotificationFormatter q event msg \<noteq> []"
  using messageEvent_not_other [of msg]
  by (cases event) (auto simp: DefaultNotificationFormatter_def Let_def)

lemma HandleNotification_default:
  assumes "messageEvent msg = Some event" "list_all (\<lambda>r. nrFormatter r = None) n"
  shows "HandleNotification q n msg =
    map (\<lambda>r. (nrChannel r, DefaultNotificationFormatter q event msg)) (filter (\<lambda>r. nrEvent r = event) n)"
proof -
  have "concat (map (\<lambda>rule.
             let text = DefaultNotificationFormatter q event msg;
                 text = (case nrFormatter rule of None \<Rightarrow> text | Some f \<Rightarrow> f event msg)
             in if text \<noteq> [] then [(nrChannel rule, text)] else []) rs) =
      map (\<lambda>r. (nrChannel r, DefaultNotificationFormatter q event msg)) rs"
    if "\<forall>r \<in> set rs. nrFormatter r = None" for rs
    using that default_text_nonempty [OF assms(1), of q] by (induction rs) (auto simp: Let_def)
  from this [of "filter (\<lambda>r. nrEvent r = event) n"] show ?thesis
    using assms by (simp add: HandleNotification_def list_all_iff)
qed

text \<open>
  Every acknowledgement is announced as an unblocking: the table maps the action to that event already, so
  the check for the tag of automatic unblocking changes nothing.
\<close>

lemma acknowledged_is_unblocked:
  "msgAction msg = ActionAcknowledged \<Longrightarrow> messageEvent msg = Some NotifyUnblocked"
  by (simp add: messageEvent_def actionToEvent_def)

end
