(* ===== verification/Inspector.thy ===== *)
theory Inspector
  imports StateGraph
begin

text \<open>
  The debug inspector of \<^verbatim>\<open>internal/agent/inspector.go\<close>: a ring buffer of messages and queries over the
  task graph.  The ring buffer is a slice of fixed length with a write position and a flag; it refines the
  list of everything that was recorded.
\<close>

record TaskGraphNode =
  tgTask :: TaskInfo
  tgBlockedBy :: "DependencyEdge list"
  tgBlocking :: "DependencyEdge list"

record BlockedChainEntry =
  bcTaskName :: string
  bcStatus :: string
  bcResolved :: bool

record AgentActivitySummary =
  aaNick :: string
  aaChannel :: string
  aaTaskName :: string
  aaUpdatedAt :: gotime

record MessageLogEntry =
  mlTimestamp :: gotime
  mlDirection :: string
  mlChannel :: string
  mlNick :: string
  mlAction :: string
  mlRaw :: string

record DebugInspector =
  diMsgLog :: "MessageLogEntry list"
  diMaxLog :: nat
  diLogPos :: nat
  diLogFull :: bool

definition zeroLogEntry :: MessageLogEntry where
  "zeroLogEntry = \<lparr>mlTimestamp = 0, mlDirection = [], mlChannel = [], mlNick = [], mlAction = [], mlRaw = []\<rparr>"

definition NewDebugInspector :: "goint \<Rightarrow> DebugInspector" where
  "NewDebugInspector maxLogEntries =
     (let n = nat (if maxLogEntries \<le> 0 then 1000 else maxLogEntries)
      in \<lparr>diMsgLog = replicate n zeroLogEntry, diMaxLog = n, diLogPos = 0, diLogFull = False\<rparr>)"

definition TaskGraph :: "StateStore \<Rightarrow> TaskGraphNode list" where
  "TaskGraph s =
     map (\<lambda>task. \<lparr>tgTask = task, tgBlockedBy = BlockersOf s (tiName task) True,
                   tgBlocking = BlockedBy s (tiName task) True\<rparr>) (ListTasks s)"

definition BlockedChain :: "StateStore \<Rightarrow> string \<Rightarrow> BlockedChainEntry list" where
  "BlockedChain s taskName =
     map (\<lambda>depName.
        \<lparr>bcTaskName = depName,
         bcStatus = (case GetTask s depName of None \<Rightarrow> [] | Some info \<Rightarrow> status_string (tiStatus info)),
         bcResolved = (case find (\<lambda>e. deBlockedBy e = depName) (BlockersOf s taskName True) of
                         None \<Rightarrow> False | Some e \<Rightarrow> deResolved e)\<rparr>) (TransitiveDependencies s taskName)"

definition AgentActivity :: "StateStore \<Rightarrow> AgentActivitySummary list" where
  "AgentActivity s =
     map (\<lambda>a. \<lparr>aaNick = asNick a, aaChannel = asChannel a, aaTaskName = asTaskName a,
                aaUpdatedAt = asUpdatedAt a\<rparr>) (ListAgents s)"

definition RecordMessage :: "MessageLogEntry \<Rightarrow> DebugInspector \<Rightarrow> DebugInspector" where
  "RecordMessage entry d =
     (let d = d\<lparr>diMsgLog := (diMsgLog d)[diLogPos d := entry]\<rparr>;
          d = d\<lparr>diLogPos := diLogPos d + 1\<rparr>
      in if diLogPos d \<ge> diMaxLog d then d\<lparr>diLogPos := 0, diLogFull := True\<rparr> else d)"

definition RecentMessages :: "goint \<Rightarrow> DebugInspector \<Rightarrow> MessageLogEntry list" where
  "RecentMessages n d =
     (let total = (if diLogFull d then diMaxLog d else diLogPos d);
          n = (if n \<le> 0 \<or> n > int total then total else nat n)
      in if n = 0 then []
         else if diLogFull d then
           let start = (diLogPos d + diMaxLog d - n) mod diMaxLog d
           in map (\<lambda>i. diMsgLog d ! ((start + i) mod diMaxLog d)) [0..<n]
         else
           let start = diLogPos d - n
           in map (\<lambda>i. diMsgLog d ! (start + i)) [0..<n])"

section \<open>The ring buffer refines the log\<close>

definition ring_inv :: "nat \<Rightarrow> DebugInspector \<Rightarrow> MessageLogEntry list \<Rightarrow> bool" where
  "ring_inv cap d es \<longleftrightarrow>
     diMaxLog d = cap \<and> 0 < cap \<and> length (diMsgLog d) = cap
     \<and> diLogPos d = length es mod cap \<and> (diLogFull d \<longleftrightarrow> cap \<le> length es)
     \<and> (\<forall>i. i < length es \<longrightarrow> length es \<le> i + cap \<longrightarrow> diMsgLog d ! (i mod cap) = es ! i)"

lemma mod_distinct:
  assumes "i < l" "l < i + (cap::nat)"
  shows "i mod cap \<noteq> l mod cap"
proof
  assume "i mod cap = l mod cap"
  then have "cap dvd l - i" using mod_eq_dvd_iff_nat [of i l cap] assms(1) by simp
  with assms show False by (auto dest: dvd_imp_le)
qed

lemma ring_inv_record:
  assumes "ring_inv cap d es"
  shows "ring_inv cap (RecordMessage e d) (es @ [e])"
proof -
  let ?L = "length es"
  from assms have cap: "0 < cap" "diMaxLog d = cap" "length (diMsgLog d) = cap" "diLogPos d = ?L mod cap"
    and full: "diLogFull d \<longleftrightarrow> cap \<le> ?L"
    and log: "\<And>i. i < ?L \<Longrightarrow> ?L \<le> i + cap \<Longrightarrow> diMsgLog d ! (i mod cap) = es ! i"
    by (auto simp: ring_inv_def)
  have pos: "?L mod cap < cap" using cap(1) by simp
  have "(diMsgLog d)[?L mod cap := e] ! (i mod cap) = (es @ [e]) ! i" if "i < Suc ?L" "Suc ?L \<le> i + cap" for i
  proof (cases "i = ?L")
    case True
    with pos cap(3) show ?thesis by simp
  next
    case False
    with that mod_distinct [of i ?L cap] log [of i] show ?thesis by (simp add: nth_append)
  qed
  moreover have "Suc ?L mod cap = (if Suc (?L mod cap) \<ge> cap then 0 else Suc (?L mod cap))"
    using cap(1) pos by (auto simp: mod_Suc)
  moreover have "Suc (?L mod cap) \<ge> cap \<Longrightarrow> cap \<le> Suc ?L"
    by (metis le_trans mod_less_eq_dividend Suc_le_mono)
  moreover have "\<not> Suc (?L mod cap) \<ge> cap \<Longrightarrow> cap \<le> Suc ?L \<longleftrightarrow> cap \<le> ?L"
    using mod_less [of ?L cap] by (cases "?L < cap") auto
  ultimately show ?thesis
    using cap full by (auto simp: ring_inv_def RecordMessage_def Let_def)
qed

lemma ring_inv_fold: "ring_inv cap d es \<Longrightarrow> ring_inv cap (fold RecordMessage xs d) (es @ xs)"
proof (induction xs arbitrary: d es)
  case (Cons x xs)
  from Cons.IH [OF ring_inv_record [OF Cons.prems]] show ?case by simp
qed simp

lemma ring_inv_New:
  "ring_inv (nat (if n \<le> 0 then 1000 else n)) (NewDebugInspector n) []"
  by (simp add: ring_inv_def NewDebugInspector_def Let_def)

lemma map_nth_drop: "k \<le> length es \<Longrightarrow> map (\<lambda>i. es ! (length es - k + i)) [0..<k] = drop (length es - k) es"
  by (rule nth_equalityI) auto

lemma RecentMessages_abs:
  assumes "ring_inv cap d es"
  shows "RecentMessages n d =
    (let total = min cap (length es); k = (if n \<le> 0 \<or> n > int total then total else nat n)
     in drop (length es - k) es)"
proof -
  let ?L = "length es"
  from assms have cap: "0 < cap" "diMaxLog d = cap" "diLogPos d = ?L mod cap"
    and full: "diLogFull d \<longleftrightarrow> cap \<le> ?L"
    and log: "\<And>i. i < ?L \<Longrightarrow> ?L \<le> i + cap \<Longrightarrow> diMsgLog d ! (i mod cap) = es ! i"
    by (auto simp: ring_inv_def)
  have total: "(if diLogFull d then diMaxLog d else diLogPos d) = min cap ?L"
    using cap full by (auto simp: min_def)
  define k where "k = (if n \<le> 0 \<or> n > int (min cap ?L) then min cap ?L else nat n)"
  have k: "k \<le> cap" "k \<le> ?L" by (auto simp: k_def)
  have "diMsgLog d ! ((?L - k + i) mod cap) = es ! (?L - k + i)" if "i < k" for i
    using that k by (intro log) auto
  then have vals: "map (\<lambda>i. diMsgLog d ! ((?L - k + i) mod cap)) [0..<k] = drop (?L - k) es"
    unfolding map_nth_drop [OF k(2), symmetric] by (intro map_cong) auto
  have idx: "((?L mod cap + cap - k) mod cap + i) mod cap = (?L - k + i) mod cap" for i
  proof -
    have "(?L mod cap + cap - k) mod cap = (?L mod cap + (cap - k)) mod cap" using k(1) by simp
    also have "\<dots> = (?L + (cap - k)) mod cap" by (rule mod_add_left_eq)
    also have "?L + (cap - k) = ?L - k + cap" using k by simp
    finally show ?thesis by (simp add: mod_simps)
  qed
  have rm: "RecentMessages n d =
      (if k = 0 then []
       else if diLogFull d then map (\<lambda>i. diMsgLog d ! (((?L mod cap + cap - k) mod cap + i) mod cap)) [0..<k]
       else map (\<lambda>i. diMsgLog d ! (?L mod cap - k + i)) [0..<k])"
    unfolding RecentMessages_def total Let_def k_def [symmetric] by (simp add: cap)
  show ?thesis
  proof (cases "diLogFull d")
    case True
    with rm vals show ?thesis unfolding Let_def k_def [symmetric] by (auto simp: idx)
  next
    case False
    then have "?L < cap" using full by simp
    moreover from this have "map (\<lambda>i. diMsgLog d ! (?L - k + i)) [0..<k] = drop (?L - k) es"
      using vals k by (subst vals [symmetric]) (intro map_cong, auto)
    ultimately show ?thesis using rm False unfolding Let_def k_def [symmetric] by auto
  qed
qed

text \<open>
  C35.  The ring buffer is a faithful window on the log: asked for \<open>n\<close> messages it returns the last \<open>n\<close> that
  were recorded, oldest first, bounded by the capacity (1000 when none was given) and by how many there are;
  a non-positive \<open>n\<close> asks for all it has.
\<close>

theorem recent_messages_window:
  "RecentMessages n (fold RecordMessage es (NewDebugInspector maxLogEntries)) =
     (let cap = nat (if maxLogEntries \<le> 0 then 1000 else maxLogEntries);
          total = min cap (length es);
          k = (if n \<le> 0 \<or> n > int total then total else nat n)
      in drop (length es - k) es)"
  using RecentMessages_abs [OF ring_inv_fold [OF ring_inv_New]] by (simp add: Let_def)

section \<open>Dependency chains\<close>

lemma BlockedChain_tasks:
  "distinct (map bcTaskName (BlockedChain s t))
   \<and> set (map bcTaskName (BlockedChain s t)) = (openEdges (ssDependencies s))\<^sup>+ `` {t}"
  unfolding BlockedChain_def TransitiveDependencies_def
  using bfs_loop_correct [of "[]" "[]" "ssDependencies s" t "[t]"] by (simp add: comp_def)

end
