(* ===== verification/Persistence.thy ===== *)
theory Persistence
  imports StateGraph
begin

text \<open>
  Saving and loading of \<^verbatim>\<open>internal/agent/persistence.go\<close>.  The file system is a map from paths to
  contents; the calls of \<^verbatim>\<open>os\<close> and \<^verbatim>\<open>encoding/json\<close> are the fields of a record, each with the error it may
  return, so that every early return of the code is a branch.  A failed write may leave any part of the data
  in the temporary file.
\<close>

type_synonym files = "string \<rightharpoonup> string"

record 'e io =
  ioMarshal :: "PersistedState \<Rightarrow> 'e + string"
  ioUnmarshal :: "string \<Rightarrow> 'e + PersistedState"
  ioReadError :: "'e option"
  ioCreateTemp :: "'e + string"
  ioWriteError :: "'e option"
  ioPartial :: string
  ioCloseError :: "'e option"
  ioRenameError :: "'e option"
  ioRemoveError :: "'e option"

datatype 'e persist_error =
    ErrReadStateFile 'e | ErrParseStateFile 'e | ErrMarshalState 'e | ErrCreateTemp 'e
  | ErrWriteTemp 'e | ErrCloseTemp 'e | ErrRenameTemp 'e

record StatePersistence =
  spPath :: string
  spDebounce :: "gotime option"
  spDebounceDur :: duration

definition NewStatePersistence :: "string \<Rightarrow> duration \<Rightarrow> StatePersistence" where
  "NewStatePersistence path debounce =
     \<lparr>spPath = path, spDebounce = None, spDebounceDur = (if debounce \<le> 0 then 5000000000 else debounce)\<rparr>"

text \<open>\<^verbatim>\<open>os.ReadFile\<close> fails for a missing file and may fail for another reason.\<close>

definition Load ::
  "'e io \<Rightarrow> StatePersistence \<Rightarrow> files \<Rightarrow> StateStore \<Rightarrow> 'e persist_error option \<times> StateStore" where
  "Load io sp fs s =
     (if spPath sp = [] then (None, s)
      else
        case fs (spPath sp) of
          None \<Rightarrow> (None, s)
        | Some data \<Rightarrow>
            (case ioReadError io of
               Some e \<Rightarrow> (Some (ErrReadStateFile e), s)
             | None \<Rightarrow>
                 (case ioUnmarshal io data of
                    Inl e \<Rightarrow> (Some (ErrParseStateFile e), s)
                  | Inr ps \<Rightarrow> (None, Restore ps s))))"

definition remove :: "'e io \<Rightarrow> string \<Rightarrow> files \<Rightarrow> files" where
  "remove io name fs = (if ioRemoveError io = None then fs(name := None) else fs)"

definition Save ::
  "'e io \<Rightarrow> gotime \<Rightarrow> StatePersistence \<Rightarrow> StateStore \<Rightarrow> files \<Rightarrow> 'e persist_error option \<times> files" where
  "Save io now sp s fs =
     (if spPath sp = [] then (None, fs)
      else
        case ioMarshal io (Snapshot now s) of
          Inl e \<Rightarrow> (Some (ErrMarshalState e), fs)
        | Inr data \<Rightarrow>
            (case ioCreateTemp io of
               Inl e \<Rightarrow> (Some (ErrCreateTemp e), fs)
             | Inr tmpName \<Rightarrow>
                 (case ioWriteError io of
                    Some e \<Rightarrow> (Some (ErrWriteTemp e), remove io tmpName (fs(tmpName \<mapsto> ioPartial io)))
                  | None \<Rightarrow>
                      (let fs = fs(tmpName \<mapsto> data)
                       in case ioCloseError io of
                            Some e \<Rightarrow> (Some (ErrCloseTemp e), remove io tmpName fs)
                          | None \<Rightarrow>
                              (case ioRenameError io of
                                 Some e \<Rightarrow> (Some (ErrRenameTemp e), remove io tmpName fs)
                               | None \<Rightarrow> (None, (fs(tmpName := None))(spPath sp \<mapsto> data)))))))"

text \<open>The debounce timer: \<open>MarkDirty\<close> re-arms it, \<open>Close\<close> stops it and saves, a firing saves.\<close>

definition MarkDirty :: "gotime \<Rightarrow> StatePersistence \<Rightarrow> StatePersistence" where
  "MarkDirty now sp =
     (if spPath sp = [] then sp else sp\<lparr>spDebounce := Some (now + spDebounceDur sp)\<rparr>)"

definition debounceFires ::
  "'e io \<Rightarrow> gotime \<Rightarrow> StateStore \<Rightarrow> StatePersistence \<Rightarrow> files \<Rightarrow> StatePersistence \<times> files" where
  "debounceFires io now s sp fs =
     (case spDebounce sp of
        Some deadline \<Rightarrow>
          if deadline \<le> now then (sp\<lparr>spDebounce := None\<rparr>, snd (Save io now sp s fs)) else (sp, fs)
      | None \<Rightarrow> (sp, fs))"

definition Close ::
  "'e io \<Rightarrow> gotime \<Rightarrow> StateStore \<Rightarrow> StatePersistence \<Rightarrow> files \<Rightarrow> StatePersistence \<times> files" where
  "Close io now s sp fs =
     (if spPath sp = [] then (sp, fs)
      else (sp\<lparr>spDebounce := None\<rparr>, snd (Save io now sp s fs)))"

section \<open>Atomic replacement\<close>

text \<open>The temporary file is a new one: \<^verbatim>\<open>os.CreateTemp\<close> never returns the name of an existing file.\<close>

definition fresh_temp :: "'e io \<Rightarrow> StatePersistence \<Rightarrow> files \<Rightarrow> bool" where
  "fresh_temp io sp fs \<longleftrightarrow> (\<forall>t. ioCreateTemp io = Inr t \<longrightarrow> fs t = None \<and> t \<noteq> spPath sp)"

text \<open>
  C26.  Saving is atomic: whichever call fails, the state file holds either exactly what it held before or
  exactly the new snapshot, the latter precisely when no error is reported; other files are untouched, and
  no temporary file is left unless its removal failed too.
\<close>

theorem save_atomic:
  assumes "fresh_temp io sp fs" "Save io now sp s fs = (err, fs')" "spPath sp \<noteq> []"
  shows "(err = None \<longrightarrow> (\<exists>data. ioMarshal io (Snapshot now s) = Inr data \<and> fs' = fs(spPath sp \<mapsto> data)))
    \<and> (err \<noteq> None \<longrightarrow> fs' (spPath sp) = fs (spPath sp))
    \<and> (err \<noteq> None \<longrightarrow> ioRemoveError io = None \<longrightarrow> fs' = fs)
    \<and> (\<forall>f. f \<noteq> spPath sp \<longrightarrow> fs f \<noteq> None \<longrightarrow> fs' f = fs f)"
  using assms
  by (auto simp: Save_def fresh_temp_def remove_def Let_def fun_upd_idem
      split: sum.splits option.splits if_splits)

definition demo_io :: "string io" where
  "demo_io = \<lparr>ioMarshal = (\<lambda>ps. Inr ''json''), ioUnmarshal = (\<lambda>d. Inl ''bad''), ioReadError = None,
     ioCreateTemp = Inr ''.agent-state-1.tmp'', ioWriteError = None, ioPartial = ''js'', ioCloseError = None,
     ioRenameError = Some ''denied'', ioRemoveError = None\<rparr>"

theorem save_atomic_witness:
  "let sp = NewStatePersistence ''state.json'' 0; fs = [''state.json'' \<mapsto> ''old'']
   in fst (Save demo_io 3 sp NewStateStore fs) = Some (ErrRenameTemp ''denied'')
      \<and> snd (Save demo_io 3 sp NewStateStore fs) = fs"
proof -
  let ?sp = "NewStatePersistence ''state.json'' 0" and ?fs = "[''state.json'' \<mapsto> ''old'']"
  have p: "spPath ?sp = ''state.json''" by (simp add: NewStatePersistence_def)
  have e: "fst (Save demo_io 3 ?sp NewStateStore ?fs) = Some (ErrRenameTemp ''denied'')"
    by (simp add: Save_def p demo_io_def Let_def)
  have "fresh_temp demo_io ?sp ?fs" by (simp add: fresh_temp_def p demo_io_def)
  from save_atomic [OF this, of 3 NewStateStore "fst (Save demo_io 3 ?sp NewStateStore ?fs)"
      "snd (Save demo_io 3 ?sp NewStateStore ?fs)"] e p
  have "snd (Save demo_io 3 ?sp NewStateStore ?fs) = ?fs" by (simp add: demo_io_def)
  with e show ?thesis by (simp add: Let_def)
qed

section \<open>Restart\<close>

text \<open>\<^verbatim>\<open>encoding/json\<close> reads back what it wrote.\<close>

definition json_roundtrip :: "'e io \<Rightarrow> bool" where
  "json_roundtrip io \<longleftrightarrow> (\<forall>ps data. ioMarshal io ps = Inr data \<longrightarrow> ioUnmarshal io data = Inr ps)"

text \<open>
  A restart loses nothing that was saved: when the store was built by its operations, a save that
  reports no error followed by a load into a new store gives the same store back, and it again satisfies
  the store's invariant.
\<close>

theorem save_load_restores:
  assumes "json_roundtrip io" "fresh_temp io sp fs" "spPath sp \<noteq> []" "ioReadError io = None"
    and "s = fold store_step ops NewStateStore" "fst (Save io now sp s fs) = None"
  shows "Load io sp (snd (Save io now sp s fs)) NewStateStore = (None, s) \<and> ss_inv s"
proof -
  obtain data where d: "ioMarshal io (Snapshot now s) = Inr data"
    "snd (Save io now sp s fs) (spPath sp) = Some data"
    using assms(2,3,6)
    by (auto simp: Save_def fresh_temp_def Let_def split: sum.splits option.splits if_splits)
  moreover have "ioUnmarshal io data = Inr (Snapshot now s)"
    using assms(1) d(1) by (simp add: json_roundtrip_def)
  moreover have "ss_inv s" unfolding assms(5) by (rule store.inv_run)
  ultimately show ?thesis using assms(3,4) by (simp add: Load_def Restore_Snapshot)
qed

text \<open>A coding of the snapshots that the witness saves, in which only the empty store's matters.\<close>

definition toy_io :: "string io" where
  "toy_io = demo_io\<lparr>ioMarshal := (\<lambda>ps. if ps = Snapshot 3 NewStateStore then Inr ''E'' else Inl ''unsupported''),
     ioUnmarshal := (\<lambda>d. if d = ''E'' then Inr (Snapshot 3 NewStateStore) else Inl ''syntax''),
     ioRenameError := None\<rparr>"

theorem save_load_restores_witness:
  "Load toy_io (NewStatePersistence ''state.json'' 0)
     (snd (Save toy_io 3 (NewStatePersistence ''state.json'' 0) NewStateStore Map.empty)) NewStateStore
   = (None, NewStateStore)"
proof -
  let ?sp = "NewStatePersistence ''state.json'' 0"
  have "json_roundtrip toy_io" by (auto simp: json_roundtrip_def toy_io_def split: if_splits)
  moreover have "fresh_temp toy_io ?sp Map.empty"
    by (simp add: fresh_temp_def toy_io_def demo_io_def NewStatePersistence_def)
  moreover have "spPath ?sp \<noteq> []" "ioReadError toy_io = None"
    by (simp_all add: NewStatePersistence_def toy_io_def demo_io_def)
  moreover have "fst (Save toy_io 3 ?sp NewStateStore Map.empty) = None"
    by (simp add: Save_def toy_io_def demo_io_def NewStatePersistence_def Let_def)
  ultimately show ?thesis
    using save_load_restores [of toy_io ?sp Map.empty NewStateStore "[]" 3] by simp
qed

end
