(* ===== verification/Roles.thy ===== *)
theory Roles
  imports Protocol Review
begin

text \<open>
  The role engine of \<^verbatim>\<open>internal/agent/role.go\<close>: behaviours with their trigger actions and handlers, and
  the built-in ones.  The query \<^verbatim>\<open>HasRole\<close> is not here: it compares with Go's Unicode case folding.
\<close>

record RoleBehavior =
  rbRole :: string
  rbTriggerActions :: "Action list"
  rbHandler :: "Message \<Rightarrow> Message list"

definition Matches :: "RoleBehavior \<Rightarrow> Message \<Rightarrow> bool" where
  "Matches rb msg \<longleftrightarrow> list_ex (\<lambda>a. msgAction msg = a) (rbTriggerActions rb)"

record RoleEngine =
  reRoles :: "string list"
  reBehaviors :: "RoleBehavior list"

definition NewRoleEngine :: "string list \<Rightarrow> RoleEngine" where
  "NewRoleEngine roles = \<lparr>reRoles = roles, reBehaviors = []\<rparr>"

definition RegisterBehavior :: "RoleBehavior \<Rightarrow> RoleEngine \<Rightarrow> RoleEngine" where
  "RegisterBehavior behavior re = re\<lparr>reBehaviors := reBehaviors re @ [behavior]\<rparr>"

definition HandleMessage :: "RoleEngine \<Rightarrow> Message \<Rightarrow> Message list" where
  "HandleMessage re msg =
     fold (\<lambda>b responses. if Matches b msg then responses @ rbHandler b msg else responses) (reBehaviors re) []"

definition Roles :: "RoleEngine \<Rightarrow> string list" where
  "Roles re = reRoles re"

definition ExpertiseTags :: "RoleEngine \<Rightarrow> string list" where
  "ExpertiseTags re = map (\<lambda>r. ''role:'' @ r) (reRoles re)"

text \<open>Go's comparison of strings under Unicode case folding, a table of the standard library, is the argument \<open>eqFold\<close>.\<close>

definition HasRole :: "(string \<Rightarrow> string \<Rightarrow> bool) \<Rightarrow> RoleEngine \<Rightarrow> string \<Rightarrow> bool" where
  "HasRole eqFold re role = list_ex (\<lambda>r. eqFold r role) (reRoles re)"

section \<open>Built-in behaviours\<close>

definition architectureHandler :: "Message \<Rightarrow> Message list" where
  "architectureHandler msg =
     (if Get msg ''review-type'' \<noteq> ''architecture'' then []
      else [mkMessage ActionReviewComplete
              [(''task'', Get msg ''task''), (''pr'', Get msg ''pr''), (''verdict'', ReviewApproved),
               (''details'', ''Architecture review auto-approved'')] []])"

definition securityHandler :: "Message \<Rightarrow> Message list" where
  "securityHandler msg =
     (if Get msg ''review-type'' \<noteq> ''security'' then []
      else [mkMessage ActionReviewComplete
              [(''task'', Get msg ''task''), (''pr'', Get msg ''pr''), (''verdict'', ReviewApproved),
               (''details'', ''Security review auto-approved'')] []])"

definition monitoringHandler :: "Message \<Rightarrow> Message list" where
  "monitoringHandler msg =
     (if Get msg ''review-type'' \<noteq> ''monitoring'' then []
      else [mkMessage ActionGateCheck
              [(''task'', Get msg ''task''), (''gate'', ''monitoring''), (''status'', GatePassed),
               (''details'', ''Monitoring gate auto-passed'')] []])"

definition mergeHandler :: "Message \<Rightarrow> Message list" where
  "mergeHandler msg =
     (if Get msg ''verdict'' \<noteq> ReviewApproved then []
      else [mkMessage ActionStarted [(''task'', Get msg ''task'' @ ''-merge''), (''priority'', ''high'')] []])"

definition releaseHandler :: "Message \<Rightarrow> Message list" where
  "releaseHandler msg =
     (if \<not> suffix ''-merge'' (Get msg ''task'') then []
      else [mkMessage ActionCheckpoint
              [(''task'', TrimSuffix (Get msg ''task'') ''-merge'' @ ''-release''), (''progress'', ''0''),
               (''summary'', ''Release initiated'')] []])"

definition cleanupHandler :: "Message \<Rightarrow> Message list" where
  "cleanupHandler msg =
     (if \<not> suffix ''-release'' (Get msg ''task'') then []
      else [mkMessage ActionOffer
              [(''task'', TrimSuffix (Get msg ''task'') ''-release'' @ ''-cleanup''), (''scope'', ''cleanup'')] []])"

definition incidentHandler :: "Message \<Rightarrow> Message list" where
  "incidentHandler msg =
     (let sev = Get msg ''severity''
      in if sev \<noteq> ''high'' \<and> sev \<noteq> ''critical'' then []
         else [mkMessage ActionStarted
                 [(''task'', Get msg ''task'' @ ''-incident''), (''priority'', ''critical'')] []])"

definition BuiltinBehavior :: "string \<Rightarrow> RoleBehavior option" where
  "BuiltinBehavior role =
     (let b = (\<lambda>a h. Some \<lparr>rbRole = role, rbTriggerActions = [a], rbHandler = h\<rparr>)
      in if role = ''architecture-reviewer'' then b ActionReviewRequest architectureHandler
         else if role = ''security-reviewer'' then b ActionReviewRequest securityHandler
         else if role = ''monitoring-guardian'' then b ActionReviewRequest monitoringHandler
         else if role = ''merge-coordinator'' then b ActionReviewComplete mergeHandler
         else if role = ''release-coordinator'' then b ActionCompleted releaseHandler
         else if role = ''cleanup-agent'' then b ActionCompleted cleanupHandler
         else if role = ''incident-responder'' then b ActionEscalate incidentHandler
         else None)"

lemmas builtin_handlers = architectureHandler_def securityHandler_def monitoringHandler_def mergeHandler_def
  releaseHandler_def cleanupHandler_def incidentHandler_def

section \<open>Reactions\<close>

lemma HandleMessage_eq:
  "HandleMessage re msg = concat (map (\<lambda>b. rbHandler b msg) (filter (\<lambda>b. Matches b msg) (reBehaviors re)))"
proof -
  have "fold (\<lambda>b acc. if Matches b msg then acc @ rbHandler b msg else acc) bs acc =
      acc @ concat (map (\<lambda>b. rbHandler b msg) (filter (\<lambda>b. Matches b msg) bs))" for bs acc
    by (induction bs arbitrary: acc) auto
  then show ?thesis by (simp add: HandleMessage_def)
qed

text \<open>A rank that every reaction of a built-in behaviour lowers.\<close>

definition rank :: "Action \<Rightarrow> nat" where
  "rank a = (if a = ActionReviewRequest then 2
             else if a \<in> {ActionReviewComplete, ActionCompleted, ActionEscalate} then 1 else 0)"

lemma builtin_lowers_rank:
  assumes "BuiltinBehavior role = Some b" "Matches b msg" "r \<in> set (rbHandler b msg)"
  shows "rank (msgAction r) < rank (msgAction msg)"
  using assms
  by (auto simp: BuiltinBehavior_def Let_def Matches_def builtin_handlers mkMessage_def rank_def
      split: if_splits)

definition builtin_engine :: "RoleEngine \<Rightarrow> bool" where
  "builtin_engine re \<longleftrightarrow> list_all (\<lambda>b. BuiltinBehavior (rbRole b) = Some b) (reBehaviors re)"

text \<open>One round: every message of the last round is handled and the responses are the next round.\<close>

definition react :: "RoleEngine \<Rightarrow> Message list \<Rightarrow> Message list" where
  "react re msgs = concat (map (HandleMessage re) msgs)"

lemma react_lowers_rank:
  assumes "builtin_engine re" "\<forall>m \<in> set msgs. rank (msgAction m) \<le> n"
  shows "\<forall>m \<in> set (react re msgs). Suc (rank (msgAction m)) \<le> n"
proof
  fix r assume "r \<in> set (react re msgs)"
  then obtain m b where "m \<in> set msgs" "b \<in> set (reBehaviors re)" "Matches b m" "r \<in> set (rbHandler b m)"
    by (auto simp: react_def HandleMessage_eq)
  with assms builtin_lowers_rank show "Suc (rank (msgAction r)) \<le> n"
    by (fastforce simp: builtin_engine_def list_all_iff)
qed

lemma react_rank0: "builtin_engine re \<Longrightarrow> \<forall>m \<in> set msgs. rank (msgAction m) = 0 \<Longrightarrow> react re msgs = []"
  using react_lowers_rank [of re msgs 0] by (cases "react re msgs") auto

text \<open>
  Agents that run any selection of the built-in roles cannot answer each other for ever: however
  many of them hear a message, their responses to responses die out after two rounds.
\<close>

theorem builtin_roles_quiesce:
  assumes "builtin_engine re"
  shows "react re (react re (react re [msg])) = []"
proof -
  have "\<forall>m \<in> set [msg]. rank (msgAction m) \<le> 2" by (simp add: rank_def)
  from react_lowers_rank [OF assms this] have "\<forall>m \<in> set (react re [msg]). rank (msgAction m) \<le> 1" by auto
  from react_lowers_rank [OF assms this] have "\<forall>m \<in> set (react re (react re [msg])). rank (msgAction m) = 0" by auto
  then show ?thesis by (rule react_rank0 [OF assms])
qed

definition demo_roles :: RoleEngine where
  "demo_roles =
     fold (\<lambda>r. case BuiltinBehavior r of None \<Rightarrow> id | Some b \<Rightarrow> RegisterBehavior b)
       [''security-reviewer'', ''merge-coordinator'', ''release-coordinator''] (NewRoleEngine [])"

theorem builtin_roles_quiesce_witness:
  "let m = mkMessage ActionReviewRequest [(''task'', ''t''), (''review-type'', ''security'')] []
   in map msgAction (react demo_roles (react demo_roles [m])) = [ActionStarted]
      \<and> react demo_roles (react demo_roles (react demo_roles [m])) = []"
proof -
  let ?m = "mkMessage ActionReviewRequest [(''task'', ''t''), (''review-type'', ''security'')] []"
  have "builtin_engine demo_roles"
    by (simp add: builtin_engine_def demo_roles_def RegisterBehavior_def NewRoleEngine_def BuiltinBehavior_def)
  from builtin_roles_quiesce [OF this, of ?m] show ?thesis
    by (simp add: Let_def) code_simp
qed

end
