(* ===== verification/Workflow.thy ===== *)
theory Workflow
  imports Interfaces
begin

text \<open>
  The workflow engine of \<^verbatim>\<open>internal/agent/workflow.go\<close>: named definitions, one instance per task, and
  the step from a stage to the next.
\<close>

record WorkflowStage =
  wsName :: string
  wsRequiredGates :: "string list"
  wsRequiredReviews :: "string list"
  wsNextStage :: string

record WorkflowDefinition =
  wdName :: string
  wdStages :: "WorkflowStage list"

record WorkflowInstance =
  wiName :: string
  wiTask :: string
  wiCurrentStage :: string
  wiCompleted :: bool

record WorkflowEngine =
  weDefinitions :: "WorkflowDefinition gomap"
  weInstances :: "WorkflowInstance gomap"

definition plainStage :: "string \<Rightarrow> string \<Rightarrow> WorkflowStage" where
  "plainStage name nxt =
     \<lparr>wsName = name, wsRequiredGates = [], wsRequiredReviews = [], wsNextStage = nxt\<rparr>"

definition GatedPipelineWorkflow :: WorkflowDefinition where
  "GatedPipelineWorkflow =
     \<lparr>wdName = ''gated-pipeline'',
      wdStages =
       [plainStage ''implement'' ''review'',
        \<lparr>wsName = ''review'', wsRequiredGates = [''monitoring'', ''coverage''],
         wsRequiredReviews = [''architecture'', ''security''], wsNextStage = ''merge''\<rparr>,
        plainStage ''merge'' ''release'',
        plainStage ''release'' ''cleanup'',
        plainStage ''cleanup'' []]\<rparr>"

definition CollaborativeHandoffWorkflow :: WorkflowDefinition where
  "CollaborativeHandoffWorkflow =
     \<lparr>wdName = ''collaborative-handoff'',
      wdStages =
       [plainStage ''implement'' ''checkpoint'',
        plainStage ''checkpoint'' ''handoff'',
        plainStage ''handoff'' ''continue'',
        plainStage ''continue'' ''complete'',
        plainStage ''complete'' []]\<rparr>"

definition NewWorkflowEngine :: WorkflowEngine where
  "NewWorkflowEngine =
     (let we = \<lparr>weDefinitions = [], weInstances = []\<rparr>;
          we = we\<lparr>weDefinitions := mput ''gated-pipeline'' GatedPipelineWorkflow (weDefinitions we)\<rparr>
      in we\<lparr>weDefinitions := mput ''collaborative-handoff'' CollaborativeHandoffWorkflow (weDefinitions we)\<rparr>)"

definition RegisterDefinition :: "WorkflowDefinition \<Rightarrow> WorkflowEngine \<Rightarrow> WorkflowEngine" where
  "RegisterDefinition def we = we\<lparr>weDefinitions := mput (wdName def) def (weDefinitions we)\<rparr>"

definition StartWorkflow ::
  "string \<Rightarrow> string \<Rightarrow> WorkflowEngine \<Rightarrow> WorkflowInstance option \<times> WorkflowEngine" where
  "StartWorkflow workflowName task we =
     (case map_of (weDefinitions we) workflowName of
        None \<Rightarrow> (None, we)
      | Some def \<Rightarrow>
          (case wdStages def of
             [] \<Rightarrow> (None, we)
           | stage # _ \<Rightarrow>
               let inst = \<lparr>wiName = workflowName, wiTask = task, wiCurrentStage = wsName stage,
                           wiCompleted = False\<rparr>
               in (Some inst, we\<lparr>weInstances := mput task inst (weInstances we)\<rparr>)))"

text \<open>The loop over the stages: where the first stage with the current name leads.\<close>

datatype advance = MoveTo string | Finish | StageNotFound

fun advance_loop :: "string \<Rightarrow> WorkflowStage list \<Rightarrow> advance" where
  "advance_loop current [] = StageNotFound"
| "advance_loop current (stage # stages) =
     (if wsName stage = current then
        (if wsNextStage stage \<noteq> [] then MoveTo (wsNextStage stage)
         else (case stages of following # _ \<Rightarrow> MoveTo (wsName following) | [] \<Rightarrow> Finish))
      else advance_loop current stages)"

definition AdvanceStage :: "string \<Rightarrow> WorkflowEngine \<Rightarrow> string \<times> WorkflowEngine" where
  "AdvanceStage task we =
     (case map_of (weInstances we) task of
        None \<Rightarrow> ([], we)
      | Some inst \<Rightarrow>
          if wiCompleted inst then ([], we)
          else
            (case map_of (weDefinitions we) (wiName inst) of
               None \<Rightarrow> ([], we)
             | Some def \<Rightarrow>
                 (case advance_loop (wiCurrentStage inst) (wdStages def) of
                    MoveTo st \<Rightarrow>
                      (st, we\<lparr>weInstances := mput task (inst\<lparr>wiCurrentStage := st\<rparr>) (weInstances we)\<rparr>)
                  | Finish \<Rightarrow>
                      ([], we\<lparr>weInstances := mput task (inst\<lparr>wiCompleted := True\<rparr>) (weInstances we)\<rparr>)
                  | StageNotFound \<Rightarrow> ([], we))))"

definition GetInstance :: "WorkflowEngine \<Rightarrow> string \<Rightarrow> WorkflowInstance option" where
  "GetInstance we task = map_of (weInstances we) task"

definition GetDefinition :: "WorkflowEngine \<Rightarrow> string \<Rightarrow> WorkflowDefinition option" where
  "GetDefinition we name = map_of (weDefinitions we) name"

definition CurrentStage :: "WorkflowEngine \<Rightarrow> string \<Rightarrow> WorkflowStage option" where
  "CurrentStage we task =
     (case map_of (weInstances we) task of
        None \<Rightarrow> None
      | Some inst \<Rightarrow>
          (case map_of (weDefinitions we) (wiName inst) of
             None \<Rightarrow> None
           | Some def \<Rightarrow> find (\<lambda>stage. wsName stage = wiCurrentStage inst) (wdStages def)))"

definition ListDefinitions :: "WorkflowEngine \<Rightarrow> WorkflowDefinition list" where
  "ListDefinitions we = mvals (weDefinitions we)"

definition ListInstances :: "WorkflowEngine \<Rightarrow> WorkflowInstance list" where
  "ListInstances we = mvals (weInstances we)"

section \<open>Linear workflows run to the end\<close>

text \<open>
  A definition is linear when its stage names are distinct and a stage names the stage after it or
  none.  Both built-in workflows are.
\<close>

definition linear_def :: "WorkflowDefinition \<Rightarrow> bool" where
  "linear_def def \<longleftrightarrow>
     (let st = wdStages def
      in st \<noteq> [] \<and> distinct (map wsName st)
         \<and> list_all (\<lambda>(a, b). wsNextStage a = [] \<or> wsNextStage a = wsName b) (zip st (tl st))
         \<and> wsNextStage (last st) = [])"

interpretation workflow_defs: last_write GetDefinition
  "\<lambda>name stages. RegisterDefinition \<lparr>wdName = name, wdStages = stages\<rparr>"
  "\<lambda>name stages. \<lparr>wdName = name, wdStages = stages\<rparr>"
  by unfold_locales (simp add: GetDefinition_def RegisterDefinition_def)

lemma advance_loop_skip:
  "current \<notin> wsName ` set xs \<Longrightarrow> advance_loop current (xs @ ys) = advance_loop current ys"
  by (induction xs) auto

lemma advance_loop_nth:
  assumes "distinct (map wsName st)" "i < length st"
  shows "advance_loop (wsName (st ! i)) st =
    (if wsNextStage (st ! i) \<noteq> [] then MoveTo (wsNextStage (st ! i))
     else if i + 1 < length st then MoveTo (wsName (st ! (i + 1))) else Finish)"
proof -
  have st: "st = take i st @ st ! i # drop (Suc i) st" by (rule id_take_nth_drop [OF assms(2)])
  have "wsName (st ! i) \<notin> wsName ` set (take i st)"
    using assms by (subst (asm) st) (auto simp: image_iff)
  then have "advance_loop (wsName (st ! i)) st = advance_loop (wsName (st ! i)) (st ! i # drop (Suc i) st)"
    by (subst (2) st) (rule advance_loop_skip)
  moreover have "drop (Suc i) st = (if i + 1 < length st then st ! (i + 1) # drop (Suc (Suc i)) st else [])"
    by (simp add: Cons_nth_drop_Suc)
  ultimately show ?thesis by simp
qed

lemma linear_advance:
  assumes "linear_def def" "i < length (wdStages def)"
  shows "advance_loop (wsName (wdStages def ! i)) (wdStages def) =
    (if i + 1 < length (wdStages def) then MoveTo (wsName (wdStages def ! (i + 1))) else Finish)"
proof (cases "i + 1 < length (wdStages def)")
  case True
  let ?st = "wdStages def"
  have "(?st ! i, ?st ! (i + 1)) \<in> set (zip ?st (tl ?st))"
    using True by (auto simp: in_set_zip nth_tl intro!: exI [of _ i])
  then have "wsNextStage (?st ! i) = [] \<or> wsNextStage (?st ! i) = wsName (?st ! (i + 1))"
    using assms(1) by (auto simp: linear_def_def Let_def list_all_iff)
  with True assms show ?thesis
    by (subst advance_loop_nth) (auto simp: linear_def_def Let_def)
next
  case False
  then have "last (wdStages def) = wdStages def ! i"
    using assms by (auto simp: last_conv_nth linear_def_def Let_def intro!: arg_cong2 [of _ _ _ _ nth])
  with False assms show ?thesis
    by (subst advance_loop_nth) (auto simp: linear_def_def Let_def)
qed

text \<open>The state of a task's instance after the workflow was started and advanced \<open>k\<close> times.\<close>

definition run_workflow :: "string \<Rightarrow> string \<Rightarrow> nat \<Rightarrow> WorkflowEngine \<Rightarrow> WorkflowEngine" where
  "run_workflow name task k we = ((\<lambda>e. snd (AdvanceStage task e)) ^^ k) (snd (StartWorkflow name task we))"

text \<open>
  A workflow whose stages form a line visits them in order and then completes: after \<open>k\<close> advances
  the task is at stage \<open>k\<close>, one advance past the last stage it is complete, and it stays complete however
  often it is advanced again.
\<close>

theorem linear_workflow_completes:
  assumes "GetDefinition we name = Some def" "linear_def def"
  shows "GetInstance (run_workflow name task k we) task =
    Some \<lparr>wiName = name, wiTask = task,
          wiCurrentStage = wsName (wdStages def ! min k (length (wdStages def) - 1)),
          wiCompleted = (k \<ge> length (wdStages def))\<rparr>
    \<and> GetDefinition (run_workflow name task k we) name = Some def"
proof (induction k)
  case 0
  from assms obtain st sts where "wdStages def = st # sts" by (cases "wdStages def") (auto simp: linear_def_def Let_def)
  with assms(1) show ?case
    by (simp add: run_workflow_def StartWorkflow_def GetDefinition_def GetInstance_def Let_def)
next
  case (Suc k)
  let ?we = "run_workflow name task k we" and ?n = "length (wdStages def)"
  have n: "?n > 0" using assms(2) by (simp add: linear_def_def Let_def)
  have run: "run_workflow name task (Suc k) we = snd (AdvanceStage task ?we)" by (simp add: run_workflow_def)
  show ?case
  proof (cases "k < ?n")
    case True
    then have k: "min k (?n - 1) = k" by simp
    moreover have "min (Suc k) (?n - 1) = (if k + 1 < ?n then k + 1 else k)" using True by auto
    ultimately show ?thesis
      using linear_advance [OF assms(2) True] Suc True
      unfolding run
      by (cases "k + 1 < ?n") (auto simp: AdvanceStage_def GetInstance_def GetDefinition_def)
  next
    case False
    then have "min k (?n - 1) = ?n - 1" "min (Suc k) (?n - 1) = ?n - 1" by simp_all
    with False Suc n show ?thesis
      unfolding run by (auto simp: AdvanceStage_def GetInstance_def GetDefinition_def)
  qed
qed

theorem linear_workflow_completes_witness:
  "map (\<lambda>k. map_option (\<lambda>i. (wiCurrentStage i, wiCompleted i))
          (GetInstance (run_workflow ''gated-pipeline'' ''t'' k NewWorkflowEngine) ''t'')) [0, 1, 2, 3, 4, 5, 6]
   = [Some (''implement'', False), Some (''review'', False), Some (''merge'', False), Some (''release'', False),
      Some (''cleanup'', False), Some (''cleanup'', True), Some (''cleanup'', True)]"
proof -
  have "GetDefinition NewWorkflowEngine ''gated-pipeline'' = Some GatedPipelineWorkflow"
    "linear_def GatedPipelineWorkflow" by code_simp+
  from linear_workflow_completes [OF this] show ?thesis
    by (simp add: GatedPipelineWorkflow_def plainStage_def)
qed

text \<open>
  A stage whose successor is not a stage of the workflow is a dead end: advancing moves the task to
  the unknown name, and from then on every advance returns the empty string, which the method documents as
  completion, while the instance is not completed and nothing changes any more.
\<close>

theorem dangling_successor_is_stuck:
  assumes "GetDefinition we (wiName inst) = Some def" "GetInstance we task = Some inst" "\<not> wiCompleted inst"
    and "wiCurrentStage inst \<notin> wsName ` set (wdStages def)"
  shows "AdvanceStage task we = ([], we) \<and> CurrentStage we task = None"
proof -
  have "advance_loop (wiCurrentStage inst) (wdStages def) = StageNotFound"
    using advance_loop_skip [OF assms(4), of "[]"] by simp
  moreover have "find (\<lambda>stage. wsName stage = wiCurrentStage inst) (wdStages def) = None"
    using assms(4) by (force simp: find_None_iff)
  ultimately show ?thesis
    using assms by (simp add: AdvanceStage_def CurrentStage_def GetDefinition_def GetInstance_def)
qed

definition dangling_engine :: WorkflowEngine where
  "dangling_engine =
     snd (AdvanceStage ''t'' (snd (StartWorkflow ''w'' ''t''
       (RegisterDefinition \<lparr>wdName = ''w'', wdStages = [plainStage ''a'' ''typo'', plainStage ''b'' []]\<rparr> NewWorkflowEngine))))"

theorem dangling_successor_is_stuck_witness:
  "AdvanceStage ''t'' dangling_engine = ([], dangling_engine) \<and> CurrentStage dangling_engine ''t'' = None
   \<and> map_option wiCompleted (GetInstance dangling_engine ''t'') = Some False"
proof -
  let ?i = "\<lparr>wiName = ''w'', wiTask = ''t'', wiCurrentStage = ''typo'', wiCompleted = False\<rparr>"
  have "GetDefinition dangling_engine (wiName ?i) = Some \<lparr>wdName = ''w'', wdStages = [plainStage ''a'' ''typo'', plainStage ''b'' []]\<rparr>"
    by code_simp
  moreover have i: "GetInstance dangling_engine ''t'' = Some ?i" by code_simp
  ultimately show ?thesis
    using dangling_successor_is_stuck [of dangling_engine ?i _ "''t''"] by (simp add: plainStage_def)
qed

end
