(* ===== verification/Flags.thy ===== *)
theory Flags
  imports Float64
begin

text \<open>
  What the two configuration loaders use of Go's \<^verbatim>\<open>flag\<close> package: the definition of flags by name and kind,
  \<^verbatim>\<open>FlagSet.Parse\<close>, and the flags that were set explicitly, which \<^verbatim>\<open>Visit\<close> goes through.  The
  number syntax of \<^verbatim>\<open>strconv.ParseInt(s, 0, 64)\<close> (with its prefixes and underscores) and of \<^verbatim>\<open>strconv.ParseFloat\<close> is a
  parameter; no theorem depends on it.
\<close>

datatype flag_kind = FString | FBool | FInt | FFloat

datatype flag_value = VString string | VBool bool | VInt goint | VFloat float64

record numsyntax =
  nsInt :: "string \<Rightarrow> goint option"
  nsFloat :: "string \<Rightarrow> float64 option"

definition ParseBool :: "string \<Rightarrow> bool option" where
  "ParseBool s =
     (if s \<in> {''1'', ''t'', ''T'', ''TRUE'', ''true'', ''True''} then Some True
      else if s \<in> {''0'', ''f'', ''F'', ''FALSE'', ''false'', ''False''} then Some False
      else None)"

fun setValue :: "numsyntax \<Rightarrow> flag_kind \<Rightarrow> string \<Rightarrow> flag_value option" where
  "setValue ns FString s = Some (VString s)"
| "setValue ns FBool s = map_option VBool (ParseBool s)"
| "setValue ns FInt s = map_option VInt (nsInt ns s)"
| "setValue ns FFloat s = map_option VFloat (nsFloat ns s)"

datatype flag_error =
  BadSyntax string | NotDefined string | HelpRequested | InvalidValue string string | NeedsArgument string

type_synonym formal = "flag_kind gomap"
type_synonym actual = "flag_value gomap"

text \<open>The dashes removed, and the name split from a value given after an equals sign.\<close>

definition flag_body :: "string \<Rightarrow> string" where
  "flag_body s = (if s ! 1 = CHR ''-'' then drop 2 s else drop 1 s)"

definition flag_name :: "string \<Rightarrow> string" where
  "flag_name body = hd body # takeWhile (\<lambda>c. c \<noteq> CHR ''='') (tl body)"

definition flag_rest :: "string \<Rightarrow> string" where
  "flag_rest body = dropWhile (\<lambda>c. c \<noteq> CHR ''='') (tl body)"

text \<open>The flags set, with their last values, and the remaining arguments.\<close>

fun parse_args :: "numsyntax \<Rightarrow> formal \<Rightarrow> string list \<Rightarrow> actual \<Rightarrow> flag_error + actual \<times> string list" where
  "parse_args ns formal [] actual = Inr (actual, [])"
| "parse_args ns formal (s # args) actual =
     (if length s < 2 \<or> hd s \<noteq> CHR ''-'' then Inr (actual, s # args)
      else if s = ''--'' then Inr (actual, args)
      else
        let body = flag_body s
        in if body = [] \<or> hd body = CHR ''-'' \<or> hd body = CHR ''='' then Inl (BadSyntax s)
           else
             let name = flag_name body; rest = flag_rest body
             in case map_of formal name of
                  None \<Rightarrow> Inl (if name = ''help'' \<or> name = ''h'' then HelpRequested else NotDefined name)
                | Some k \<Rightarrow>
                    if k = FBool then
                      (case setValue ns FBool (if rest \<noteq> [] then tl rest else ''true'') of
                         None \<Rightarrow> Inl (InvalidValue name (tl rest))
                       | Some v \<Rightarrow> parse_args ns formal args (mput name v actual))
                    else if rest \<noteq> [] then
                      (case setValue ns k (tl rest) of
                         None \<Rightarrow> Inl (InvalidValue name (tl rest))
                       | Some v \<Rightarrow> parse_args ns formal args (mput name v actual))
                    else
                      (case args of
                         [] \<Rightarrow> Inl (NeedsArgument name)
                       | value # args' \<Rightarrow>
                           (case setValue ns k value of
                              None \<Rightarrow> Inl (InvalidValue name value)
                            | Some v \<Rightarrow> parse_args ns formal args' (mput name v actual))))"

fun vstring :: "flag_value \<Rightarrow> string" where
  "vstring (VString s) = s"
| "vstring _ = []"

fun vbool :: "flag_value \<Rightarrow> bool" where
  "vbool (VBool b) = b"
| "vbool _ = False"

fun vint :: "flag_value \<Rightarrow> goint" where
  "vint (VInt n) = n"
| "vint _ = 0"

fun vfloat :: "flag_value \<Rightarrow> float64" where
  "vfloat (VFloat x) = x"
| "vfloat _ = 0"

section \<open>Arguments as programs write them\<close>

text \<open>A name that the parser reads back from two dashes and the name.\<close>

definition plain_name :: "string \<Rightarrow> bool" where
  "plain_name n \<longleftrightarrow> n \<noteq> [] \<and> hd n \<noteq> CHR ''-'' \<and> CHR ''='' \<notin> set n"

lemma flag_body_dashes [simp]: "flag_body (CHR ''-'' # CHR ''-'' # n) = n"
  by (simp add: flag_body_def)

lemma flag_name_plain: "plain_name n \<Longrightarrow> flag_name n = n"
  by (cases n) (auto simp: flag_name_def plain_name_def takeWhile_eq_all_conv)

lemma flag_rest_plain: "plain_name n \<Longrightarrow> flag_rest n = []"
  by (cases n) (auto simp: flag_rest_def plain_name_def dropWhile_eq_Nil_conv)

lemma plain_name_hd: "plain_name n \<Longrightarrow> n \<noteq> [] \<and> hd n \<noteq> CHR ''-'' \<and> hd n \<noteq> CHR ''=''"
  by (cases n) (auto simp: plain_name_def)

lemma parse_pair:
  assumes "plain_name n" "map_of formal n = Some FString"
  shows "parse_args ns formal ((''--'' @ n) # v # args) actual = parse_args ns formal args (mput n (VString v) actual)"
  using assms plain_name_hd [OF assms(1)] by (simp add: Let_def flag_name_plain flag_rest_plain)

lemma parse_bool:
  assumes "plain_name n" "map_of formal n = Some FBool"
  shows "parse_args ns formal ((''--'' @ n) # args) actual = parse_args ns formal args (mput n (VBool True) actual)"
  using assms plain_name_hd [OF assms(1)] by (simp add: Let_def flag_name_plain flag_rest_plain ParseBool_def)

text \<open>A list of such pairs is read from left to right.\<close>

definition pair_args :: "(string \<times> string) list \<Rightarrow> string list" where
  "pair_args kvs = concat (map (\<lambda>(k, v). [''--'' @ k, v]) kvs)"

lemma pair_args_simps [simp]:
  "pair_args [] = []" "pair_args ((k, v) # kvs) = (''--'' @ k) # v # pair_args kvs"
  "pair_args (kvs @ kvs') = pair_args kvs @ pair_args kvs'"
  by (simp_all add: pair_args_def)

lemma map_of_fold_mput:
  "map_of (fold (\<lambda>(k, v). mput k (f v)) kvs m) n =
     (case map_of (rev kvs) n of None \<Rightarrow> map_of m n | Some v \<Rightarrow> Some (f v))"
  by (induction kvs arbitrary: m) (auto simp: map_add_def split: option.splits)

lemma map_of_rev:
  assumes "distinct (map fst xs)"
  shows "map_of (rev xs) = map_of xs"
proof
  fix k
  from assms have "map_of (rev xs) k = Some v \<longleftrightarrow> map_of xs k = Some v" for v
    by (simp add: map_of_eq_Some_iff rev_map flip: rev_map)
  then show "map_of (rev xs) k = map_of xs k" by (metis option.exhaust)
qed

lemma parse_pairs:
  assumes "\<forall>(k, v) \<in> set kvs. plain_name k \<and> map_of formal k = Some FString"
  shows "parse_args ns formal (pair_args kvs @ args) actual =
    parse_args ns formal args (fold (\<lambda>(k, v). mput k (VString v)) kvs actual)"
  using assms
proof (induction kvs arbitrary: actual)
  case (Cons kv kvs)
  obtain k v where kv: "kv = (k, v)" by (cases kv)
  from Cons.prems have "plain_name k" "map_of formal k = Some FString" by (auto simp: kv)
  from parse_pair [OF this] Cons show ?case by (simp add: kv)
qed simp

text \<open>The first argument that is not a flag ends the flags.\<close>

lemma parse_stops: "length s < 2 \<or> hd s \<noteq> CHR ''-'' \<Longrightarrow> parse_args ns formal (s # args) actual = Inr (actual, s # args)"
  by simp

declare parse_args.simps [simp del]

lemma parse_nil [simp]: "parse_args ns formal [] actual = Inr (actual, [])"
  by (simp add: parse_args.simps)

end
