(* ===== verification/Federation.thy ===== *)
theory Federation
  imports IrcEvents
begin

text \<open>
  Federation of \<^verbatim>\<open>internal/agent/federation.go\<close>: links to remote servers, channel mappings, and the two
  relay handlers.  A link is known by its name; what a handler sends is a list of client, channel and
  text.  \<^verbatim>\<open>Connect\<close> is the client's and enters \<open>Start\<close> as an argument.
\<close>

datatype client_ref = LocalClient | LinkClient string

record FederationLink =
  flName :: string
  flChannels :: "string list"

record ChannelMapping =
  cmLocalChannel :: string
  cmRemoteChannel :: string
  cmLinkName :: string

text \<open>\<open>fmHandlers\<close> lists the clients on which a relay handler has been registered.\<close>

record FederationManager =
  fmLinks :: "FederationLink gomap"
  fmMappings :: "ChannelMapping list"
  fmHandlers :: "client_ref list"

type_synonym relay = "client_ref \<times> string \<times> string"

datatype 'e fed_error = ErrConnectLink string 'e

definition NewFederationManager :: FederationManager where
  "NewFederationManager = \<lparr>fmLinks = [], fmMappings = [], fmHandlers = []\<rparr>"

definition AddLink :: "string \<Rightarrow> string list \<Rightarrow> FederationManager \<Rightarrow> FederationManager" where
  "AddLink name channels fm =
     fm\<lparr>fmLinks := mput name \<lparr>flName = name, flChannels = channels\<rparr> (fmLinks fm)\<rparr>"

definition AddMapping :: "ChannelMapping \<Rightarrow> FederationManager \<Rightarrow> FederationManager" where
  "AddMapping m fm = fm\<lparr>fmMappings := fmMappings fm @ [m]\<rparr>"

definition IsFederatedMessage :: "string \<Rightarrow> bool" where
  "IsFederatedMessage msg \<longleftrightarrow> prefix ''[fed:'' msg"

text \<open>The loop that connects the links: the clients connected, and the first error.\<close>

fun connect_loop :: "(string \<Rightarrow> 'e option) \<Rightarrow> string list \<Rightarrow> string list \<times> 'e fed_error option" where
  "connect_loop connect [] = ([], None)"
| "connect_loop connect (name # names) =
     (case connect name of
        Some e \<Rightarrow> ([], Some (ErrConnectLink name e))
      | None \<Rightarrow> (case connect_loop connect names of (cs, err) \<Rightarrow> (name # cs, err)))"

definition Start ::
  "(string \<Rightarrow> 'e option) \<Rightarrow> FederationManager \<Rightarrow> string list \<times> ('e fed_error + FederationManager)" where
  "Start connect fm =
     (case connect_loop connect (mkeys (fmLinks fm)) of
        (connected, Some e) \<Rightarrow> (connected, Inl e)
      | (connected, None) \<Rightarrow>
          (connected, Inr (fm\<lparr>fmHandlers := fmHandlers fm @ LocalClient # map LinkClient (mkeys (fmLinks fm))\<rparr>)))"

definition relayLocalToRemote :: "FederationManager \<Rightarrow> MessageEvent \<Rightarrow> relay list" where
  "relayLocalToRemote fm ev =
     map (\<lambda>m. (LinkClient (cmLinkName m), cmRemoteChannel m,
               ''[fed:local] <'' @ meNick ev @ ''> '' @ meMessage ev))
       (filter (\<lambda>m. cmLocalChannel m = meChannel ev \<and> map_of (fmLinks fm) (cmLinkName m) \<noteq> None) (fmMappings fm))"

definition relayRemoteToLocal :: "FederationManager \<Rightarrow> string \<Rightarrow> MessageEvent \<Rightarrow> relay list" where
  "relayRemoteToLocal fm linkName ev =
     map (\<lambda>m. (LocalClient, cmLocalChannel m,
               ''[fed:'' @ linkName @ ''] <'' @ meNick ev @ ''> '' @ meMessage ev))
       (filter (\<lambda>m. cmLinkName m = linkName \<and> cmRemoteChannel m = meChannel ev) (fmMappings fm))"

text \<open>The handlers that \<open>Start\<close> registers, for the local client and for each link.\<close>

fun onMessage :: "FederationManager \<Rightarrow> string \<Rightarrow> client_ref \<Rightarrow> MessageEvent \<Rightarrow> relay list" where
  "onMessage fm localNick LocalClient ev =
     (if IsFederatedMessage (meMessage ev) then []
      else if meNick ev = localNick then []
      else relayLocalToRemote fm ev)"
| "onMessage fm localNick (LinkClient linkName) ev =
     (if IsFederatedMessage (meMessage ev) then [] else relayRemoteToLocal fm linkName ev)"

definition Shutdown :: "FederationManager \<Rightarrow> string list" where
  "Shutdown fm = mkeys (fmLinks fm)"

section \<open>No relay loops\<close>

lemma relayed_is_federated: "(c, ch, text) \<in> set (onMessage fm localNick src ev) \<Longrightarrow> IsFederatedMessage text"
  by (cases src) (auto simp: relayLocalToRemote_def relayRemoteToLocal_def IsFederatedMessage_def
      split: if_splits)

lemma federated_not_relayed: "IsFederatedMessage (meMessage ev) \<Longrightarrow> onMessage fm localNick src ev = []"
  by (cases src) simp_all

text \<open>
  C37.  Relaying cannot loop: whatever a manager relays, no manager, with whatever links and mappings, on
  whatever client it hears the text, and from whatever sender, relays it again.
\<close>

theorem federation_never_loops:
  assumes "(c, ch, text) \<in> set (onMessage fm localNick src ev)" and "meMessage ev' = text"
  shows "onMessage fm' localNick' src' ev' = []"
  using relayed_is_federated [OF assms(1)] assms(2) by (simp add: federated_not_relayed)

definition demo_fed :: FederationManager where
  "demo_fed = AddMapping \<lparr>cmLocalChannel = ''#dev'', cmRemoteChannel = ''#rdev'', cmLinkName = ''east''\<rparr>
     (AddLink ''east'' [''#rdev''] NewFederationManager)"

definition demo_event :: "string \<Rightarrow> string \<Rightarrow> string \<Rightarrow> MessageEvent" where
  "demo_event channel nick text =
     \<lparr>meChannel = channel, meNick = nick, meUser = [], meHost = [], meMessage = text, meIsNotice = False,
      meTimestamp = 0\<rparr>"

theorem federation_never_loops_witness:
  "onMessage demo_fed ''bot'' LocalClient (demo_event ''#dev'' ''ann'' ''hi'')
     = [(LinkClient ''east'', ''#rdev'', ''[fed:local] <ann> hi'')]
   \<and> onMessage demo_fed ''bot'' (LinkClient ''east'') (demo_event ''#rdev'' ''bot'' ''[fed:local] <ann> hi'') = []"
proof -
  have r: "onMessage demo_fed ''bot'' LocalClient (demo_event ''#dev'' ''ann'' ''hi'')
      = [(LinkClient ''east'', ''#rdev'', ''[fed:local] <ann> hi'')]" by code_simp
  then have "(LinkClient ''east'', ''#rdev'', ''[fed:local] <ann> hi'')
      \<in> set (onMessage demo_fed ''bot'' LocalClient (demo_event ''#dev'' ''ann'' ''hi''))" by simp
  from federation_never_loops [OF this, of "demo_event ''#rdev'' ''bot'' ''[fed:local] <ann> hi''"] r
  show ?thesis by (simp add: demo_event_def)
qed

lemma Start_ok_iff:
  "(\<exists>cs fm'. Start connect fm = (cs, Inr fm')) \<longleftrightarrow> list_all (\<lambda>n. connect n = None) (mkeys (fmLinks fm))"
proof -
  have "snd (connect_loop connect ns) = None \<longleftrightarrow> list_all (\<lambda>n. connect n = None) ns" for ns
    by (induction ns) (auto split: option.splits prod.splits)
  from this [of "mkeys (fmLinks fm)"] show ?thesis
    unfolding Start_def by (cases "connect_loop connect (mkeys (fmLinks fm))") (auto split: option.splits)
qed

end
