(* ===== verification/ConfigLoader.thy ===== *)
theory ConfigLoader
  imports IrcConfig Flags ACL Federation
begin

text \<open>
  The configuration of an agent, \<^verbatim>\<open>internal/config/loader.go\<close>: defaults, YAML file, environment and command line
  flags, in rising priority.  An assignment under a condition, \<^verbatim>\<open>if v != "" { cfg.X = v }\<close>, is the update of that field
  by \<open>ov v\<close> of its old value.  The operating system (environment, files), the YAML decoder and \<^verbatim>\<open>time.ParseDuration\<close>
  are the parameter \<open>sys\<close>.
\<close>

section \<open>Layers\<close>

record ('e, 'fc) sys =
  syGetenv :: "string \<Rightarrow> string"
  syReadFile :: "string \<Rightarrow> 'e + string"
  syUnmarshal :: "string \<Rightarrow> 'e + 'fc"
  syParseDuration :: "string \<Rightarrow> duration option"
  syNum :: numsyntax

text \<open>A non-empty text, a non-empty list, a pointer, a duration text, a number: each replaces the old value when it is there.\<close>

definition ov :: "'a list \<Rightarrow> 'a list \<Rightarrow> 'a list" where
  "ov v old = (if v \<noteq> [] then v else old)"

definition ovOpt :: "'a option \<Rightarrow> 'a \<Rightarrow> 'a" where
  "ovOpt v old = (case v of None \<Rightarrow> old | Some x \<Rightarrow> x)"

definition ovDur :: "(string \<Rightarrow> duration option) \<Rightarrow> string \<Rightarrow> duration \<Rightarrow> duration" where
  "ovDur parse v old = (if v \<noteq> [] then ovOpt (parse v) old else old)"

definition ovInt :: "string \<Rightarrow> goint \<Rightarrow> goint" where
  "ovInt v old = (if v \<noteq> [] then ovOpt (Atoi v) old else old)"

definition ovSplit :: "string \<Rightarrow> string list \<Rightarrow> string list" where
  "ovSplit v old = (if v \<noteq> [] then splitTrim v else old)"

definition ovFlag :: "actual \<Rightarrow> string \<Rightarrow> (flag_value \<Rightarrow> 'a) \<Rightarrow> 'a \<Rightarrow> 'a" where
  "ovFlag actual name conv old = (case map_of actual name of None \<Rightarrow> old | Some v \<Rightarrow> conv v)"

section \<open>The structs\<close>

record FederationServerConfig =
  fsName :: string
  fsIRC :: Config

record OTelConfig =
  otEndpoint :: string
  otServiceName :: string
  otSampleRate :: float64

record AppConfig =
  cfIRC :: Config
  cfLogLevel :: string
  cfLogFmt :: string
  cfDashboardAddr :: string
  cfStateFile :: string
  cfACLRules :: "ACLRule list"
  cfCapabilities :: "string list"
  cfDiscoveryTTL :: duration
  cfFederationServers :: "FederationServerConfig list"
  cfFederationMappings :: "ChannelMapping list"
  cfOTel :: OTelConfig
  cfAgentRole :: string
  cfRoles :: "string list"
  cfMaxLoad :: goint
  cfClaimJitter :: duration
  cfMaxReviewIterations :: goint

record fileIRC =
  fiServer :: string
  fiNick :: string
  fiUsername :: string
  fiPassword :: string
  fiRealName :: string
  fiTLS :: "bool option"
  fiTLSInsecureSkipVerify :: bool
  fiSASL :: "bool option"
  fiSASLMech :: string
  fiChannels :: "string list"
  fiAutoRejoinOnKick :: bool
  fiReconnect :: "bool option"
  fiMaxReconnectAttempts :: goint
  fiReconnectBackoff :: string
  fiMaxReconnectBackoff :: string
  fiRateLimit :: "float64 option"
  fiRateLimitBurst :: "goint option"
  fiPingFrequency :: string
  fiTimeout :: string
  fiQuitMessage :: string
  fiDebug :: bool

record fileConfig =
  fcIRC :: fileIRC
  fcLogLevel :: string
  fcLogFmt :: string
  fcDashboardAddr :: string
  fcStateFile :: string
  fcACLRules :: "ACLRule list"
  fcCapabilities :: "string list"
  fcDiscoveryTTL :: string
  fcFederationServers :: "FederationServerConfig list"
  fcFederationMappings :: "ChannelMapping list"
  fcOTel :: OTelConfig

section \<open>File, environment, flags\<close>

definition fileIRC_over :: "(string \<Rightarrow> duration option) \<Rightarrow> fileIRC \<Rightarrow> Config \<Rightarrow> Config" where
  "fileIRC_over dur fi c =
     c\<lparr>icServer := ov (fiServer fi) (icServer c), icNick := ov (fiNick fi) (icNick c),
       icUsername := ov (fiUsername fi) (icUsername c), icPassword := ov (fiPassword fi) (icPassword c),
       icRealName := ov (fiRealName fi) (icRealName c), icTLS := ovOpt (fiTLS fi) (icTLS c),
       icTLSInsecureSkipVerify := fiTLSInsecureSkipVerify fi, icSASL := ovOpt (fiSASL fi) (icSASL c),
       icSASLMech := ov (fiSASLMech fi) (icSASLMech c), icChannels := ov (fiChannels fi) (icChannels c),
       icAutoRejoinOnKick := fiAutoRejoinOnKick fi, icReconnect := ovOpt (fiReconnect fi) (icReconnect c),
       icMaxReconnectAttempts := (if fiMaxReconnectAttempts fi > 0 then fiMaxReconnectAttempts fi
                                  else icMaxReconnectAttempts c),
       icReconnectBackoff := ovDur dur (fiReconnectBackoff fi) (icReconnectBackoff c),
       icMaxReconnectBackoff := ovDur dur (fiMaxReconnectBackoff fi) (icMaxReconnectBackoff c),
       icRateLimit := ovOpt (fiRateLimit fi) (icRateLimit c),
       icRateLimitBurst := ovOpt (fiRateLimitBurst fi) (icRateLimitBurst c),
       icPingFrequency := ovDur dur (fiPingFrequency fi) (icPingFrequency c),
       icTimeout := ovDur dur (fiTimeout fi) (icTimeout c),
       icQuitMessage := ov (fiQuitMessage fi) (icQuitMessage c), icDebug := fiDebug fi\<rparr>"

definition file_over :: "(string \<Rightarrow> duration option) \<Rightarrow> fileConfig \<Rightarrow> AppConfig \<Rightarrow> AppConfig" where
  "file_over dur fc cfg =
     cfg\<lparr>cfIRC := fileIRC_over dur (fcIRC fc) (cfIRC cfg), cfLogLevel := ov (fcLogLevel fc) (cfLogLevel cfg),
         cfLogFmt := ov (fcLogFmt fc) (cfLogFmt cfg), cfDashboardAddr := ov (fcDashboardAddr fc) (cfDashboardAddr cfg),
         cfStateFile := ov (fcStateFile fc) (cfStateFile cfg), cfACLRules := ov (fcACLRules fc) (cfACLRules cfg),
         cfCapabilities := ov (fcCapabilities fc) (cfCapabilities cfg),
         cfDiscoveryTTL := ovDur dur (fcDiscoveryTTL fc) (cfDiscoveryTTL cfg),
         cfFederationServers := ov (fcFederationServers fc) (cfFederationServers cfg),
         cfFederationMappings := ov (fcFederationMappings fc) (cfFederationMappings cfg),
         cfOTel := (cfOTel cfg)
           \<lparr>otEndpoint := ov (otEndpoint (fcOTel fc)) (otEndpoint (cfOTel cfg)),
            otServiceName := ov (otServiceName (fcOTel fc)) (otServiceName (cfOTel cfg)),
            otSampleRate := (if otSampleRate (fcOTel fc) > 0 then otSampleRate (fcOTel fc)
                             else otSampleRate (cfOTel cfg))\<rparr>\<rparr>"

definition loadFromFile :: "('e, fileConfig) sys \<Rightarrow> AppConfig \<Rightarrow> string \<Rightarrow> 'e + AppConfig" where
  "loadFromFile sys cfg path =
     (case syReadFile sys path of
        Inl e \<Rightarrow> Inl e
      | Inr data \<Rightarrow>
          (case syUnmarshal sys data of
             Inl e \<Rightarrow> Inl e
           | Inr fc \<Rightarrow> Inr (file_over (syParseDuration sys) fc cfg)))"

definition applyEnv :: "('e, 'fc) sys \<Rightarrow> AppConfig \<Rightarrow> AppConfig" where
  "applyEnv sys cfg =
     (let env = syGetenv sys
      in cfg\<lparr>cfIRC := (cfIRC cfg)
                \<lparr>icServer := ov (env ''IRC_SERVER'') (icServer (cfIRC cfg)),
                 icNick := ov (env ''IRC_NICK'') (icNick (cfIRC cfg)),
                 icUsername := ov (env ''IRC_USERNAME'') (icUsername (cfIRC cfg)),
                 icPassword := ov (env ''IRC_PASSWORD'') (icPassword (cfIRC cfg)),
                 icRealName := ov (env ''IRC_REALNAME'') (icRealName (cfIRC cfg)),
                 icChannels := ovSplit (env ''IRC_CHANNELS'') (icChannels (cfIRC cfg))\<rparr>,
             cfLogLevel := ov (env ''LOG_LEVEL'') (cfLogLevel cfg),
             cfLogFmt := ov (env ''LOG_FORMAT'') (cfLogFmt cfg),
             cfDashboardAddr := ov (env ''DASHBOARD_ADDR'') (cfDashboardAddr cfg),
             cfStateFile := ov (env ''STATE_FILE'') (cfStateFile cfg),
             cfCapabilities := ovSplit (env ''AGENT_CAPABILITIES'') (cfCapabilities cfg),
             cfOTel := (cfOTel cfg)
               \<lparr>otEndpoint := ov (env ''OTEL_EXPORTER_OTLP_ENDPOINT'') (otEndpoint (cfOTel cfg))\<rparr>,
             cfAgentRole := ov (env ''AGENT_ROLE'') (cfAgentRole cfg),
             cfRoles := ovSplit (env ''AGENT_ROLES'') (cfRoles cfg),
             cfMaxLoad := ovInt (env ''MAX_LOAD'') (cfMaxLoad cfg),
             cfClaimJitter := ovDur (syParseDuration sys) (env ''CLAIM_JITTER'') (cfClaimJitter cfg),
             cfMaxReviewIterations := ovInt (env ''MAX_REVIEW_ITERATIONS'') (cfMaxReviewIterations cfg)\<rparr>)"

definition loaderFlags :: formal where
  "loaderFlags =
     [(''server'', FString), (''nick'', FString), (''username'', FString), (''password'', FString),
      (''realname'', FString), (''channels'', FString), (''tls'', FBool), (''tls-insecure'', FBool),
      (''sasl'', FBool), (''config'', FString), (''log-level'', FString), (''log-format'', FString),
      (''debug'', FBool), (''dashboard-addr'', FString), (''rate-limit'', FFloat), (''rate-limit-burst'', FInt),
      (''state-file'', FString), (''capabilities'', FString), (''otel-endpoint'', FString),
      (''otel-service-name'', FString), (''role'', FString), (''roles'', FString), (''max-load'', FInt),
      (''claim-jitter'', FString), (''max-review-iterations'', FInt)]"

definition applyFlags :: "(string \<Rightarrow> duration option) \<Rightarrow> actual \<Rightarrow> AppConfig \<Rightarrow> AppConfig" where
  "applyFlags dur actual cfg =
     cfg\<lparr>cfIRC := (cfIRC cfg)
           \<lparr>icServer := ovFlag actual ''server'' vstring (icServer (cfIRC cfg)),
            icNick := ovFlag actual ''nick'' vstring (icNick (cfIRC cfg)),
            icUsername := ovFlag actual ''username'' vstring (icUsername (cfIRC cfg)),
            icPassword := ovFlag actual ''password'' vstring (icPassword (cfIRC cfg)),
            icRealName := ovFlag actual ''realname'' vstring (icRealName (cfIRC cfg)),
            icChannels := ovFlag actual ''channels'' (splitTrim \<circ> vstring) (icChannels (cfIRC cfg)),
            icTLS := ovFlag actual ''tls'' vbool (icTLS (cfIRC cfg)),
            icTLSInsecureSkipVerify := ovFlag actual ''tls-insecure'' vbool (icTLSInsecureSkipVerify (cfIRC cfg)),
            icSASL := ovFlag actual ''sasl'' vbool (icSASL (cfIRC cfg)),
            icDebug := ovFlag actual ''debug'' vbool (icDebug (cfIRC cfg)),
            icRateLimit := ovFlag actual ''rate-limit'' vfloat (icRateLimit (cfIRC cfg)),
            icRateLimitBurst := ovFlag actual ''rate-limit-burst'' vint (icRateLimitBurst (cfIRC cfg))\<rparr>,
         cfLogLevel := ovFlag actual ''log-level'' vstring (cfLogLevel cfg),
         cfLogFmt := ovFlag actual ''log-format'' vstring (cfLogFmt cfg),
         cfDashboardAddr := ovFlag actual ''dashboard-addr'' vstring (cfDashboardAddr cfg),
         cfStateFile := ovFlag actual ''state-file'' vstring (cfStateFile cfg),
         cfCapabilities := ovFlag actual ''capabilities'' (splitTrim \<circ> vstring) (cfCapabilities cfg),
         cfOTel := (cfOTel cfg)
           \<lparr>otEndpoint := ovFlag actual ''otel-endpoint'' vstring (otEndpoint (cfOTel cfg)),
            otServiceName := ovFlag actual ''otel-service-name'' vstring (otServiceName (cfOTel cfg))\<rparr>,
         cfAgentRole := ovFlag actual ''role'' vstring (cfAgentRole cfg),
         cfRoles := ovFlag actual ''roles'' (splitTrim \<circ> vstring) (cfRoles cfg),
         cfMaxLoad := ovFlag actual ''max-load'' vint (cfMaxLoad cfg),
         cfClaimJitter := ovFlag actual ''claim-jitter'' (\<lambda>v. ovOpt (dur (vstring v)) (cfClaimJitter cfg)) (cfClaimJitter cfg),
         cfMaxReviewIterations := ovFlag actual ''max-review-iterations'' vint (cfMaxReviewIterations cfg)\<rparr>"

definition defaultAppConfig :: AppConfig where
  "defaultAppConfig =
     \<lparr>cfIRC = DefaultConfig, cfLogLevel = ''info'', cfLogFmt = ''text'', cfDashboardAddr = [], cfStateFile = [],
      cfACLRules = [], cfCapabilities = [], cfDiscoveryTTL = 0, cfFederationServers = [], cfFederationMappings = [],
      cfOTel = \<lparr>otEndpoint = [], otServiceName = [], otSampleRate = 0\<rparr>, cfAgentRole = [], cfRoles = [],
      cfMaxLoad = 0, cfClaimJitter = 0, cfMaxReviewIterations = 0\<rparr>"

datatype 'e load_error = ErrFlag flag_error | ErrFile 'e

definition configPath :: "('e, 'fc) sys \<Rightarrow> actual \<Rightarrow> string" where
  "configPath sys actual =
     (let path = (case map_of actual ''config'' of None \<Rightarrow> [] | Some v \<Rightarrow> vstring v)
      in if path = [] then syGetenv sys ''BORG_CONFIG'' else path)"

definition Load_config :: "('e, fileConfig) sys \<Rightarrow> string list \<Rightarrow> 'e load_error + AppConfig" where
  "Load_config sys args =
     (case parse_args (syNum sys) loaderFlags args [] of
        Inl e \<Rightarrow> Inl (ErrFlag e)
      | Inr (actual, _) \<Rightarrow>
          let path = configPath sys actual
          in case (if path \<noteq> [] then loadFromFile sys defaultAppConfig path else Inr defaultAppConfig) of
               Inl e \<Rightarrow> Inl (ErrFile e)
             | Inr cfg \<Rightarrow> Inr (applyFlags (syParseDuration sys) actual (applyEnv sys cfg)))"

section \<open>Precedence\<close>

text \<open>The value of a setting: the flag when it was given, else the variable, else the file, else the default.\<close>

definition layered :: "'a option \<Rightarrow> 'a \<Rightarrow> bool \<Rightarrow> 'a \<Rightarrow> bool \<Rightarrow> 'a \<Rightarrow> 'a" where
  "layered flag env env_set file file_set dflt =
     (case flag of Some v \<Rightarrow> v | None \<Rightarrow> if env_set then env else if file_set then file else dflt)"

lemma ovFlag_layered:
  "ovFlag actual n conv (ov e (ov f d)) = layered (map_option conv (map_of actual n)) e (e \<noteq> []) f (f \<noteq> []) d"
  "ovFlag actual n conv' (ovSplit e' (ov f' d')) =
     layered (map_option conv' (map_of actual n)) (splitTrim e') (e' \<noteq> []) f' (f' \<noteq> []) d'"
  "ovFlag actual n conv' (ovSplit e' []) =
     layered (map_option conv' (map_of actual n)) (splitTrim e') (e' \<noteq> []) [] False []"
  by (simp_all add: ovFlag_def layered_def ov_def ovSplit_def split: option.split)


definition demo_fileIRC :: fileIRC where
  "demo_fileIRC = \<lparr>fiServer = ''file:1'', fiNick = ''f'', fiUsername = [], fiPassword = [], fiRealName = [], fiTLS = None,
     fiTLSInsecureSkipVerify = False, fiSASL = None, fiSASLMech = [], fiChannels = [''#f''], fiAutoRejoinOnKick = False,
     fiReconnect = None, fiMaxReconnectAttempts = 0, fiReconnectBackoff = [], fiMaxReconnectBackoff = [],
     fiRateLimit = None, fiRateLimitBurst = None, fiPingFrequency = [], fiTimeout = [], fiQuitMessage = [],
     fiDebug = False\<rparr>"

definition demo_file :: fileConfig where
  "demo_file = \<lparr>fcIRC = demo_fileIRC, fcLogLevel = [], fcLogFmt = [], fcDashboardAddr = [], fcStateFile = [],
     fcACLRules = [], fcCapabilities = [], fcDiscoveryTTL = [], fcFederationServers = [], fcFederationMappings = [],
     fcOTel = \<lparr>otEndpoint = [], otServiceName = [], otSampleRate = 0\<rparr>\<rparr>"

definition demo_sys :: "(string, fileConfig) sys" where
  "demo_sys = \<lparr>syGetenv = (\<lambda>n. if n = ''IRC_NICK'' then ''e'' else if n = ''BORG_CONFIG'' then ''c.yaml'' else []),
     syReadFile = (\<lambda>_. Inr []), syUnmarshal = (\<lambda>_. Inr demo_file), syParseDuration = (\<lambda>_. None),
     syNum = \<lparr>nsInt = (\<lambda>_. None), nsFloat = (\<lambda>_. None)\<rparr>\<rparr>"


end
