(* ===== verification/Agent.thy ===== *)
theory Agent
  imports Dispatcher Sanitizer Notifier Metrics Inspector Persistence Roles Workflow ConfigLoader
begin

text \<open>
  The agent of \<^verbatim>\<open>internal/agent/agent.go\<close>: how the stores and handlers are wired together, the one function
  through which it sends protocol messages, the message builders on top of it, and what it does with an
  event from the IRC client.  The sending client never fails from the agent's point of view: its result is
  ignored.
\<close>

record Agent =
  agProtocol :: Dispatcher
  agNotifier :: Notifier
  agMetrics :: MetricsCollector
  agInspector :: DebugInspector
  agPersist :: "StatePersistence option"
  agRoleEngine :: "RoleEngine option"
  agCapabilities :: "string list"
  agWorkflowEngine :: WorkflowEngine

datatype agent_error = ErrSanitize proto_error | ErrACLDenied Action string

section \<open>Wiring\<close>

definition loadedState :: "'e io \<Rightarrow> files \<Rightarrow> AppConfig \<Rightarrow> StateStore" where
  "loadedState io fs cfg =
     (if cfStateFile cfg \<noteq> []
      then snd (Load io (NewStatePersistence (cfStateFile cfg) 5000000000) fs NewStateStore)
      else NewStateStore)"

definition roleEngineFor :: "string list \<Rightarrow> RoleEngine option" where
  "roleEngineFor roles =
     (if length roles > 0
      then Some (fold (\<lambda>role re. case BuiltinBehavior role of None \<Rightarrow> re | Some b \<Rightarrow> RegisterBehavior b re)
                   roles (NewRoleEngine roles))
      else None)"

definition initProtocol :: "'e io \<Rightarrow> files \<Rightarrow> string \<Rightarrow> AppConfig \<Rightarrow> Agent" where
  "initProtocol io fs nick cfg =
     (let persist = (if cfStateFile cfg \<noteq> [] then Some (NewStatePersistence (cfStateFile cfg) 5000000000) else None);
          pd = NewProtocolDispatcher nick (loadedState io fs cfg) NewContextStore;
          pd = (if length (cfACLRules cfg) > 0 then pd\<lparr>pdAcl := Some (NewACLEngine (cfACLRules cfg))\<rparr> else pd);
          pd = pd\<lparr>pdDiscovery := Some (NewDiscoveryStore (cfDiscoveryTTL cfg)), pdSelfCaps := cfCapabilities cfg\<rparr>;
          pd = snd (OnProtocolMessage HNotifier pd);
          pd = snd (OnProtocolMessage HMetrics pd);
          pd = snd (OnProtocolMessage HInspector pd);
          pd = (if persist \<noteq> None then snd (OnProtocolMessage HPersist pd) else pd);
          pd = pd\<lparr>pdTaskBoard := Some (NewTaskBoard (cfClaimJitter cfg)), pdHandoff := Some NewHandoffStore,
                  pdReview := Some (NewReviewStore (cfMaxReviewIterations cfg)),
                  pdConsensus := Some NewConsensusStore\<rparr>;
          roles = roleEngineFor (cfRoles cfg);
          caps = cfCapabilities cfg @ (case roles of None \<Rightarrow> [] | Some re \<Rightarrow> ExpertiseTags re);
          pd = (case roles of
                  None \<Rightarrow> pd
                | Some re \<Rightarrow> snd (OnProtocolMessage HRoles (pd\<lparr>pdSelfCaps := caps\<rparr>)))
      in \<lparr>agProtocol = pd, agNotifier = NewNotifier, agMetrics = NewMetricsCollector,
          agInspector = NewDebugInspector 1000, agPersist = persist, agRoleEngine = roles,
          agCapabilities = caps, agWorkflowEngine = NewWorkflowEngine\<rparr>)"

section \<open>Sending\<close>

definition logEntry :: "string \<Rightarrow> Message \<Rightarrow> string \<Rightarrow> MessageLogEntry" where
  "logEntry direction msg raw =
     \<lparr>mlTimestamp = msgTimestamp msg, mlDirection = direction, mlChannel = msgChannel msg, mlNick = msgNick msg,
      mlAction = action_string (msgAction msg), mlRaw = raw\<rparr>"

definition dirtyOnSend :: "Action list" where
  "dirtyOnSend = [ActionStarted, ActionCompleted, ActionBlocked, ActionAcknowledged]"

text \<open>The error, the agent afterwards, and the texts sent.\<close>

definition SendProtocolMessage ::
  "gotime \<Rightarrow> string \<Rightarrow> Message \<Rightarrow> Agent \<Rightarrow> agent_error option \<times> Agent \<times> outbox" where
  "SendProtocolMessage now target msg a =
     (case Sanitize msg of
        Some err \<Rightarrow> (Some (ErrSanitize err), a, [])
      | None \<Rightarrow>
          let pd = agProtocol a; nick = pdSelfNick pd
          in if (case pdAcl pd of None \<Rightarrow> False | Some acl \<Rightarrow> \<not> Check acl nick target (msgAction msg))
             then (Some (ErrACLDenied (msgAction msg) target), a, [])
             else
               let localMsg = msg\<lparr>msgChannel := target, msgNick := nick,
                     msgTimestamp := (if isZero (msgTimestamp msg) then now else msgTimestamp msg)\<rparr>;
                   a = a\<lparr>agProtocol := fst (updateLocalState now localMsg pd)\<rparr>;
                   wireMsg = String_Message msg;
                   a = a\<lparr>agMetrics := RecordMessageSent (agMetrics a)\<rparr>;
                   a = (if msgAction msg \<in> set dirtyOnSend
                        then a\<lparr>agPersist := map_option (MarkDirty now) (agPersist a)\<rparr> else a);
                   a = a\<lparr>agInspector := RecordMessage (logEntry ''out'' localMsg wireMsg) (agInspector a)\<rparr>
               in (None, a, [(target, wireMsg)]))"

section \<open>Message builders\<close>

text \<open>An optional field: present when the argument is not empty.\<close>

definition optField :: "string \<Rightarrow> string \<Rightarrow> string gomap" where
  "optField k v = (if v \<noteq> [] then [(k, v)] else [])"

type_synonym sending = "Agent \<Rightarrow> agent_error option \<times> Agent \<times> outbox"

definition AnnounceStarted :: "gotime \<Rightarrow> string \<Rightarrow> string \<Rightarrow> string \<Rightarrow> string list \<Rightarrow> sending" where
  "AnnounceStarted now channel task priority tags =
     SendProtocolMessage now channel
       (mkMessage ActionStarted ((''task'', task) # optField ''priority'' priority) tags)"

definition AnnounceCompleted :: "gotime \<Rightarrow> string \<Rightarrow> string \<Rightarrow> string list \<Rightarrow> sending" where
  "AnnounceCompleted now channel task tags =
     SendProtocolMessage now channel (mkMessage ActionCompleted [(''task'', task)] tags)"

definition AnnounceBlocked :: "gotime \<Rightarrow> string \<Rightarrow> string \<Rightarrow> string \<Rightarrow> string list \<Rightarrow> sending" where
  "AnnounceBlocked now channel task waitingFor tags =
     SendProtocolMessage now channel
       (mkMessage ActionBlocked ((''task'', task) # optField ''waiting-for'' waitingFor) tags)"

definition RequestHelp :: "gotime \<Rightarrow> string \<Rightarrow> string \<Rightarrow> string \<Rightarrow> string list \<Rightarrow> sending" where
  "RequestHelp now channel task expertise tags =
     SendProtocolMessage now channel
       (mkMessage ActionHelpNeeded ((''task'', task) # optField ''expertise'' expertise) tags)"

definition ShareContext :: "gotime \<Rightarrow> string \<Rightarrow> string \<Rightarrow> string \<Rightarrow> string \<Rightarrow> sending" where
  "ShareContext now channel component project status =
     SendProtocolMessage now channel
       (mkMessage ActionContext
          ((''component'', component) # optField ''project'' project @ optField ''status'' status) [])"

definition RequestContext :: "gotime \<Rightarrow> string \<Rightarrow> string \<Rightarrow> sending" where
  "RequestContext now channel component =
     SendProtocolMessage now channel (mkMessage ActionRequestContext [(''component'', component)] [])"

definition Discover :: "gotime \<Rightarrow> string \<Rightarrow> string \<Rightarrow> sending" where
  "Discover now channel expertise =
     SendProtocolMessage now channel (mkMessage ActionDiscover [(''expertise'', expertise)] [])"

definition AnnounceCapabilities :: "gotime \<Rightarrow> string \<Rightarrow> sending" where
  "AnnounceCapabilities now channel a =
     (if length (agCapabilities a) = 0 then (None, a, [])
      else SendProtocolMessage now channel
             (mkMessage ActionCapabilities [(''expertise'', Join (agCapabilities a) '','')] []) a)"

definition OfferTask :: "gotime \<Rightarrow> string \<Rightarrow> string \<Rightarrow> string \<Rightarrow> string \<Rightarrow> string list \<Rightarrow> sending" where
  "OfferTask now channel task priority scope tags =
     SendProtocolMessage now channel
       (mkMessage ActionOffer
          ((''task'', task) # optField ''priority'' priority @ optField ''scope'' scope) tags)"

definition claimMessage :: "string \<Rightarrow> goint \<Rightarrow> Message" where
  "claimMessage task load = mkMessage ActionClaim [(''task'', task), (''load'', itoa load)] []"

definition ClaimTask :: "gotime \<Rightarrow> string \<Rightarrow> string \<Rightarrow> goint \<Rightarrow> sending" where
  "ClaimTask now channel task load = SendProtocolMessage now channel (claimMessage task load)"

definition AssignTask :: "gotime \<Rightarrow> string \<Rightarrow> string \<Rightarrow> string \<Rightarrow> sending" where
  "AssignTask now channel task to =
     SendProtocolMessage now channel (mkMessage ActionAssign [(''task'', task), (''to'', to)] [])"

definition AcceptTask :: "gotime \<Rightarrow> string \<Rightarrow> string \<Rightarrow> sending" where
  "AcceptTask now channel task =
     SendProtocolMessage now channel (mkMessage ActionAccept [(''task'', task)] [])"

definition DeclineTask :: "gotime \<Rightarrow> string \<Rightarrow> string \<Rightarrow> string \<Rightarrow> sending" where
  "DeclineTask now channel task reason =
     SendProtocolMessage now channel
       (mkMessage ActionDecline ((''task'', task) # optField ''reason'' reason) [])"

definition YieldTask :: "gotime \<Rightarrow> string \<Rightarrow> string \<Rightarrow> string \<Rightarrow> sending" where
  "YieldTask now channel task reason =
     SendProtocolMessage now channel
       (mkMessage ActionYield ((''task'', task) # optField ''reason'' reason) [])"

definition checkpointMessage :: "string \<Rightarrow> goint \<Rightarrow> string \<Rightarrow> Message" where
  "checkpointMessage task progress summary =
     mkMessage ActionCheckpoint
       ((''task'', task) # (''progress'', itoa progress) # optField ''summary'' summary) []"

definition Checkpoint :: "gotime \<Rightarrow> string \<Rightarrow> string \<Rightarrow> goint \<Rightarrow> string \<Rightarrow> sending" where
  "Checkpoint now channel task progress summary =
     SendProtocolMessage now channel (checkpointMessage task progress summary)"

definition Handoff_task :: "gotime \<Rightarrow> string \<Rightarrow> string \<Rightarrow> string \<Rightarrow> string \<Rightarrow> sending" where
  "Handoff_task now channel task to contextID =
     SendProtocolMessage now channel
       (mkMessage ActionHandoff
          ((''task'', task) # (''to'', to) # optField ''context-id'' contextID) [])"

definition RequestReview :: "gotime \<Rightarrow> string \<Rightarrow> string \<Rightarrow> string \<Rightarrow> string \<Rightarrow> sending" where
  "RequestReview now channel task pr reviewType =
     SendProtocolMessage now channel
       (mkMessage ActionReviewRequest
          ((''task'', task) # optField ''pr'' pr @ optField ''review-type'' reviewType) [])"

definition CompleteReview :: "gotime \<Rightarrow> string \<Rightarrow> string \<Rightarrow> string \<Rightarrow> string \<Rightarrow> string \<Rightarrow> sending" where
  "CompleteReview now channel task pr verdict details =
     SendProtocolMessage now channel
       (mkMessage ActionReviewComplete
          ((''task'', task) # (''verdict'', verdict) # optField ''pr'' pr @ optField ''details'' details) [])"

definition GateCheck :: "gotime \<Rightarrow> string \<Rightarrow> string \<Rightarrow> string \<Rightarrow> string \<Rightarrow> string \<Rightarrow> sending" where
  "GateCheck now channel task gate status details =
     SendProtocolMessage now channel
       (mkMessage ActionGateCheck
          ((''task'', task) # (''gate'', gate) # (''status'', status) # optField ''details'' details) [])"

definition Vote :: "gotime \<Rightarrow> string \<Rightarrow> string \<Rightarrow> string \<Rightarrow> sending" where
  "Vote now channel topic choice =
     SendProtocolMessage now channel (mkMessage ActionVote [(''topic'', topic), (''choice'', choice)] [])"

definition Escalate :: "gotime \<Rightarrow> string \<Rightarrow> string \<Rightarrow> string \<Rightarrow> string \<Rightarrow> string \<Rightarrow> sending" where
  "Escalate now channel task to reason severity =
     SendProtocolMessage now channel
       (mkMessage ActionEscalate
          [(''task'', task), (''to'', to), (''reason'', reason), (''severity'', severity)] [])"

text \<open>A sequence of sends whose errors are dropped, as the heartbeat and the role handler do.\<close>

fun sendAll :: "gotime \<Rightarrow> (string \<times> Message) list \<Rightarrow> Agent \<Rightarrow> Agent \<times> outbox" where
  "sendAll now [] a = (a, [])"
| "sendAll now ((target, msg) # ms) a =
     (case SendProtocolMessage now target msg a of
        (_, a', out) \<Rightarrow> (case sendAll now ms a' of (a'', out') \<Rightarrow> (a'', out @ out')))"

definition announceCapabilities :: "gotime \<Rightarrow> string list \<Rightarrow> Agent \<Rightarrow> Agent \<times> outbox" where
  "announceCapabilities now joined a =
     (if length (agCapabilities a) = 0 then (a, [])
      else sendAll now
             (map (\<lambda>ch. (ch, mkMessage ActionCapabilities [(''expertise'', Join (agCapabilities a) '','')] [])) joined) a)"

text \<open>One tick of the discovery heartbeat.\<close>

definition heartbeat :: "gotime \<Rightarrow> string list \<Rightarrow> Agent \<Rightarrow> Agent \<times> outbox" where
  "heartbeat now joined a =
     (case announceCapabilities now joined a of
        (a, out) \<Rightarrow>
          (a\<lparr>agProtocol := (agProtocol a)\<lparr>pdDiscovery := map_option (Prune now) (pdDiscovery (agProtocol a))\<rparr>\<rparr>, out))"

section \<open>Receiving\<close>

fun runHandler ::
  "(string \<Rightarrow> string) \<Rightarrow> gotime \<Rightarrow> handler_ref \<times> Message \<Rightarrow> Agent \<Rightarrow> Agent \<times> outbox" where
  "runHandler q now (HNotifier, msg) a = (a, HandleNotification q (agNotifier a) msg)"
| "runHandler q now (HMetrics, msg) a = (a\<lparr>agMetrics := HandleProtocolMessage msg (agMetrics a)\<rparr>, [])"
| "runHandler q now (HInspector, msg) a =
     (a\<lparr>agInspector := RecordMessage (logEntry ''in'' msg (String_Message msg)) (agInspector a)\<rparr>, [])"
| "runHandler q now (HPersist, msg) a =
     (if msgAction msg \<in> set stateActions
      then (a\<lparr>agPersist := map_option (MarkDirty now) (agPersist a)\<rparr>, []) else (a, []))"
| "runHandler q now (HRoles, msg) a =
     (case agRoleEngine a of
        None \<Rightarrow> (a, [])
      | Some re \<Rightarrow> sendAll now (map (\<lambda>resp. (msgChannel msg, resp)) (HandleMessage re msg)) a)"
| "runHandler q now (HUser n, msg) a = (a, [])"

fun runHandlers ::
  "(string \<Rightarrow> string) \<Rightarrow> gotime \<Rightarrow> (handler_ref \<times> Message) list \<Rightarrow> Agent \<Rightarrow> Agent \<times> outbox" where
  "runHandlers q now [] a = (a, [])"
| "runHandlers q now (c # cs) a =
     (case runHandler q now c a of
        (a', out) \<Rightarrow> (case runHandlers q now cs a' of (a'', out') \<Rightarrow> (a'', out @ out')))"

text \<open>The dispatcher's handler and the counting handler on one event.\<close>

definition receiveEvent :: "(string \<Rightarrow> string) \<Rightarrow> gotime \<Rightarrow> MessageEvent \<Rightarrow> Agent \<Rightarrow> Agent \<times> outbox" where
  "receiveEvent q now ev a =
     (let (pd, ef) = handleMessage now ev (agProtocol a);
          a = a\<lparr>agProtocol := pd\<rparr>;
          (a, out) = runHandlers q now (efCalls ef) a
      in (a\<lparr>agMetrics := RecordRawMessageReceived (agMetrics a)\<rparr>, efSends ef @ out))"

end
