(* ===== verification/Dashboard.thy ===== *)
theory Dashboard
  imports Mux Health Agent
begin

text \<open>
  The agent's dashboard, \<^verbatim>\<open>internal/agent/dashboard.go\<close>: its routes and the page each handler writes.  The JSON encoding of a page is the
  parameter \<open>js\<close>, the constant text of the index page the parameter \<open>html\<close>.
\<close>

section \<open>State\<close>

text \<open>The components are pointers into the agent, so a request sees what they hold when it is served.\<close>

record Dashboard =
  dbHealth :: HealthMonitor
  dbMetrics :: MetricsCollector
  dbInspector :: DebugInspector
  dbState :: StateStore
  dbContext :: ContextStore
  dbDiscovery :: "DiscoveryStore option"
  dbTaskBoard :: "TaskBoard option"
  dbHandoff :: "HandoffStore option"
  dbReview :: "ReviewStore option"
  dbConsensus :: "ConsensusStore option"
  dbAddr :: string

definition NewDashboard ::
  "string \<Rightarrow> HealthMonitor \<Rightarrow> MetricsCollector \<Rightarrow> DebugInspector \<Rightarrow> StateStore \<Rightarrow> ContextStore \<Rightarrow> DiscoveryStore option
    \<Rightarrow> TaskBoard option \<Rightarrow> HandoffStore option \<Rightarrow> ReviewStore option \<Rightarrow> ConsensusStore option \<Rightarrow> Dashboard" where
  "NewDashboard addr health metrics inspector state context discovery taskBoard handoff review consensus =
     \<lparr>dbHealth = health, dbMetrics = metrics, dbInspector = inspector, dbState = state, dbContext = context,
      dbDiscovery = discovery, dbTaskBoard = taskBoard, dbHandoff = handoff, dbReview = review, dbConsensus = consensus,
      dbAddr = addr\<rparr>"

text \<open>The dashboard that \<^verbatim>\<open>Agent.Start\<close> builds.\<close>

definition agentDashboard :: "string \<Rightarrow> HealthMonitor \<Rightarrow> Agent \<Rightarrow> Dashboard" where
  "agentDashboard addr health a =
     (let pd = agProtocol a
      in NewDashboard addr health (agMetrics a) (agInspector a) (pdState pd) (pdContext pd) (pdDiscovery pd) (pdTaskBoard pd)
           (pdHandoff pd) (pdReview pd) (pdConsensus pd))"

section \<open>Handlers\<close>

datatype dash_page =
  PgHealth | PgMetrics | PgTasks | PgDependencies | PgAgents | PgContext | PgMessages | PgDiscovery | PgTaskBoard
| PgHandoffs | PgReviews | PgConsensus | PgIndex

definition dashboardRoutes :: "dash_page route list" where
  "dashboardRoutes =
     [get_route [Lit ''health''] PgHealth, get_route [Lit ''metrics''] PgMetrics, get_route [Lit ''tasks''] PgTasks,
      get_route [Lit ''dependencies''] PgDependencies, get_route [Lit ''agents''] PgAgents, get_route [Lit ''context''] PgContext,
      get_route [Lit ''messages''] PgMessages, get_route [Lit ''discovery''] PgDiscovery, get_route [Lit ''taskboard''] PgTaskBoard,
      get_route [Lit ''handoffs''] PgHandoffs, get_route [Lit ''reviews''] PgReviews, get_route [Lit ''consensus''] PgConsensus,
      get_tree PgIndex]"

text \<open>The values that are written as JSON.\<close>

datatype dash_value =
  VHealth HealthStatus | VMetrics MetricsSnapshot | VTasks "TaskInfo list" | VGraph "TaskGraphNode list"
| VActivity "AgentActivitySummary list" | VContext "ContextEntry list" | VMessages "MessageLogEntry list"
| VCapabilities "AgentCapability list" | VOffers "OfferInfo list" | VHandoffs "HandoffRecord list"
| VReviews "ReviewRecord list" | VTopics "TopicSummary list"

definition orEmpty :: "('s \<Rightarrow> 'v list) \<Rightarrow> 's option \<Rightarrow> 'v list" where
  "orEmpty q store = (case store of None \<Rightarrow> [] | Some s \<Rightarrow> q s)"

definition handleHealth :: "gotime \<Rightarrow> conn_view \<Rightarrow> 'h ircClient \<Rightarrow> Dashboard \<Rightarrow> dash_value" where
  "handleHealth now conn client d = VHealth (Check_health now conn client (dbState d) (dbHealth d))"

definition handleMetrics :: "gotime \<Rightarrow> Dashboard \<Rightarrow> dash_value" where
  "handleMetrics now d = VMetrics (Snapshot_metrics now (dbMetrics d))"

definition handleTasks :: "Dashboard \<Rightarrow> dash_value" where
  "handleTasks d = VTasks (ListTasks (dbState d))"

definition handleDependencies :: "Dashboard \<Rightarrow> dash_value" where
  "handleDependencies d = VGraph (TaskGraph (dbState d))"

definition handleAgents :: "Dashboard \<Rightarrow> dash_value" where
  "handleAgents d = VActivity (AgentActivity (dbState d))"

definition handleContext :: "Dashboard \<Rightarrow> dash_value" where
  "handleContext d = VContext (ListEntries (dbContext d))"

definition handleMessages :: "Dashboard \<Rightarrow> dash_value" where
  "handleMessages d = VMessages (RecentMessages 100 (dbInspector d))"

definition handleDiscovery_page :: "gotime \<Rightarrow> Dashboard \<Rightarrow> dash_value" where
  "handleDiscovery_page now d = VCapabilities (orEmpty (ListActive now) (dbDiscovery d))"

definition handleTaskBoard :: "Dashboard \<Rightarrow> dash_value" where
  "handleTaskBoard d = VOffers (orEmpty ListOffers (dbTaskBoard d))"

definition handleHandoffs :: "Dashboard \<Rightarrow> dash_value" where
  "handleHandoffs d = VHandoffs (orEmpty ListHandoffs (dbHandoff d))"

definition handleReviews :: "Dashboard \<Rightarrow> dash_value" where
  "handleReviews d = VReviews (orEmpty ListReviews (dbReview d))"

definition handleConsensus :: "Dashboard \<Rightarrow> dash_value" where
  "handleConsensus d = VTopics (orEmpty ListTopics (dbConsensus d))"

definition handleIndex :: "string \<Rightarrow> response" where
  "handleIndex html = \<lparr>rsStatus = 200, rsType = Some ''text/html; charset=utf-8'', rsBody = html\<rparr>"

fun dashboardPage ::
  "(dash_value \<Rightarrow> string option) \<Rightarrow> string \<Rightarrow> gotime \<Rightarrow> conn_view \<Rightarrow> 'h ircClient \<Rightarrow> Dashboard \<Rightarrow> dash_page \<Rightarrow> response" where
  "dashboardPage js html now conn client d PgHealth = json_response js (handleHealth now conn client d)"
| "dashboardPage js html now conn client d PgMetrics = json_response js (handleMetrics now d)"
| "dashboardPage js html now conn client d PgTasks = json_response js (handleTasks d)"
| "dashboardPage js html now conn client d PgDependencies = json_response js (handleDependencies d)"
| "dashboardPage js html now conn client d PgAgents = json_response js (handleAgents d)"
| "dashboardPage js html now conn client d PgContext = json_response js (handleContext d)"
| "dashboardPage js html now conn client d PgMessages = json_response js (handleMessages d)"
| "dashboardPage js html now conn client d PgDiscovery = json_response js (handleDiscovery_page now d)"
| "dashboardPage js html now conn client d PgTaskBoard = json_response js (handleTaskBoard d)"
| "dashboardPage js html now conn client d PgHandoffs = json_response js (handleHandoffs d)"
| "dashboardPage js html now conn client d PgReviews = json_response js (handleReviews d)"
| "dashboardPage js html now conn client d PgConsensus = json_response js (handleConsensus d)"
| "dashboardPage js html now conn client d PgIndex = handleIndex html"

definition serveDashboard ::
  "(dash_value \<Rightarrow> string option) \<Rightarrow> string \<Rightarrow> gotime \<Rightarrow> conn_view \<Rightarrow> 'h ircClient \<Rightarrow> Dashboard \<Rightarrow> request \<Rightarrow> reply" where
  "serveDashboard js html now conn client d req =
     (case ServeMux dashboardRoutes req of
        Found pg _ \<Rightarrow> Reply (dashboardPage js html now conn client d pg)
      | r \<Rightarrow> mux_reply r)"

section \<open>Which page is where\<close>

definition pages :: "(string \<times> dash_page) list" where
  "pages = [(''health'', PgHealth), (''metrics'', PgMetrics), (''tasks'', PgTasks), (''dependencies'', PgDependencies),
     (''agents'', PgAgents), (''context'', PgContext), (''messages'', PgMessages), (''discovery'', PgDiscovery),
     (''taskboard'', PgTaskBoard), (''handoffs'', PgHandoffs), (''reviews'', PgReviews), (''consensus'', PgConsensus)]"

text \<open>Every clean path that is no page of its own shows the index.\<close>

definition page_at :: "string list \<Rightarrow> dash_page" where
  "page_at path =
     (case path of [name] \<Rightarrow> (case map_of pages name of Some pg \<Rightarrow> pg | None \<Rightarrow> PgIndex) | _ \<Rightarrow> PgIndex)"

lemma dashboard_match:
  assumes "path \<noteq> []"
  shows "match_path (of_method ''GET'' dashboardRoutes) path = Some (page_at path, [])"
proof -
  have r: "of_method ''GET'' dashboardRoutes = map (\<lambda>(n, h). ([Lit n], False, h)) pages @ [([], True, PgIndex)]"
    by (simp add: dashboardRoutes_def pages_def)
  have "map_of pages [] = None" by (simp add: pages_def)
  with match_flat [OF assms, of pages PgIndex] show ?thesis
    by (simp add: r page_at_def split: list.split option.split)
qed

theorem dashboard_serves:
  assumes "clean_path (rqPath req)"
  shows "serveDashboard js html now conn client d req =
    (if rqMethod req = ''GET'' \<or> rqMethod req = ''HEAD'' then Reply (dashboardPage js html now conn client d (page_at (rqPath req)))
     else Reply (http_error ''Method Not Allowed'' 405))"
proof -
  let ?path = "rqPath req"
  from assms have ne: "?path \<noteq> []" by (simp add: clean_path_def)
  have other: "meth \<noteq> ''GET'' \<Longrightarrow> of_method meth dashboardRoutes = []" for meth
    by (simp add: dashboardRoutes_def)
  have m: "match_request dashboardRoutes meth ?path =
      (if meth = ''GET'' \<or> meth = ''HEAD'' then Some (page_at ?path, []) else None)" for meth
  proof (cases "meth = ''GET''")
    case False
    with other [OF False] dashboard_match [OF ne] show ?thesis by (simp add: match_request_def)
  qed (simp add: match_request_def dashboard_match [OF ne])
  have "get_tree PgIndex \<in> set dashboardRoutes" by (simp add: dashboardRoutes_def)
  then have ex: "\<exists>r \<in> set dashboardRoutes. match_request dashboardRoutes (rtMethod r) ?path \<noteq> None"
    by (rule bexI [rotated]) (simp add: m get_tree_def)
  show ?thesis using assms ex by (simp add: serveDashboard_def ServeMux_def m mux_reply_def)
qed

end
