(* ===== verification/Spawner.thy ===== *)
theory Spawner
  imports ConfigLoader
begin

text \<open>
  The spawners of \<^verbatim>\<open>internal/spawner\<close>: how an agent is started, checked and stopped as a local process, over
  SSH or in a Docker container.  The operating system is the parameter \<open>host\<close>: what starting a process, running a
  command or sending a signal yields, whether the process is alive or its dashboard healthy at an instant, whether
  the caller's context is done, and how long a pause takes longer than asked.  Each operation returns, beside its
  result, what it asked the host to do.
\<close>

section \<open>Data\<close>

datatype InstanceStatus =
  StatusPending | StatusStarting | StatusRunning | StatusStopping | StatusStopped | StatusFailed

fun instance_status_string :: "InstanceStatus \<Rightarrow> string" where
  "instance_status_string StatusPending = ''pending''"
| "instance_status_string StatusStarting = ''starting''"
| "instance_status_string StatusRunning = ''running''"
| "instance_status_string StatusStopping = ''stopping''"
| "instance_status_string StatusStopped = ''stopped''"
| "instance_status_string StatusFailed = ''failed''"

record SpawnConfig =
  scNick :: string
  scServer :: string
  scUsername :: string
  scPassword :: string
  scChannels :: "string list"
  scCapabilities :: "string list"
  scRoles :: "string list"
  scDashboardAddr :: string
  scExtraFlags :: "string gomap"
  scBinaryPath :: string
  scSSHHost :: string
  scSSHUser :: string
  scSSHKeyPath :: string
  scDockerImage :: string
  scDockerNetwork :: string

record AgentInstance =
  aiID :: string
  aiNick :: string
  aiSpawnerType :: string
  aiHost :: string
  aiContainerID :: string
  aiDashboardURL :: string
  aiError :: string
  aiConfig :: SpawnConfig
  aiStatus :: InstanceStatus
  aiPID :: goint
  aiStartedAt :: gotime
  aiStoppedAt :: gotime

datatype 'e spawn_error =
  SpNickRequired | SpServerRequired | SpUsernameRequired | SpPasswordRequired
| SpBinaryPathRequired | SpBinaryNotFound 'e | SpSSHHostRequired | SpSSHUserRequired | SpDockerImageRequired
| SpStart 'e | SpRun 'e string | SpContext | SpNoPID string | SpSignal 'e

definition Validate_spawn :: "SpawnConfig \<Rightarrow> 'e spawn_error option" where
  "Validate_spawn c =
     (if scNick c = [] then Some SpNickRequired
      else if scServer c = [] then Some SpServerRequired
      else if scUsername c = [] then Some SpUsernameRequired
      else if scPassword c = [] then Some SpPasswordRequired
      else None)"

section \<open>Command lines\<close>

definition joinComma :: "string list \<Rightarrow> string" where
  "joinComma ss = Join ss '',''"

definition BuildCLIArgs :: "SpawnConfig \<Rightarrow> string list" where
  "BuildCLIArgs cfg =
     (if scServer cfg \<noteq> [] then [''--server'', scServer cfg] else [])
     @ (if scNick cfg \<noteq> [] then [''--nick'', scNick cfg] else [])
     @ (if scUsername cfg \<noteq> [] then [''--username'', scUsername cfg] else [])
     @ (if scPassword cfg \<noteq> [] then [''--password'', scPassword cfg] else [])
     @ (if scChannels cfg \<noteq> [] then [''--channels'', joinComma (scChannels cfg)] else [])
     @ (if scCapabilities cfg \<noteq> [] then [''--capabilities'', joinComma (scCapabilities cfg)] else [])
     @ (if scRoles cfg \<noteq> [] then [''--roles'', joinComma (scRoles cfg)] else [])
     @ (if scDashboardAddr cfg \<noteq> [] then [''--dashboard-addr'', scDashboardAddr cfg] else [])
     @ concat (map (\<lambda>(k, v). [''--'' @ k, v]) (scExtraFlags cfg))"

definition buildSSHArgs :: "SpawnConfig \<Rightarrow> string \<Rightarrow> string list" where
  "buildSSHArgs cfg remoteCmd =
     [''-o'', ''StrictHostKeyChecking=no'', ''-o'', ''BatchMode=yes'']
     @ (if scSSHKeyPath cfg \<noteq> [] then [''-i'', scSSHKeyPath cfg] else [])
     @ [(if scSSHUser cfg \<noteq> [] then scSSHUser cfg @ ''@'' @ scSSHHost cfg else scSSHHost cfg), remoteCmd]"

definition BuildSSHCommand :: "SpawnConfig \<Rightarrow> string \<Rightarrow> string list" where
  "BuildSSHCommand cfg remoteCmd = ''ssh'' # buildSSHArgs cfg remoteCmd"

definition buildDockerRunArgs :: "SpawnConfig \<Rightarrow> string list" where
  "buildDockerRunArgs cfg =
     [''run'', ''-d'', ''--name'', scNick cfg]
     @ (if scDockerNetwork cfg \<noteq> [] then [''--network'', scDockerNetwork cfg] else [])
     @ [scDockerImage cfg] @ BuildCLIArgs cfg"

definition BuildDockerRunCommand :: "SpawnConfig \<Rightarrow> string list" where
  "BuildDockerRunCommand cfg = ''docker'' # buildDockerRunArgs cfg"

section \<open>The host\<close>

record 'e host =
  hoStat :: "string \<Rightarrow> 'e option"
  hoStart :: "string \<Rightarrow> string list \<Rightarrow> 'e + goint"
  hoRun :: "string \<Rightarrow> string list \<Rightarrow> 'e option \<times> string \<times> string"
  hoRunCombined :: "string \<Rightarrow> string list \<Rightarrow> 'e option \<times> string"
  hoFindProcess :: "goint \<Rightarrow> 'e option"
  hoSignal :: "goint \<Rightarrow> 'e option"
  hoAlive :: "goint \<Rightarrow> gotime \<Rightarrow> bool"
  hoHealthy :: "string \<Rightarrow> gotime \<Rightarrow> bool"
  hoDone :: "gotime \<Rightarrow> bool"
  hoDelay :: "gotime \<Rightarrow> nat"

datatype host_act = ActStart string "string list" | ActRun string "string list" | ActSignal goint string

type_synonym 'e lifecycle = "'e spawn_error option \<times> AgentInstance \<times> host_act list"

text \<open>The interface \<^verbatim>\<open>Spawner\<close>.\<close>

record 'e spawner =
  spType :: string
  spPreSpawn :: "SpawnConfig \<Rightarrow> 'e spawn_error option"
  spSpawn :: "gotime \<Rightarrow> SpawnConfig \<Rightarrow> 'e spawn_error + AgentInstance \<times> host_act list"
  spPostSpawn :: "gotime \<Rightarrow> AgentInstance \<Rightarrow> 'e lifecycle"
  spPreStop :: "gotime \<Rightarrow> AgentInstance \<Rightarrow> 'e lifecycle"
  spStop :: "gotime \<Rightarrow> AgentInstance \<Rightarrow> 'e lifecycle"
  spPostStop :: "gotime \<Rightarrow> AgentInstance \<Rightarrow> 'e lifecycle"
  spStatus :: "gotime \<Rightarrow> AgentInstance \<Rightarrow> InstanceStatus"

definition stopped :: "gotime \<Rightarrow> AgentInstance \<Rightarrow> AgentInstance" where
  "stopped now inst = inst\<lparr>aiStatus := StatusStopped, aiStoppedAt := now\<rparr>"

section \<open>Local processes\<close>

definition PreSpawn_local :: "'e host \<Rightarrow> SpawnConfig \<Rightarrow> 'e spawn_error option" where
  "PreSpawn_local host cfg =
     (case Validate_spawn cfg of
        Some e \<Rightarrow> Some e
      | None \<Rightarrow>
          if scBinaryPath cfg = [] then Some SpBinaryPathRequired
          else map_option SpBinaryNotFound (hoStat host (scBinaryPath cfg)))"

definition Spawn_local ::
  "'e host \<Rightarrow> gotime \<Rightarrow> SpawnConfig \<Rightarrow> 'e spawn_error + AgentInstance \<times> host_act list" where
  "Spawn_local host now cfg =
     (let args = BuildCLIArgs cfg
      in case hoStart host (scBinaryPath cfg) args of
           Inl e \<Rightarrow> Inl (SpStart e)
         | Inr pid \<Rightarrow>
             Inr (\<lparr>aiID = ''local-'' @ scNick cfg @ ''-'' @ itoa pid, aiNick = scNick cfg, aiSpawnerType = ''local'',
                   aiHost = ''localhost'', aiContainerID = [],
                   aiDashboardURL = (if scDashboardAddr cfg \<noteq> [] then ''http://localhost'' @ scDashboardAddr cfg else []),
                   aiError = [], aiConfig = cfg, aiStatus = StatusStarting, aiPID = pid, aiStartedAt = now, aiStoppedAt = 0\<rparr>,
                  [ActStart (scBinaryPath cfg) args]))"

text \<open>Poll the health page every half second until the deadline.\<close>

function health_loop :: "'e host \<Rightarrow> string \<Rightarrow> gotime \<Rightarrow> gotime \<Rightarrow> AgentInstance \<Rightarrow> 'e spawn_error option \<times> AgentInstance" where
  "health_loop host url deadline now inst =
     (if now < deadline then
        if hoDone host now then (Some SpContext, inst)
        else if hoHealthy host url now then (None, inst\<lparr>aiStatus := StatusRunning\<rparr>)
        else health_loop host url deadline (now + 500000000 + int (hoDelay host now)) inst
      else (None, inst\<lparr>aiStatus := StatusRunning\<rparr>))"
  by pat_completeness auto
termination health_loop
  by (relation "measure (\<lambda>(host, url, deadline, now, inst). nat (deadline - now))") auto

definition PostSpawn_local :: "'e host \<Rightarrow> gotime \<Rightarrow> AgentInstance \<Rightarrow> 'e lifecycle" where
  "PostSpawn_local host now inst =
     (if aiDashboardURL inst = [] then (None, inst\<lparr>aiStatus := StatusRunning\<rparr>, [])
      else
        case health_loop host (aiDashboardURL inst @ ''/health'') (now + 10000000000) now inst of
          (err, inst') \<Rightarrow> (err, inst', []))"

definition PreStop_local :: "'e host \<Rightarrow> gotime \<Rightarrow> AgentInstance \<Rightarrow> 'e lifecycle" where
  "PreStop_local host now inst =
     (if aiPID inst \<le> 0 then (Some (SpNoPID (aiNick inst)), inst, [])
      else
        let inst = inst\<lparr>aiStatus := StatusStopping\<rparr>
        in case hoFindProcess host (aiPID inst) of
             Some e \<Rightarrow> (None, inst, [])
           | None \<Rightarrow> (map_option SpSignal (hoSignal host (aiPID inst)), inst, [ActSignal (aiPID inst) ''TERM'']))"

text \<open>\<^verbatim>\<open>processAlive\<close>: the process is found and takes signal 0.\<close>

definition processAlive :: "'e host \<Rightarrow> goint \<Rightarrow> gotime \<Rightarrow> bool" where
  "processAlive host pid now \<longleftrightarrow> hoFindProcess host pid = None \<and> hoAlive host pid now"

text \<open>Wait for the process to go away, looking every quarter of a second; kill it at the deadline.\<close>

function stop_loop :: "'e host \<Rightarrow> gotime \<Rightarrow> gotime \<Rightarrow> AgentInstance \<Rightarrow> 'e lifecycle" where
  "stop_loop host deadline now inst =
     (if now < deadline then
        if \<not> processAlive host (aiPID inst) now then (None, stopped now inst, [])
        else if hoDone host now then (Some SpContext, stopped now inst, [])
        else stop_loop host deadline (now + 250000000 + int (hoDelay host now)) inst
      else
        (None, stopped now inst,
         if hoFindProcess host (aiPID inst) = None then [ActSignal (aiPID inst) ''KILL''] else []))"
  by pat_completeness auto
termination stop_loop
  by (relation "measure (\<lambda>(host, deadline, now, inst). nat (deadline - now))") auto

definition Stop_local :: "'e host \<Rightarrow> gotime \<Rightarrow> AgentInstance \<Rightarrow> 'e lifecycle" where
  "Stop_local host now inst =
     (if aiPID inst \<le> 0 then (None, stopped now inst, [])
      else stop_loop host (now + 5000000000) now inst)"

definition PostStop :: "gotime \<Rightarrow> AgentInstance \<Rightarrow> 'e lifecycle" where
  "PostStop now inst = (None, inst, [])"

definition Status_local :: "'e host \<Rightarrow> gotime \<Rightarrow> AgentInstance \<Rightarrow> InstanceStatus" where
  "Status_local host now inst =
     (if aiPID inst \<le> 0 then StatusStopped
      else if processAlive host (aiPID inst) now then StatusRunning else StatusStopped)"

definition NewLocalSpawner :: "'e host \<Rightarrow> 'e spawner" where
  "NewLocalSpawner host =
     \<lparr>spType = ''local'', spPreSpawn = PreSpawn_local host, spSpawn = Spawn_local host,
      spPostSpawn = PostSpawn_local host, spPreStop = PreStop_local host, spStop = Stop_local host,
      spPostStop = PostStop, spStatus = Status_local host\<rparr>"

section \<open>SSH\<close>

definition PreSpawn_ssh :: "SpawnConfig \<Rightarrow> 'e spawn_error option" where
  "PreSpawn_ssh cfg =
     (case Validate_spawn cfg of
        Some e \<Rightarrow> Some e
      | None \<Rightarrow>
          if scSSHHost cfg = [] then Some SpSSHHostRequired
          else if scSSHUser cfg = [] then Some SpSSHUserRequired
          else if scBinaryPath cfg = [] then Some SpBinaryPathRequired
          else None)"

definition remoteCommand :: "SpawnConfig \<Rightarrow> string" where
  "remoteCommand cfg =
     ''nohup '' @ (scBinaryPath cfg @ '' '' @ Join (BuildCLIArgs cfg) '' '') @ '' > /dev/null 2>&1 & echo $!''"

definition Spawn_ssh ::
  "'e host \<Rightarrow> gotime \<Rightarrow> SpawnConfig \<Rightarrow> 'e spawn_error + AgentInstance \<times> host_act list" where
  "Spawn_ssh host now cfg =
     (let sshArgs = buildSSHArgs cfg (remoteCommand cfg)
      in case hoRunCombined host ''ssh'' sshArgs of
           (Some e, out) \<Rightarrow> Inl (SpRun e out)
         | (None, out) \<Rightarrow>
             let pid = fst (ParseInt (TrimSpace out))
             in Inr (\<lparr>aiID = ''ssh-'' @ scSSHHost cfg @ ''-'' @ scNick cfg @ ''-'' @ itoa pid, aiNick = scNick cfg,
                      aiSpawnerType = ''ssh'', aiHost = scSSHHost cfg, aiContainerID = [],
                      aiDashboardURL = (if scDashboardAddr cfg \<noteq> []
                                        then ''http://'' @ scSSHHost cfg @ scDashboardAddr cfg else []),
                      aiError = [], aiConfig = cfg, aiStatus = StatusStarting, aiPID = pid, aiStartedAt = now, aiStoppedAt = 0\<rparr>,
                     [ActRun ''ssh'' sshArgs]))"

definition PostSpawn_simple :: "gotime \<Rightarrow> AgentInstance \<Rightarrow> 'e lifecycle" where
  "PostSpawn_simple now inst = (None, inst\<lparr>aiStatus := StatusRunning\<rparr>, [])"

definition PreStop_ssh :: "gotime \<Rightarrow> AgentInstance \<Rightarrow> 'e lifecycle" where
  "PreStop_ssh now inst =
     (if aiPID inst \<le> 0 then (None, inst, [])
      else
        (None, inst\<lparr>aiStatus := StatusStopping\<rparr>,
         [ActRun ''ssh'' (buildSSHArgs (aiConfig inst) (''kill -TERM '' @ itoa (aiPID inst)))]))"

definition aliveCommand :: "AgentInstance \<Rightarrow> string list" where
  "aliveCommand inst =
     buildSSHArgs (aiConfig inst) (''kill -0 '' @ itoa (aiPID inst) @ '' 2>/dev/null && echo alive || echo dead'')"

definition Status_ssh :: "'e host \<Rightarrow> gotime \<Rightarrow> AgentInstance \<Rightarrow> InstanceStatus" where
  "Status_ssh host now inst =
     (if aiPID inst \<le> 0 then StatusStopped
      else case hoRun host ''ssh'' (aliveCommand inst) of
             (_, out, _) \<Rightarrow> if TrimSpace out = ''alive'' then StatusRunning else StatusStopped)"

definition Stop_ssh :: "'e host \<Rightarrow> gotime \<Rightarrow> AgentInstance \<Rightarrow> 'e lifecycle" where
  "Stop_ssh host now inst =
     (if aiPID inst \<le> 0 then (None, stopped now inst, [])
      else
        (None, stopped now inst,
         ActRun ''ssh'' (aliveCommand inst) #
         (if Status_ssh host now inst = StatusRunning
          then [ActRun ''ssh'' (buildSSHArgs (aiConfig inst) (''kill -KILL '' @ itoa (aiPID inst)))] else [])))"

definition NewSSHSpawner :: "'e host \<Rightarrow> 'e spawner" where
  "NewSSHSpawner host =
     \<lparr>spType = ''ssh'', spPreSpawn = PreSpawn_ssh, spSpawn = Spawn_ssh host, spPostSpawn = PostSpawn_simple,
      spPreStop = PreStop_ssh, spStop = Stop_ssh host, spPostStop = PostStop, spStatus = Status_ssh host\<rparr>"

section \<open>Docker\<close>

definition PreSpawn_docker :: "SpawnConfig \<Rightarrow> 'e spawn_error option" where
  "PreSpawn_docker cfg =
     (case Validate_spawn cfg of
        Some e \<Rightarrow> Some e
      | None \<Rightarrow> if scDockerImage cfg = [] then Some SpDockerImageRequired else None)"

definition Spawn_docker ::
  "'e host \<Rightarrow> gotime \<Rightarrow> SpawnConfig \<Rightarrow> 'e spawn_error + AgentInstance \<times> host_act list" where
  "Spawn_docker host now cfg =
     (let dockerArgs = buildDockerRunArgs cfg
      in case hoRun host ''docker'' dockerArgs of
           (Some e, out, errOut) \<Rightarrow> Inl (SpRun e errOut)
         | (None, out, errOut) \<Rightarrow>
             let cid = TrimSpace out; cid = (if length cid > 12 then take 12 cid else cid)
             in Inr (\<lparr>aiID = ''docker-'' @ scNick cfg @ ''-'' @ cid, aiNick = scNick cfg, aiSpawnerType = ''docker'',
                      aiHost = [], aiContainerID = cid,
                      aiDashboardURL = (if scDashboardAddr cfg \<noteq> [] then ''http://'' @ cid @ scDashboardAddr cfg else []),
                      aiError = [], aiConfig = cfg, aiStatus = StatusStarting, aiPID = 0, aiStartedAt = now, aiStoppedAt = 0\<rparr>,
                     [ActRun ''docker'' dockerArgs]))"

definition PreStop_docker :: "gotime \<Rightarrow> AgentInstance \<Rightarrow> 'e lifecycle" where
  "PreStop_docker now inst = (None, inst\<lparr>aiStatus := StatusStopping\<rparr>, [])"

definition Stop_docker :: "gotime \<Rightarrow> AgentInstance \<Rightarrow> 'e lifecycle" where
  "Stop_docker now inst =
     (if aiContainerID inst = [] then (None, stopped now inst, [])
      else (None, stopped now inst,
            [ActRun ''docker'' [''stop'', aiContainerID inst], ActRun ''docker'' [''rm'', aiContainerID inst]]))"

definition Status_docker :: "'e host \<Rightarrow> gotime \<Rightarrow> AgentInstance \<Rightarrow> InstanceStatus" where
  "Status_docker host now inst =
     (if aiContainerID inst = [] then StatusStopped
      else
        case hoRun host ''docker'' [''inspect'', ''--format={{.State.Running}}'', aiContainerID inst] of
          (Some _, _) \<Rightarrow> StatusStopped
        | (None, out, _) \<Rightarrow> if TrimSpace out = ''true'' then StatusRunning else StatusStopped)"

definition NewDockerSpawner :: "'e host \<Rightarrow> 'e spawner" where
  "NewDockerSpawner host =
     \<lparr>spType = ''docker'', spPreSpawn = PreSpawn_docker, spSpawn = Spawn_docker host, spPostSpawn = PostSpawn_simple,
      spPreStop = PreStop_docker, spStop = Stop_docker, spPostStop = PostStop, spStatus = Status_docker host\<rparr>"

declare health_loop.simps [simp del] stop_loop.simps [simp del]

section \<open>What every spawner promises\<close>

text \<open>
  The agent's identity, its name, configuration and spawner type, is fixed at the start; a started agent is
  \<^verbatim>\<open>starting\<close>, a checked one \<^verbatim>\<open>running\<close>, a stopped one \<^verbatim>\<open>stopped\<close>, whatever the host answers.
\<close>

definition identity :: "AgentInstance \<Rightarrow> string \<times> SpawnConfig \<times> string" where
  "identity inst = (aiNick inst, aiConfig inst, aiSpawnerType inst)"

lemma identity_updates [simp]:
  "identity (inst\<lparr>aiStatus := st\<rparr>) = identity inst" "identity (stopped now inst) = identity inst"
  "aiStatus (stopped now inst) = StatusStopped"
  by (simp_all add: identity_def stopped_def)

locale spawner_contract =
  fixes sp :: "'e spawner"
  assumes pre_spawn: "spPreSpawn sp cfg = None \<Longrightarrow> Validate_spawn cfg = (None :: 'e spawn_error option)"
    and spawn: "spSpawn sp now cfg = Inr (inst, acts) \<Longrightarrow>
      identity inst = (scNick cfg, cfg, spType sp) \<and> aiStatus inst = StatusStarting \<and> acts \<noteq> []"
    and post_spawn: "spPostSpawn sp now inst = (err, inst', acts) \<Longrightarrow>
      identity inst' = identity inst \<and> (err = None \<longrightarrow> aiStatus inst' = StatusRunning)"
    and pre_stop: "spPreStop sp now inst = (err, inst', acts) \<Longrightarrow> identity inst' = identity inst"
    and stop: "spStop sp now inst = (err, inst', acts) \<Longrightarrow>
      identity inst' = identity inst \<and> aiStatus inst' = StatusStopped"
    and post_stop: "spPostStop sp now inst = (err, inst', acts) \<Longrightarrow> inst' = inst \<and> err = None"
begin

text \<open>The two life cycles, as the manager runs them.\<close>

lemma started:
  assumes "spPreSpawn sp cfg = None" "spSpawn sp t cfg = Inr (inst, acts)" "spPostSpawn sp t' inst = (err, inst', acts')"
  shows "identity inst' = (scNick cfg, cfg, spType sp) \<and> scNick cfg \<noteq> [] \<and> (err = None \<longrightarrow> aiStatus inst' = StatusRunning)"
proof -
  from pre_spawn [OF assms(1)] have "scNick cfg \<noteq> []" by (auto simp: Validate_spawn_def)
  with spawn [OF assms(2)] post_spawn [OF assms(3)] show ?thesis by simp
qed

lemma halted:
  assumes "spPreStop sp t inst = (e1, inst1, a1)" "spStop sp t' inst1 = (e2, inst2, a2)"
    and "spPostStop sp t'' inst2 = (e3, inst3, a3)"
  shows "identity inst3 = identity inst \<and> aiStatus inst3 = StatusStopped"
  using pre_stop [OF assms(1)] stop [OF assms(2)] post_stop [OF assms(3)] by simp

end

lemma health_loop_result:
  "health_loop host url deadline now inst = (err, inst') \<Longrightarrow>
     inst' = (if err = None then inst\<lparr>aiStatus := StatusRunning\<rparr> else inst)"
proof (induction host url deadline now inst rule: health_loop.induct)
  case (1 host url deadline now inst)
  then show ?case by (auto simp: health_loop.simps [of host url deadline now] split: if_splits)
qed

lemma stop_loop_result: "\<exists>err t acts. stop_loop host deadline now inst = (err, stopped t inst, acts)"
proof (induction host deadline now inst rule: stop_loop.induct)
  case (1 host deadline now inst)
  then show ?case by (auto simp: stop_loop.simps [of host deadline now])
qed

lemma Stop_local_result: "\<exists>err t acts. Stop_local host now inst = (err, stopped t inst, acts)"
  using stop_loop_result by (auto simp: Stop_local_def)

interpretation local_spawner: spawner_contract "NewLocalSpawner host" for host
proof unfold_locales
  show "identity inst' = identity inst \<and> (err = None \<longrightarrow> aiStatus inst' = StatusRunning)"
    if "spPostSpawn (NewLocalSpawner host) now inst = (err, inst', acts)" for now inst err inst' acts
    using that
    by (auto simp: NewLocalSpawner_def PostSpawn_local_def dest: health_loop_result split: if_splits prod.splits)
  show "identity inst' = identity inst \<and> aiStatus inst' = StatusStopped"
    if "spStop (NewLocalSpawner host) now inst = (err, inst', acts)" for now inst err inst' acts
    using that Stop_local_result [of host now inst] by (auto simp: NewLocalSpawner_def)
qed (auto simp: NewLocalSpawner_def PreSpawn_local_def Spawn_local_def PreStop_local_def PostStop_def identity_def Let_def
    split: option.splits sum.splits if_splits)

interpretation ssh_spawner: spawner_contract "NewSSHSpawner host" for host
  by unfold_locales
    (auto simp: NewSSHSpawner_def PreSpawn_ssh_def Spawn_ssh_def PostSpawn_simple_def PreStop_ssh_def Stop_ssh_def
      PostStop_def identity_def stopped_def Let_def split: option.splits if_splits prod.splits)

interpretation docker_spawner: spawner_contract "NewDockerSpawner host" for host
  by unfold_locales
    (auto simp: NewDockerSpawner_def PreSpawn_docker_def Spawn_docker_def PostSpawn_simple_def PreStop_docker_def
      Stop_docker_def PostStop_def identity_def stopped_def Let_def split: option.splits if_splits prod.splits)

section \<open>Stopping a local process\<close>

lemma stop_loop_bounded:
  assumes "\<And>t. \<not> hoDone host t" "\<And>t. hoDelay host t \<le> d"
  shows "\<exists>t acts. stop_loop host deadline now inst = (None, stopped t inst, acts) \<and> now \<le> t
     \<and> t \<le> max now (deadline + 250000000 + int d)
     \<and> (if t < deadline then \<not> processAlive host (aiPID inst) t
        else hoFindProcess host (aiPID inst) = None \<longrightarrow> acts = [ActSignal (aiPID inst) ''KILL''])"
proof (induction "nat (deadline - now)" arbitrary: now rule: less_induct)
  case less
  let ?next = "now + 250000000 + int (hoDelay host now)"
  show ?case
  proof (cases "now < deadline \<and> processAlive host (aiPID inst) now")
    case True
    then have "nat (deadline - ?next) < nat (deadline - now)" by auto
    from less [OF this] obtain t acts where IH:
      "stop_loop host deadline ?next inst = (None, stopped t inst, acts)" "?next \<le> t"
      "t \<le> max ?next (deadline + 250000000 + int d)"
      "if t < deadline then \<not> processAlive host (aiPID inst) t
       else hoFindProcess host (aiPID inst) = None \<longrightarrow> acts = [ActSignal (aiPID inst) ''KILL'']"
      by blast
    from IH(2,3) True assms(2) [of now] have "now \<le> t" "t \<le> max now (deadline + 250000000 + int d)" by linarith+
    with IH(1,4) True assms(1) show ?thesis
      by (intro exI [of _ t] exI [of _ acts]) (auto simp: stop_loop.simps [of host deadline now])
  next
    case False
    then show ?thesis
      by (intro exI [of _ now]) (auto simp: stop_loop.simps [of host deadline now])
  qed
qed

text \<open>
  C33.  Stopping a local agent always comes back, whatever the process does: when the caller does not give up, within
  five seconds and one last pause of a quarter of a second (and the scheduling delay), with the instance stopped, and
  either the process was seen dead at that moment, or it was sent the signal KILL.
\<close>

theorem local_stop_kills:
  assumes "aiPID inst > 0" "hoFindProcess host (aiPID inst) = None"
    and "\<And>t. \<not> hoDone host t" "\<And>t. hoDelay host t \<le> d"
  shows "\<exists>t acts. Stop_local host now inst = (None, stopped t inst, acts)
     \<and> now \<le> t \<and> t \<le> now + 5250000000 + int d
     \<and> (\<not> hoAlive host (aiPID inst) t \<or> acts = [ActSignal (aiPID inst) ''KILL''])"
proof -
  from stop_loop_bounded [OF assms(3,4)] obtain t acts where
    "stop_loop host (now + 5000000000) now inst = (None, stopped t inst, acts)" "now \<le> t"
    "t \<le> max now (now + 5000000000 + 250000000 + int d)"
    "if t < now + 5000000000 then \<not> processAlive host (aiPID inst) t
     else hoFindProcess host (aiPID inst) = None \<longrightarrow> acts = [ActSignal (aiPID inst) ''KILL'']"
    by blast
  with assms(1,2) show ?thesis
    by (intro exI [of _ t] exI [of _ acts]) (auto simp: Stop_local_def processAlive_def split: if_splits)
qed

definition demo_spawn :: SpawnConfig where
  "demo_spawn = \<lparr>scNick = ''drone'', scServer = ''irc:1'', scUsername = ''u'', scPassword = ''p'', scChannels = [''#a'', ''#b''],
     scCapabilities = [], scRoles = [''coder''], scDashboardAddr = [], scExtraFlags = [(''log-level'', ''debug'')],
     scBinaryPath = ''/borg'', scSSHHost = [], scSSHUser = [], scSSHKeyPath = [], scDockerImage = [], scDockerNetwork = []\<rparr>"

text \<open>A host on which process 7 ignores every signal but KILL.\<close>

definition stubborn :: "string host" where
  "stubborn = \<lparr>hoStat = (\<lambda>_. None), hoStart = (\<lambda>_ _. Inr 7), hoRun = (\<lambda>_ _. (None, [], [])),
     hoRunCombined = (\<lambda>_ _. (None, [])), hoFindProcess = (\<lambda>_. None), hoSignal = (\<lambda>_. None), hoAlive = (\<lambda>_ _. True),
     hoHealthy = (\<lambda>_ _. False), hoDone = (\<lambda>_. False), hoDelay = (\<lambda>_. 0)\<rparr>"

definition demo_instance :: AgentInstance where
  "demo_instance = \<lparr>aiID = ''local-drone-7'', aiNick = ''drone'', aiSpawnerType = ''local'', aiHost = ''localhost'',
     aiContainerID = [], aiDashboardURL = [], aiError = [], aiConfig = demo_spawn, aiStatus = StatusRunning, aiPID = 7,
     aiStartedAt = 0, aiStoppedAt = 0\<rparr>"

theorem local_stop_kills_witness:
  "\<exists>t. Stop_local stubborn 100 demo_instance = (None, stopped t demo_instance, [ActSignal 7 ''KILL''])
     \<and> t \<le> 5250000100"
  using local_stop_kills [of demo_instance stubborn 0 100] by (auto simp: demo_instance_def stubborn_def)

section \<open>The agent's view of its command line\<close>

text \<open>The arguments are pairs of a flag and its value.\<close>

definition cli_table :: "SpawnConfig \<Rightarrow> (bool \<times> string \<times> string) list" where
  "cli_table cfg =
     [(scServer cfg \<noteq> [], ''server'', scServer cfg), (scNick cfg \<noteq> [], ''nick'', scNick cfg),
      (scUsername cfg \<noteq> [], ''username'', scUsername cfg), (scPassword cfg \<noteq> [], ''password'', scPassword cfg),
      (scChannels cfg \<noteq> [], ''channels'', joinComma (scChannels cfg)),
      (scCapabilities cfg \<noteq> [], ''capabilities'', joinComma (scCapabilities cfg)),
      (scRoles cfg \<noteq> [], ''roles'', joinComma (scRoles cfg)),
      (scDashboardAddr cfg \<noteq> [], ''dashboard-addr'', scDashboardAddr cfg)]"

definition given :: "(bool \<times> string \<times> string) list \<Rightarrow> (string \<times> string) list" where
  "given t = map snd (filter fst t)"

definition cli_pairs :: "SpawnConfig \<Rightarrow> (string \<times> string) list" where
  "cli_pairs cfg = given (cli_table cfg)"

lemma given_simps:
  "pair_args (given ((b, k, v) # t)) = (if b then [''--'' @ k, v] else []) @ pair_args (given t)"
  "map_of (given ((b, k, v) # t)) n = (if b \<and> k = n then Some v else map_of (given t) n)"
  "pair_args (given []) = []" "map_of (given []) n = None"
  by (simp_all add: given_def)

lemma given_distinct: "distinct (map (fst \<circ> snd) t) \<Longrightarrow> distinct (map fst (given t))"
  by (induction t) (auto simp: given_def image_iff)

lemma given_in: "(k, v) \<in> set (given t) \<Longrightarrow> k \<in> set (map (fst \<circ> snd) t)"
  by (force simp: given_def)

lemma BuildCLIArgs_pairs: "BuildCLIArgs cfg = pair_args (cli_pairs cfg @ scExtraFlags cfg)"
  by (simp add: BuildCLIArgs_def cli_pairs_def cli_table_def given_simps) (simp add: pair_args_def)

text \<open>Text flags whose names the spawner does not use itself.\<close>

definition extra_text :: "string \<Rightarrow> bool" where
  "extra_text k \<longleftrightarrow> map_of loaderFlags k = Some FString
     \<and> k \<notin> {''server'', ''nick'', ''username'', ''password'', ''channels'', ''capabilities'', ''roles'', ''dashboard-addr'', ''config''}"

lemma loaderFlags_plain: "map_of loaderFlags k = Some FString \<Longrightarrow> plain_name k"
  by (auto simp: loaderFlags_def plain_name_def split: if_splits)

lemma loaderFlags_text [simp]:
  "map_of loaderFlags ''server'' = Some FString" "map_of loaderFlags ''nick'' = Some FString"
  "map_of loaderFlags ''username'' = Some FString" "map_of loaderFlags ''password'' = Some FString"
  "map_of loaderFlags ''channels'' = Some FString" "map_of loaderFlags ''capabilities'' = Some FString"
  "map_of loaderFlags ''roles'' = Some FString" "map_of loaderFlags ''dashboard-addr'' = Some FString"
  by (simp_all add: loaderFlags_def)

lemma cli_pairs_text: "(k, v) \<in> set (cli_pairs cfg) \<Longrightarrow> map_of loaderFlags k = Some FString"
  by (auto simp: cli_pairs_def cli_table_def dest!: given_in)

lemma cli_pairs_distinct: "distinct (map fst (cli_pairs cfg))"
  by (simp add: cli_pairs_def given_distinct cli_table_def)

lemmas cli_pairs_lookup = cli_pairs_def cli_table_def given_simps

definition cli_actual :: "SpawnConfig \<Rightarrow> actual" where
  "cli_actual cfg = fold (\<lambda>(k, v). mput k (VString v)) (cli_pairs cfg @ scExtraFlags cfg) []"

lemma cli_parsed:
  assumes "\<forall>(k, v) \<in> set (scExtraFlags cfg). extra_text k"
  shows "parse_args ns loaderFlags (BuildCLIArgs cfg) [] = Inr (cli_actual cfg, [])"
proof -
  have "\<forall>(k, v) \<in> set (cli_pairs cfg @ scExtraFlags cfg). plain_name k \<and> map_of loaderFlags k = Some FString"
    using assms by (auto simp: extra_text_def dest: cli_pairs_text intro: loaderFlags_plain)
  from parse_pairs [OF this, of ns "[]" "[]"] show ?thesis
    by (simp add: BuildCLIArgs_pairs cli_actual_def)
qed

lemma cli_actual_lookup:
  assumes "\<forall>(k, v) \<in> set (scExtraFlags cfg). extra_text k" "\<not> extra_text n"
  shows "map_of (cli_actual cfg) n = map_option VString (map_of (cli_pairs cfg) n)"
proof -
  have "n \<notin> fst ` set (scExtraFlags cfg)" using assms by auto
  then have "map_of (rev (scExtraFlags cfg)) n = None" by (simp add: map_of_eq_None_iff)
  then show ?thesis
    by (simp add: cli_actual_def map_of_fold_mput map_add_def map_of_rev [OF cli_pairs_distinct] del: fold_append
        split: option.split)
qed

lemma splitTrim_joinComma: "\<forall>s \<in> set ss. plain_item s \<Longrightarrow> splitTrim (joinComma ss) = ss"
  by (simp add: joinComma_def splitTrim_Join)

lemma ovSplit_empty: "ovSplit v [] = splitTrim v"
  by (simp add: ovSplit_def splitTrim_def)

lemma not_extra_text [simp]:
  "\<not> extra_text ''server''" "\<not> extra_text ''nick''" "\<not> extra_text ''username''" "\<not> extra_text ''password''"
  "\<not> extra_text ''channels''" "\<not> extra_text ''capabilities''" "\<not> extra_text ''roles''"
  "\<not> extra_text ''dashboard-addr''" "\<not> extra_text ''config''" "\<not> extra_text ''tls''" "\<not> extra_text ''sasl''"
  by (simp_all add: extra_text_def loaderFlags_def)

lemma spawned_config:
  assumes "Validate_spawn cfg = (None :: 'e spawn_error option)" "syGetenv sys ''BORG_CONFIG'' = []"
    and "\<forall>(k, v) \<in> set (scExtraFlags cfg). extra_text k"
    and "\<forall>s \<in> set (scChannels cfg @ scCapabilities cfg @ scRoles cfg). plain_item s"
  shows "\<exists>app. Load_config sys (BuildCLIArgs cfg) = Inr app \<and> Validate (cfIRC app) = []
    \<and> icServer (cfIRC app) = scServer cfg \<and> icNick (cfIRC app) = scNick cfg
    \<and> icUsername (cfIRC app) = scUsername cfg \<and> icPassword (cfIRC app) = scPassword cfg
    \<and> icChannels (cfIRC app) = ov (scChannels cfg) (splitTrim (syGetenv sys ''IRC_CHANNELS''))
    \<and> cfCapabilities app = ov (scCapabilities cfg) (splitTrim (syGetenv sys ''AGENT_CAPABILITIES''))
    \<and> cfRoles app = ov (scRoles cfg) (splitTrim (syGetenv sys ''AGENT_ROLES''))
    \<and> cfDashboardAddr app = ov (scDashboardAddr cfg) (syGetenv sys ''DASHBOARD_ADDR'')
    \<and> cfFederationServers app = []"
proof -
  let ?app = "applyFlags (syParseDuration sys) (cli_actual cfg) (applyEnv sys defaultAppConfig)"
  note lookup = cli_actual_lookup [OF assms(3)]
  have "configPath sys (cli_actual cfg) = []"
    using assms(2) by (simp add: configPath_def lookup cli_pairs_lookup)
  then have load: "Load_config sys (BuildCLIArgs cfg) = Inr ?app"
    by (simp add: Load_config_def cli_parsed [OF assms(3)])
  have valid: "scServer cfg \<noteq> []" "scNick cfg \<noteq> []" "scUsername cfg \<noteq> []" "scPassword cfg \<noteq> []"
    using assms(1) by (auto simp: Validate_spawn_def split: if_splits)
  have lists: "splitTrim (joinComma (scChannels cfg)) = scChannels cfg"
    "splitTrim (joinComma (scCapabilities cfg)) = scCapabilities cfg" "splitTrim (joinComma (scRoles cfg)) = scRoles cfg"
    using assms(4) by (auto intro!: splitTrim_joinComma)
  have pairs: "map_of (cli_pairs cfg) ''server'' = Some (scServer cfg)" "map_of (cli_pairs cfg) ''nick'' = Some (scNick cfg)"
    "map_of (cli_pairs cfg) ''username'' = Some (scUsername cfg)" "map_of (cli_pairs cfg) ''password'' = Some (scPassword cfg)"
    "map_of (cli_pairs cfg) ''channels'' = (if scChannels cfg = [] then None else Some (joinComma (scChannels cfg)))"
    "map_of (cli_pairs cfg) ''capabilities'' = (if scCapabilities cfg = [] then None else Some (joinComma (scCapabilities cfg)))"
    "map_of (cli_pairs cfg) ''roles'' = (if scRoles cfg = [] then None else Some (joinComma (scRoles cfg)))"
    "map_of (cli_pairs cfg) ''dashboard-addr'' = (if scDashboardAddr cfg = [] then None else Some (scDashboardAddr cfg))"
    "map_of (cli_pairs cfg) ''tls'' = None" "map_of (cli_pairs cfg) ''sasl'' = None"
    using valid by (simp_all add: cli_pairs_lookup)
  have flags: "ovFlag (cli_actual cfg) n conv old =
      (case map_of (cli_pairs cfg) n of None \<Rightarrow> old | Some v \<Rightarrow> conv (VString v))"
    if "\<not> extra_text n" for n and conv :: "flag_value \<Rightarrow> 'x" and old
    using that by (simp add: ovFlag_def lookup split: option.split)
  show ?thesis
  proof (rule exI [of _ ?app], intro conjI)
    show "Load_config sys (BuildCLIArgs cfg) = Inr ?app" by (rule load)
  qed (simp_all add: applyFlags_def applyEnv_def defaultAppConfig_def DefaultConfig_def Validate_ok_iff Let_def flags pairs
      valid lists ov_def ovSplit_empty)
qed

text \<open>
  C22.  What the manager asks for is what the agent gets: from the arguments built for a valid configuration, whose
  extra flags are text flags and whose list items have no comma and no outer blanks, the agent's own loader reads back the server, nick, user name, password, channels, capabilities, roles
  and dashboard address (a list or address that is empty falls back to the environment), and the resulting connection is one the client
  accepts.
\<close>

theorem spawned_agent_reads_its_config:
  assumes "Validate_spawn cfg = (None :: 'e spawn_error option)" "syGetenv sys ''BORG_CONFIG'' = []"
    and "\<forall>(k, v) \<in> set (scExtraFlags cfg). extra_text k"
    and "\<forall>s \<in> set (scChannels cfg @ scCapabilities cfg @ scRoles cfg). plain_item s"
  shows "\<exists>app. Load_config sys (BuildCLIArgs cfg) = Inr app \<and> Validate (cfIRC app) = []
    \<and> icServer (cfIRC app) = scServer cfg \<and> icNick (cfIRC app) = scNick cfg
    \<and> icUsername (cfIRC app) = scUsername cfg \<and> icPassword (cfIRC app) = scPassword cfg
    \<and> icChannels (cfIRC app) = ov (scChannels cfg) (splitTrim (syGetenv sys ''IRC_CHANNELS''))
    \<and> cfCapabilities app = ov (scCapabilities cfg) (splitTrim (syGetenv sys ''AGENT_CAPABILITIES''))
    \<and> cfRoles app = ov (scRoles cfg) (splitTrim (syGetenv sys ''AGENT_ROLES''))
    \<and> cfDashboardAddr app = ov (scDashboardAddr cfg) (syGetenv sys ''DASHBOARD_ADDR'')"
  using spawned_config [OF assms] by blast

theorem spawned_agent_reads_its_config_witness:
  "\<exists>app. Load_config (demo_sys\<lparr>syGetenv := \<lambda>_. []\<rparr>) (BuildCLIArgs demo_spawn) = Inr app \<and> Validate (cfIRC app) = []
    \<and> icNick (cfIRC app) = ''drone'' \<and> icChannels (cfIRC app) = [''#a'', ''#b''] \<and> cfRoles app = [''coder'']"
proof -
  have "\<forall>(k, v) \<in> set (scExtraFlags demo_spawn). extra_text k"
    by (simp add: demo_spawn_def extra_text_def loaderFlags_def)
  moreover have "\<forall>s \<in> set (scChannels demo_spawn @ scCapabilities demo_spawn @ scRoles demo_spawn). plain_item s"
    by (simp add: demo_spawn_def) code_simp
  moreover have "Validate_spawn demo_spawn = (None :: unit spawn_error option)"
    by (simp add: demo_spawn_def Validate_spawn_def)
  ultimately show ?thesis
    using spawned_agent_reads_its_config [of demo_spawn "demo_sys\<lparr>syGetenv := \<lambda>_. []\<rparr>"]
    by (auto simp: demo_spawn_def ov_def)
qed

text \<open>
  A boolean extra flag does not take its value: the value is an argument of its own, so an extra flag
  \<^verbatim>\<open>tls-insecure\<close> with any value that does not start with a dash, \<^verbatim>\<open>false\<close> among them, turns certificate
  verification off in the spawned agent.
\<close>

theorem boolean_extra_flag_is_always_true:
  assumes "scExtraFlags cfg = [(''tls-insecure'', v)]" "v = [] \<or> hd v \<noteq> CHR ''-''" "syGetenv sys ''BORG_CONFIG'' = []"
  shows "\<exists>app. Load_config sys (BuildCLIArgs cfg) = Inr app \<and> icTLSInsecureSkipVerify (cfIRC app)"
proof -
  let ?actual = "mput ''tls-insecure'' (VBool True) (fold (\<lambda>(k, v). mput k (VString v)) (cli_pairs cfg) [])"
  let ?app = "applyFlags (syParseDuration sys) ?actual (applyEnv sys defaultAppConfig)"
  have texts: "\<forall>(k, v) \<in> set (cli_pairs cfg). plain_name k \<and> map_of loaderFlags k = Some FString"
    by (auto dest: cli_pairs_text intro: loaderFlags_plain)
  have flag: "plain_name ''tls-insecure''" "map_of loaderFlags ''tls-insecure'' = Some FBool"
    by (simp_all add: plain_name_def loaderFlags_def)
  have short: "length v < 2 \<or> hd v \<noteq> CHR ''-''"
    using assms(2) by auto
  have parsed: "parse_args (syNum sys) loaderFlags (BuildCLIArgs cfg) [] = Inr (?actual, [v])"
    using parse_bool [OF flag(1) flag(2), of "syNum sys" "[v]"] parse_stops [OF short, of "syNum sys" loaderFlags "[]"] assms(1)
    by (simp add: BuildCLIArgs_pairs parse_pairs [OF texts])
  have "map_of (cli_pairs cfg) ''config'' = None"
    by (simp add: cli_pairs_lookup)
  then have "map_of ?actual ''config'' = None"
    by (simp add: map_of_fold_mput map_of_rev [OF cli_pairs_distinct])
  then have "configPath sys ?actual = []"
    using assms(3) by (simp add: configPath_def)
  with parsed have "Load_config sys (BuildCLIArgs cfg) = Inr ?app"
    by (simp add: Load_config_def)
  then show ?thesis by (auto simp: applyFlags_def ovFlag_def)
qed

theorem boolean_extra_flag_is_always_true_witness:
  "\<exists>app. Load_config (demo_sys\<lparr>syGetenv := \<lambda>_. []\<rparr>)
       (BuildCLIArgs (demo_spawn\<lparr>scExtraFlags := [(''tls-insecure'', ''false'')]\<rparr>)) = Inr app
     \<and> icTLSInsecureSkipVerify (cfIRC app)"
  by (rule boolean_extra_flag_is_always_true [where v = "''false''"]) simp_all

end
