(* ===== verification/Cost.thy ===== *)
theory Cost
  imports Float64 Sanitizer IrcEvents
begin

text \<open>
  Cost tracking: the store of cost reports of \<^verbatim>\<open>internal/cost/store.go\<close> with its aggregations, and the adapters of
  \<^verbatim>\<open>internal/cost/adapter.go\<close> that price a usage and send it as a COST-REPORT message.  Token counts are
  64-bit words, whose sums wrap around; costs are doubles.  The notations of \<^verbatim>\<open>strconv.ParseFloat\<close> other than plain
  decimals are the parameter \<open>other\<close>.
\<close>

section \<open>The store\<close>

record CostEntry =
  coAgent :: string
  coTask :: string
  coModel :: string
  coProvider :: string
  coChannel :: string
  coInputTokens :: int64
  coOutputTokens :: int64
  coTotalTokens :: int64
  coCostUSD :: float64
  coTimestamp :: gotime

record CostSummary =
  csTotalCostUSD :: float64
  csTotalTokens :: int64
  csInputTokens :: int64
  csOutputTokens :: int64
  csEntryCount :: nat

type_synonym CostStore = "CostEntry list"

definition NewCostStore :: CostStore where
  "NewCostStore = []"

text \<open>The value that \<^verbatim>\<open>ParseInt\<close> returns is stored whether or not there is an error.\<close>

definition tokenField :: "Message \<Rightarrow> string \<Rightarrow> int64" where
  "tokenField msg key = (let v = Get msg key in if v \<noteq> [] then word_of_int (fst (ParseInt v)) else 0)"

definition costField :: "(string \<Rightarrow> float64 option) \<Rightarrow> Message \<Rightarrow> string \<Rightarrow> float64" where
  "costField other msg key =
     (let v = Get msg key
      in if v \<noteq> [] then (case ParseFloat other v of Some x \<Rightarrow> x | None \<Rightarrow> 0) else 0)"

definition RecordCost :: "(string \<Rightarrow> float64 option) \<Rightarrow> gotime \<Rightarrow> Message \<Rightarrow> CostStore \<Rightarrow> CostStore" where
  "RecordCost other now msg cs =
     (if msgAction msg \<noteq> ActionCostReport then cs
      else cs @ [\<lparr>coAgent = msgNick msg, coTask = Get msg ''task'', coModel = Get msg ''model'',
                  coProvider = Get msg ''provider'', coChannel = msgChannel msg,
                  coInputTokens = tokenField msg ''input-tokens'', coOutputTokens = tokenField msg ''output-tokens'',
                  coTotalTokens = tokenField msg ''total-tokens'', coCostUSD = costField other msg ''cost-usd'',
                  coTimestamp = (if isZero (msgTimestamp msg) then now else msgTimestamp msg)\<rparr>])"

definition Record :: "gotime \<Rightarrow> CostEntry \<Rightarrow> CostStore \<Rightarrow> CostStore" where
  "Record now entry cs =
     cs @ [if isZero (coTimestamp entry) then entry\<lparr>coTimestamp := now\<rparr> else entry]"

definition addEntry :: "CostEntry \<Rightarrow> CostSummary \<Rightarrow> CostSummary" where
  "addEntry e s =
     s\<lparr>csTotalCostUSD := fl (csTotalCostUSD s + coCostUSD e), csTotalTokens := csTotalTokens s + coTotalTokens e,
       csInputTokens := csInputTokens s + coInputTokens e, csOutputTokens := csOutputTokens s + coOutputTokens e\<rparr>"

definition summarize_costs :: "CostEntry list \<Rightarrow> CostSummary" where
  "summarize_costs entries =
     fold addEntry entries
       \<lparr>csTotalCostUSD = 0, csTotalTokens = 0, csInputTokens = 0, csOutputTokens = 0,
        csEntryCount = length entries\<rparr>"

definition groupBy :: "CostEntry list \<Rightarrow> (CostEntry \<Rightarrow> string) \<Rightarrow> CostSummary gomap" where
  "groupBy entries keyFn =
     (let groups = fold (\<lambda>e g. mput (keyFn e) (mlist g (keyFn e) @ [e]) g) entries []
      in map (\<lambda>(key, group). (key, summarize_costs group)) groups)"

definition TotalSummary :: "CostStore \<Rightarrow> CostSummary" where
  "TotalSummary cs = summarize_costs cs"

definition ByAgent :: "CostStore \<Rightarrow> CostSummary gomap" where
  "ByAgent cs = groupBy cs coAgent"

definition ByTask :: "CostStore \<Rightarrow> CostSummary gomap" where
  "ByTask cs = groupBy cs coTask"

definition ByModel :: "CostStore \<Rightarrow> CostSummary gomap" where
  "ByModel cs = groupBy cs coModel"

definition Entries :: "goint \<Rightarrow> CostStore \<Rightarrow> CostEntry list" where
  "Entries n cs =
     (let n = (if n \<le> 0 \<or> n > int (length cs) then int (length cs) else n);
          start = int (length cs) - n
      in drop (nat start) cs)"

definition EntriesForAgent :: "string \<Rightarrow> goint \<Rightarrow> CostStore \<Rightarrow> CostEntry list" where
  "EntriesForAgent nick n cs =
     (let filtered = filter (\<lambda>e. coAgent e = nick) cs;
          n = (if n \<le> 0 \<or> n > int (length filtered) then int (length filtered) else n)
      in if n = 0 then [] else drop (nat (int (length filtered) - n)) filtered)"

section \<open>Aggregation\<close>

lemma addEntry_fold:
  "csTotalTokens (fold addEntry es s) = csTotalTokens s + sum_list (map coTotalTokens es)"
  "csInputTokens (fold addEntry es s) = csInputTokens s + sum_list (map coInputTokens es)"
  "csOutputTokens (fold addEntry es s) = csOutputTokens s + sum_list (map coOutputTokens es)"
  "csEntryCount (fold addEntry es s) = csEntryCount s"
  by (induction es arbitrary: s) (simp_all add: addEntry_def add.assoc)

lemma summarize_costs_simps:
  "csTotalTokens (summarize_costs es) = sum_list (map coTotalTokens es)"
  "csInputTokens (summarize_costs es) = sum_list (map coInputTokens es)"
  "csOutputTokens (summarize_costs es) = sum_list (map coOutputTokens es)"
  "csEntryCount (summarize_costs es) = length es"
  by (simp_all add: summarize_costs_def addEntry_fold)

lemma group_lookup:
  "map_of (fold (\<lambda>e g. mput (f e) (mlist g (f e) @ [e]) g) es g) k =
     (case filter (\<lambda>e. f e = k) es of [] \<Rightarrow> map_of g k | es' \<Rightarrow> Some (mlist g k @ es'))"
proof (induction es arbitrary: g)
  case (Cons e es)
  then show ?case by (auto simp: mlist_def split: list.split option.split)
qed simp

lemma sum_list_mput:
  fixes S :: "'v list \<Rightarrow> 'n::comm_monoid_add"
  assumes "S [] = 0"
  shows "sum_list (map (\<lambda>(_, v). S v) (mput k v g)) + S (mlist g k) = sum_list (map (\<lambda>(_, v). S v) g) + S v"
  by (induction g) (auto simp: mlist_def assms algebra_simps)

lemma group_sum:
  fixes h :: "CostEntry \<Rightarrow> 'n::ab_group_add"
  shows "sum_list (map (\<lambda>(_, v). sum_list (map h v)) (fold (\<lambda>e g. mput (f e) (mlist g (f e) @ [e]) g) es g))
    = sum_list (map (\<lambda>(_, v). sum_list (map h v)) g) + sum_list (map h es)"
proof (induction es arbitrary: g)
  case (Cons e es)
  have "sum_list (map (\<lambda>(_, v). sum_list (map h v)) (mput (f e) (mlist g (f e) @ [e]) g))
    = sum_list (map (\<lambda>(_, v). sum_list (map h v)) g) + h e"
    using sum_list_mput [of "\<lambda>v. sum_list (map h v)" "f e" "mlist g (f e) @ [e]" g] by (simp add: algebra_simps)
  with Cons.IH show ?case by (simp add: add.assoc)
qed simp

text \<open>
  C29.  The grouped summaries are a partition of the total: for whatever key, a group is the summary of exactly the
  entries with that key, there is no group for a key without entries, and the token counts of the groups add up to the total, as
  64-bit numbers, so that wrap-around does not make them disagree.
\<close>

theorem cost_groups_add_up:
  "map_of (groupBy es f) k =
     (case filter (\<lambda>e. f e = k) es of [] \<Rightarrow> None | es' \<Rightarrow> Some (summarize_costs es'))
   \<and> sum_list (map csTotalTokens (mvals (groupBy es f))) = csTotalTokens (TotalSummary es)
   \<and> sum_list (map csInputTokens (mvals (groupBy es f))) = csInputTokens (TotalSummary es)
   \<and> sum_list (map csOutputTokens (mvals (groupBy es f))) = csOutputTokens (TotalSummary es)"
proof -
  let ?g = "fold (\<lambda>e g. mput (f e) (mlist g (f e) @ [e]) g) es []"
  have "map_of (groupBy es f) k = map_option summarize_costs (map_of ?g k)"
    by (simp add: groupBy_def map_of_map)
  moreover have "sum_list (map h (mvals (groupBy es f))) = sum_list (map h' es)"
    if "\<And>es. h (summarize_costs es) = sum_list (map h' es)" for h :: "CostSummary \<Rightarrow> int64" and h'
    using group_sum [of h' f es "[]"] by (simp add: groupBy_def comp_def case_prod_unfold that)
  ultimately show ?thesis
    unfolding group_lookup by (simp add: TotalSummary_def summarize_costs_simps split: list.split)
qed

section \<open>Adapters\<close>

record UsageReport =
  urTask :: string
  urModel :: string
  urInputTokens :: int64
  urOutputTokens :: int64
  urTotalTokens :: int64
  urCostUSD :: float64

definition buildCostMessage :: "string \<Rightarrow> UsageReport \<Rightarrow> Message" where
  "buildCostMessage provider usage =
     mkMessage ActionCostReport
       [(''task'', urTask usage), (''model'', urModel usage), (''provider'', provider),
        (''input-tokens'', itoa (sint (urInputTokens usage))),
        (''output-tokens'', itoa (sint (urOutputTokens usage))),
        (''total-tokens'', itoa (sint (urTotalTokens usage))),
        (''cost-usd'', fmt6 (urCostUSD usage))] []"

definition price :: "float64 \<Rightarrow> float64 \<Rightarrow> int64 \<Rightarrow> int64 \<Rightarrow> float64" where
  "price inputPer1M outputPer1M inputTokens outputTokens =
     fl (fl (fl (of_int64 (sint inputTokens) / 1000000) * inputPer1M)
       + fl (fl (of_int64 (sint outputTokens) / 1000000) * outputPer1M))"

definition anthropicCost :: "string \<Rightarrow> int64 \<Rightarrow> int64 \<Rightarrow> float64" where
  "anthropicCost model =
     (if model = ''claude-opus-4-6'' \<or> model = ''claude-opus-4-0-20250514'' then price 15 75
      else if model = ''claude-sonnet-4-5-20250929'' \<or> model = ''claude-sonnet-4-0-20250514'' then price 3 15
      else if model = ''claude-haiku-4-5-20251001'' then price (fl (80/100)) 4
      else price 3 15)"

definition openaiCost :: "string \<Rightarrow> int64 \<Rightarrow> int64 \<Rightarrow> float64" where
  "openaiCost model =
     (if model = ''gpt-4o'' then price (fl (250/100)) 10
      else if model = ''gpt-4o-mini'' then price (fl (15/100)) (fl (60/100))
      else if model = ''o1'' then price 15 60
      else price (fl (250/100)) 10)"

datatype adapter = GenericAdapter string | AnthropicAdapter | OpenAIAdapter

fun Provider :: "adapter \<Rightarrow> string" where
  "Provider (GenericAdapter provider) = provider"
| "Provider AnthropicAdapter = ''anthropic''"
| "Provider OpenAIAdapter = ''openai''"

text \<open>What the priced adapters fill in before they build the message.\<close>

definition fillUsage :: "(string \<Rightarrow> int64 \<Rightarrow> int64 \<Rightarrow> float64) \<Rightarrow> UsageReport \<Rightarrow> UsageReport" where
  "fillUsage costOf usage =
     (let usage = (if urCostUSD usage = 0
                   then usage\<lparr>urCostUSD := costOf (urModel usage) (urInputTokens usage) (urOutputTokens usage)\<rparr>
                   else usage)
      in if urTotalTokens usage = 0
         then usage\<lparr>urTotalTokens := urInputTokens usage + urOutputTokens usage\<rparr> else usage)"

fun effectiveUsage :: "adapter \<Rightarrow> UsageReport \<Rightarrow> UsageReport" where
  "effectiveUsage (GenericAdapter provider) usage = usage"
| "effectiveUsage AnthropicAdapter usage = fillUsage anthropicCost usage"
| "effectiveUsage OpenAIAdapter usage = fillUsage openaiCost usage"

definition ReportUsage :: "adapter \<Rightarrow> string \<Rightarrow> UsageReport \<Rightarrow> proto_error + outbox" where
  "ReportUsage a channel usage =
     (let msg = buildCostMessage (Provider a) (effectiveUsage a usage)
      in case Sanitize msg of Some err \<Rightarrow> Inl err | None \<Rightarrow> Inr [(channel, String_Message msg)])"

section \<open>A report arrives\<close>

lemma wf_value_digits:
  assumes "v \<noteq> []" "set v \<subseteq> set digit_chars \<union> {CHR ''-'', CHR ''.''}"
  shows "wf_value v"
proof -
  have "\<not> list_ex blank v" using assms(2) by (fastforce simp: list_ex_iff blank_def digit_chars_def)
  moreover have "hd v \<noteq> quote" using assms hd_in_set [of v] by (fastforce simp: digit_chars_def)
  then have "\<not> prefix [quote] v" using assms(1) by (cases v) auto
  moreover have "last v \<in> set digit_chars \<union> {CHR ''-'', CHR ''.''}"
    using assms last_in_set [of v] by blast
  then have "last v \<notin> set (map last ws_runes)" by (auto simp: digit_chars_def ws_runes_def)
  then have "no_ws_right v" using no_ws_right_snoc [of "last v" "butlast v"] assms(1) by simp
  ultimately show ?thesis by (simp add: wf_value_def)
qed

lemma wf_value_itoa: "wf_value (itoa n)"
  by (rule wf_value_digits) (use itoa_chars [of _ n] in auto)

lemma fmt6_chars: "set (fmt6 x) \<subseteq> set digit_chars \<union> {CHR ''-'', CHR ''.''}"
proof -
  have "CHR ''0'' \<in> set digit_chars" by (simp add: digit_chars_def)
  then show ?thesis
    using utoa_char_range by (fastforce simp: fmt6_def pad6_def Let_def)
qed

lemma wf_value_fmt6: "wf_value (fmt6 x)"
  by (rule wf_value_digits [OF _ fmt6_chars]) (simp add: fmt6_def Let_def)

lemma wf_buildCostMessage:
  assumes "wf_value (urTask usage)" "wf_value (urModel usage)" "wf_value provider"
  shows "wf_Message (buildCostMessage provider usage)"
proof -
  have "wf_key ''task''" "wf_key ''model''" "wf_key ''provider''" "wf_key ''input-tokens''" "wf_key ''output-tokens''"
    "wf_key ''total-tokens''" "wf_key ''cost-usd''" by code_simp+
  with assms show ?thesis
    by (simp add: wf_Message_def buildCostMessage_def mkMessage_def wf_value_itoa wf_value_fmt6)
qed

lemma Get_buildCostMessage:
  "Get (buildCostMessage provider usage) ''task'' = urTask usage"
  "Get (buildCostMessage provider usage) ''model'' = urModel usage"
  "Get (buildCostMessage provider usage) ''provider'' = provider"
  "Get (buildCostMessage provider usage) ''input-tokens'' = itoa (sint (urInputTokens usage))"
  "Get (buildCostMessage provider usage) ''output-tokens'' = itoa (sint (urOutputTokens usage))"
  "Get (buildCostMessage provider usage) ''total-tokens'' = itoa (sint (urTotalTokens usage))"
  "Get (buildCostMessage provider usage) ''cost-usd'' = fmt6 (urCostUSD usage)"
  by (simp_all add: buildCostMessage_def mkMessage_def Get_def mgetd_def)

lemma is_int64_sint: "is_int64 (sint (w :: int64))"
  using sint_ge [of w] sint_lt [of w] by (simp add: is_int64_def)

lemma tokens_roundtrip: "(word_of_int (fst (ParseInt (itoa (sint (w :: int64))))) :: int64) = w"
  by (simp add: ParseInt_itoa is_int64_sint)

text \<open>
  C28.  A usage report arrives as it was sent: when an adapter sends it and the text is parsed and recorded
  elsewhere, the entry has the same task, model, provider and, exactly, the same token counts, and the cost is the
  double nearest to the reported one rounded to a millionth of a dollar, provided the three texts survive the wire and
  the cost is not negative.
\<close>

theorem cost_report_roundtrip:
  assumes "ReportUsage a channel usage = Inr out"
    and "wf_value (urTask usage)" "wf_value (urModel usage)" "wf_value (Provider a)" "0 \<le> urCostUSD (effectiveUsage a usage)"
  shows "\<exists>text m. out = [(channel, text)] \<and> Parse text = Inr m
    \<and> RecordCost other now (m\<lparr>msgNick := nick, msgChannel := channel, msgTimestamp := t\<rparr>) cs =
        cs @ [\<lparr>coAgent = nick, coTask = urTask usage, coModel = urModel usage, coProvider = Provider a,
               coChannel = channel, coInputTokens = urInputTokens usage, coOutputTokens = urOutputTokens usage,
               coTotalTokens = urTotalTokens (effectiveUsage a usage),
               coCostUSD = fl (of_int (rne (urCostUSD (effectiveUsage a usage) * 1000000)) / 1000000),
               coTimestamp = (if t = 0 then now else t)\<rparr>]"
proof -
  let ?u = "effectiveUsage a usage"
  let ?m = "buildCostMessage (Provider a) ?u"
  have u: "urTask ?u = urTask usage" "urModel ?u = urModel usage" "urInputTokens ?u = urInputTokens usage"
    "urOutputTokens ?u = urOutputTokens usage" by (cases a; simp add: fillUsage_def Let_def)+
  have "wf_Message ?m" using assms u by (simp add: wf_buildCostMessage)
  then have p: "Parse (String_Message ?m) = Inr (wire_image ?m)" by (rule wire.parse_print)
  have out: "out = [(channel, String_Message ?m)]"
    using assms(1) by (simp add: ReportUsage_def Let_def split: option.splits)
  have "fmt6 (urCostUSD ?u) \<noteq> []" by (simp add: fmt6_def Let_def)
  moreover have "msgAction (wire_image ?m) = ActionCostReport" by (simp add: buildCostMessage_def mkMessage_def)
  ultimately have "RecordCost other now ((wire_image ?m)\<lparr>msgNick := nick, msgChannel := channel, msgTimestamp := t\<rparr>) cs =
        cs @ [\<lparr>coAgent = nick, coTask = urTask usage, coModel = urModel usage, coProvider = Provider a,
               coChannel = channel, coInputTokens = urInputTokens usage, coOutputTokens = urOutputTokens usage,
               coTotalTokens = urTotalTokens ?u,
               coCostUSD = fl (of_int (rne (urCostUSD ?u * 1000000)) / 1000000),
               coTimestamp = (if t = 0 then now else t)\<rparr>]"
    using assms(5) by (simp add: RecordCost_def tokenField_def costField_def Get_buildCostMessage u tokens_roundtrip
        ParseFloat_fmt6 isZero_def Let_def)
  with out p show ?thesis by blast
qed

definition demo_usage :: UsageReport where
  "demo_usage = \<lparr>urTask = ''t1'', urModel = ''o1'', urInputTokens = 2, urOutputTokens = 1, urTotalTokens = 0, urCostUSD = 3/1000000\<rparr>"

theorem cost_report_roundtrip_witness:
  "\<exists>out text m. ReportUsage OpenAIAdapter ''#ops'' demo_usage = Inr out \<and> out = [(''#ops'', text)] \<and> Parse text = Inr m
     \<and> map coTotalTokens (RecordCost (\<lambda>_. None) 9 (m\<lparr>msgNick := ''bot'', msgChannel := ''#ops'', msgTimestamp := 5\<rparr>) []) = [3]"
proof -
  have e: "effectiveUsage OpenAIAdapter demo_usage = demo_usage\<lparr>urTotalTokens := 3\<rparr>"
    by (simp add: fillUsage_def demo_usage_def Let_def)
  have f: "fmt6 (3/1000000) = ''0.000003''" by code_simp
  have i: "itoa 1 = ''1''" "itoa 2 = ''2''" "itoa 3 = ''3''" by code_simp+
  have m: "buildCostMessage (Provider OpenAIAdapter) (demo_usage\<lparr>urTotalTokens := 3\<rparr>) =
      mkMessage ActionCostReport [(''task'', ''t1''), (''model'', ''o1''), (''provider'', ''openai''),
        (''input-tokens'', ''2''), (''output-tokens'', ''1''), (''total-tokens'', ''3''), (''cost-usd'', ''0.000003'')] []"
    by (simp add: buildCostMessage_def demo_usage_def f i)
  have "Sanitize (mkMessage ActionCostReport [(''task'', ''t1''), (''model'', ''o1''), (''provider'', ''openai''),
        (''input-tokens'', ''2''), (''output-tokens'', ''1''), (''total-tokens'', ''3''), (''cost-usd'', ''0.000003'')] []) = None"
    by code_simp
  then obtain out where o: "ReportUsage OpenAIAdapter ''#ops'' demo_usage = Inr out"
    unfolding ReportUsage_def Let_def e m by simp
  have w: "wf_value (urTask demo_usage)" "wf_value (urModel demo_usage)" "wf_value (Provider OpenAIAdapter)" by code_simp+
  have c: "0 \<le> urCostUSD (effectiveUsage OpenAIAdapter demo_usage)" unfolding e by (simp add: demo_usage_def)
  from cost_report_roundtrip [OF o w c, where other = "\<lambda>_. None" and now = 9 and nick = "''bot''" and t = 5 and cs = "[]"] o show ?thesis unfolding e by auto
qed

end
