(* ===== verification/Registry.thy ===== *)
theory Registry
  imports Health Spawner Discovery Cost
begin

text \<open>
  The manager's registry of agents, \<^verbatim>\<open>internal/manager/registry.go\<close>.  \<^verbatim>\<open>Get\<close> and \<^verbatim>\<open>List\<close> return copies, so a
  record is a value.  The status is a text in the source, one of several vocabularies: the registry's own (online, stopping,
  stopped) and the spawner's.
\<close>

record AgentRecord =
  arNick :: string
  arHost :: string
  arStatus :: string
  arSpawnerType :: string
  arDashboardURL :: string
  arCurrentTask :: string
  arSource :: string
  arInstance :: "AgentInstance option"
  arChannels :: "string list"
  arCapabilities :: "string list"
  arMetrics :: "MetricsSnapshot option"
  arHealth :: "HealthStatus option"
  arCostSummary :: "CostSummary option"
  arLastSeen :: gotime
  arRegisteredAt :: gotime

type_synonym AgentRegistry = "AgentRecord gomap"

definition zeroAgentRecord :: AgentRecord where
  "zeroAgentRecord = \<lparr>arNick = [], arHost = [], arStatus = [], arSpawnerType = [], arDashboardURL = [], arCurrentTask = [],
     arSource = [], arInstance = None, arChannels = [], arCapabilities = [], arMetrics = None, arHealth = None,
     arCostSummary = None, arLastSeen = 0, arRegisteredAt = 0\<rparr>"

definition NewAgentRegistry :: AgentRegistry where
  "NewAgentRegistry = []"

text \<open>\<^verbatim>\<open>Register\<close> fills the times in the caller's record too.\<close>

definition Register :: "gotime \<Rightarrow> AgentRecord \<Rightarrow> AgentRegistry \<Rightarrow> AgentRecord \<times> AgentRegistry" where
  "Register now rec r =
     (let rec = rec\<lparr>arRegisteredAt := (if isZero (arRegisteredAt rec) then now else arRegisteredAt rec),
                    arLastSeen := (if isZero (arLastSeen rec) then now else arLastSeen rec)\<rparr>
      in (rec, mput (arNick rec) rec r))"

definition GetRecord :: "AgentRegistry \<Rightarrow> string \<Rightarrow> AgentRecord option" where
  "GetRecord r nick = map_of r nick"

definition ListRecords :: "AgentRegistry \<Rightarrow> AgentRecord list" where
  "ListRecords r = mvals r"

definition UpdateFromDiscovery :: "gotime \<Rightarrow> AgentCapability \<Rightarrow> AgentRegistry \<Rightarrow> AgentRegistry" where
  "UpdateFromDiscovery now cap r =
     (let rec = (case map_of r (acNick cap) of
                   Some rec \<Rightarrow> rec
                 | None \<Rightarrow> zeroAgentRecord\<lparr>arNick := acNick cap, arSource := ''discovered'', arStatus := ''online'',
                                           arRegisteredAt := now\<rparr>)
      in mput (acNick cap)
           (rec\<lparr>arCapabilities := acExpertise cap, arChannels := acChannels cap, arCurrentTask := acCurrentTask cap,
                arLastSeen := acUpdatedAt cap,
                arStatus := (if arStatus rec \<noteq> ''stopping'' then ''online'' else arStatus rec)\<rparr>) r)"

definition UpdateHealth :: "gotime \<Rightarrow> string \<Rightarrow> HealthStatus \<Rightarrow> AgentRegistry \<Rightarrow> AgentRegistry" where
  "UpdateHealth now nick health r =
     mmodify nick
       (\<lambda>rec. rec\<lparr>arHealth := Some health, arLastSeen := now,
                  arStatus := (if hsHealthy health then ''online'' else arStatus rec)\<rparr>) r"

definition UpdateMetrics :: "string \<Rightarrow> MetricsSnapshot \<Rightarrow> AgentRegistry \<Rightarrow> AgentRegistry" where
  "UpdateMetrics nick metrics r = mmodify nick (\<lambda>rec. rec\<lparr>arMetrics := Some metrics\<rparr>) r"

definition UpdateCostSummary :: "string \<Rightarrow> CostSummary \<Rightarrow> AgentRegistry \<Rightarrow> AgentRegistry" where
  "UpdateCostSummary nick summary r = mmodify nick (\<lambda>rec. rec\<lparr>arCostSummary := Some summary\<rparr>) r"

definition UpdateStatus :: "string \<Rightarrow> string \<Rightarrow> AgentRegistry \<Rightarrow> AgentRegistry" where
  "UpdateStatus nick status r = mmodify nick (\<lambda>rec. rec\<lparr>arStatus := status\<rparr>) r"

definition Remove :: "string \<Rightarrow> AgentRegistry \<Rightarrow> AgentRegistry" where
  "Remove nick r = mdel nick r"

definition Count :: "AgentRegistry \<Rightarrow> nat" where
  "Count r = length r"

section \<open>Every sequence of operations\<close>

datatype registry_op =
  OpRegister gotime AgentRecord | OpDiscovery gotime AgentCapability | OpHealth gotime string HealthStatus
| OpMetrics string MetricsSnapshot | OpCost string CostSummary | OpStatus string string | OpRemoveAgent string

fun registry_run :: "registry_op \<Rightarrow> AgentRegistry \<Rightarrow> AgentRegistry" where
  "registry_run (OpRegister now rec) r = snd (Register now rec r)"
| "registry_run (OpDiscovery now cap) r = UpdateFromDiscovery now cap r"
| "registry_run (OpHealth now nick h) r = UpdateHealth now nick h r"
| "registry_run (OpMetrics nick m) r = UpdateMetrics nick m r"
| "registry_run (OpCost nick c) r = UpdateCostSummary nick c r"
| "registry_run (OpStatus nick st) r = UpdateStatus nick st r"
| "registry_run (OpRemoveAgent nick) r = Remove nick r"

text \<open>The abstract view: one status per agent, none for an unknown one.\<close>

fun status_event :: "string \<Rightarrow> registry_op \<Rightarrow> string option \<Rightarrow> string option" where
  "status_event n (OpRegister now rec) st = (if arNick rec = n then Some (arStatus rec) else st)"
| "status_event n (OpDiscovery now cap) st =
     (if acNick cap = n then Some (if st = Some ''stopping'' then ''stopping'' else ''online'') else st)"
| "status_event n (OpHealth now nick h) st =
     (if nick = n \<and> hsHealthy h then map_option (\<lambda>_. ''online'') st else st)"
| "status_event n (OpStatus nick s) st = (if nick = n then map_option (\<lambda>_. s) st else st)"
| "status_event n (OpRemoveAgent nick) st = (if nick = n then None else st)"
| "status_event n _ st = st"

definition registry_inv :: "AgentRegistry \<Rightarrow> bool" where
  "registry_inv r \<longleftrightarrow> keyed (\<lambda>k rec. arNick rec = k) r"

lemma registry_inv_mmodify:
  "registry_inv r \<Longrightarrow> (\<And>rec. arNick (f rec) = arNick rec) \<Longrightarrow> registry_inv (mmodify nick f r)"
  by (simp add: registry_inv_def keyed_mmodify)

lemma registry_inv_step: "registry_inv r \<Longrightarrow> registry_inv (registry_run x r)"
proof (cases x)
  case (OpDiscovery now cap)
  assume inv: "registry_inv r"
  then have "arNick rec = acNick cap" if "map_of r (acNick cap) = Some rec" for rec
    using that by (auto simp: registry_inv_def keyed_def dest!: map_of_SomeD)
  with inv show ?thesis
    by (auto simp: OpDiscovery UpdateFromDiscovery_def registry_inv_def Let_def zeroAgentRecord_def split: option.split)
qed (auto simp: Register_def UpdateHealth_def UpdateMetrics_def UpdateCostSummary_def UpdateStatus_def Remove_def Let_def
    registry_inv_def intro: registry_inv_mmodify [unfolded registry_inv_def])

interpretation registry_store: guarded_store NewAgentRegistry registry_run registry_inv
  by unfold_locales (simp_all add: registry_inv_step, simp add: registry_inv_def NewAgentRegistry_def)

lemma status_mmodify:
  "map_option arStatus (map_of (mmodify k f r) n) =
     (if k = n then map_option (\<lambda>rec. arStatus (f rec)) (map_of r n) else map_option arStatus (map_of r n))"
  by (simp add: map_of_mmodify option.map_comp o_def)

lemma status_discovery:
  "map_option arStatus (map_of (UpdateFromDiscovery now cap r) n) =
     status_event n (OpDiscovery now cap) (map_option arStatus (map_of r n))"
proof (cases "map_of r (acNick cap)")
  case None
  then show ?thesis by (auto simp: UpdateFromDiscovery_def zeroAgentRecord_def Let_def)
next
  case (Some rec)
  then show ?thesis by (auto simp: UpdateFromDiscovery_def Let_def)
qed

lemma status_step:
  "map_option arStatus (map_of (registry_run x r) n) = status_event n x (map_option arStatus (map_of r n))"
proof (cases x)
  case (OpRegister now rec)
  then show ?thesis by (simp add: Register_def Let_def)
next
  case (OpDiscovery now cap)
  then show ?thesis using status_discovery by simp
next
  case (OpHealth now nick h)
  then show ?thesis by (simp add: UpdateHealth_def status_mmodify option.map_comp o_def)
next
  case (OpStatus nick st)
  then show ?thesis by (simp add: UpdateStatus_def status_mmodify option.map_comp o_def)
qed (simp_all add: UpdateMetrics_def UpdateCostSummary_def status_mmodify Remove_def)

text \<open>
  C23.  The registry refines one status machine per agent: after any operations in any order, the record of an agent
  carries that agent's nick, each agent has one record, and its status is what its own events make of it, registration, capability
  messages, healthy polls, explicit changes and removal; metrics, costs and events of other agents do not touch it.
\<close>

theorem registry_refines_status_machine:
  "map_option arStatus (GetRecord (fold registry_run ops NewAgentRegistry) n) = fold (status_event n) ops None
   \<and> (\<forall>k. map_option arNick (GetRecord (fold registry_run ops NewAgentRegistry) k) \<in> {None, Some k})
   \<and> Count (fold registry_run ops NewAgentRegistry)
       = card {k. GetRecord (fold registry_run ops NewAgentRegistry) k \<noteq> None}"
proof -
  let ?r = "fold registry_run ops NewAgentRegistry"
  have "map_option arStatus (map_of (fold registry_run ops r) n)
      = fold (status_event n) ops (map_option arStatus (map_of r n))" for r
    by (induction ops arbitrary: r) (simp_all add: status_step)
  from this [of NewAgentRegistry] have st: "map_option arStatus (GetRecord ?r n) = fold (status_event n) ops None"
    by (simp add: GetRecord_def NewAgentRegistry_def)
  have inv: "registry_inv ?r" by (rule registry_store.inv_run)
  then have nicks: "map_option arNick (GetRecord ?r k) \<in> {None, Some k}" for k
    by (cases "map_of ?r k") (auto simp: GetRecord_def registry_inv_def keyed_def dest!: map_of_SomeD)
  have "{k. GetRecord ?r k \<noteq> None} = set (mkeys ?r)"
    by (auto simp: GetRecord_def map_of_eq_None_iff)
  with inv have "Count ?r = card {k. GetRecord ?r k \<noteq> None}"
    using distinct_card [of "mkeys ?r"] by (simp add: Count_def registry_inv_def keyed_def)
  with st nicks show ?thesis by blast
qed

end
