(* ===== verification/Hub.thy ===== *)
theory Hub
  imports Interfaces "HOL-Library.Multiset"
begin

text \<open>
  The hub of the manager's event stream, \<^verbatim>\<open>internal/manager/hub.go\<close>, with the loop of \<^verbatim>\<open>serveWS\<close> in
  \<^verbatim>\<open>server.go\<close>.  A connection is a pointer to a buffered channel; the hub holds the set of registered pointers.
  Sending on a closed channel and closing one twice panic: the operations return None there.
\<close>

section \<open>Channels and the hub\<close>

record wsConn =
  wcSend :: "string list"
  wcCap :: nat
  wcClosed :: bool

record Hub =
  hubClients :: "nat list"
  hubConns :: "nat \<Rightarrow> wsConn option"

definition NewHub :: Hub where
  "NewHub = \<lparr>hubClients = [], hubConns = (\<lambda>_. None)\<rparr>"

text \<open>\<^verbatim>\<open>serveWS\<close> makes the connection, \<^verbatim>\<open>&wsConn{send: make(chan []byte, 256)}\<close>.\<close>

definition newWsConn :: wsConn where
  "newWsConn = \<lparr>wcSend = [], wcCap = 256, wcClosed = False\<rparr>"

definition Register_hub :: "nat \<Rightarrow> Hub \<Rightarrow> Hub" where
  "Register_hub c h = h\<lparr>hubClients := List.insert c (hubClients h)\<rparr>"

definition close_send :: "wsConn \<Rightarrow> wsConn option" where
  "close_send c = (if wcClosed c then None else Some (c\<lparr>wcClosed := True\<rparr>))"

definition Unregister :: "nat \<Rightarrow> Hub \<Rightarrow> Hub option" where
  "Unregister c h =
     (if c \<in> set (hubClients h) then
        (case hubConns h c of
           None \<Rightarrow> None
         | Some conn \<Rightarrow>
             map_option (\<lambda>conn. h\<lparr>hubClients := removeAll c (hubClients h), hubConns := (hubConns h)(c \<mapsto> conn)\<rparr>)
               (close_send conn))
      else Some h)"

text \<open>\<^verbatim>\<open>select\<close> with a default: the data is sent when the buffer has room, and skipped otherwise.\<close>

definition has_room :: "wsConn \<Rightarrow> bool" where
  "has_room c \<longleftrightarrow> length (wcSend c) < wcCap c"

definition try_send :: "string \<Rightarrow> wsConn \<Rightarrow> wsConn option" where
  "try_send data c =
     (if wcClosed c then None else Some (if has_room c then c\<lparr>wcSend := wcSend c @ [data]\<rparr> else c))"

definition send_to :: "string \<Rightarrow> nat \<Rightarrow> Hub \<Rightarrow> Hub option" where
  "send_to data c h =
     (case hubConns h c of
        None \<Rightarrow> None
      | Some conn \<Rightarrow> map_option (\<lambda>conn. h\<lparr>hubConns := (hubConns h)(c \<mapsto> conn)\<rparr>) (try_send data conn))"

fun send_each :: "string \<Rightarrow> nat list \<Rightarrow> Hub \<Rightarrow> Hub option" where
  "send_each data [] h = Some h"
| "send_each data (c # cs) h = (case send_to data c h of None \<Rightarrow> None | Some h' \<Rightarrow> send_each data cs h')"

text \<open>\<^verbatim>\<open>Broadcast\<close> of the encoded message; nothing is sent when the encoding failed.\<close>

definition Broadcast :: "string option \<Rightarrow> Hub \<Rightarrow> Hub option" where
  "Broadcast data h = (case data of None \<Rightarrow> Some h | Some d \<Rightarrow> send_each d (hubClients h) h)"

definition ClientCount :: "Hub \<Rightarrow> nat" where
  "ClientCount h = length (hubClients h)"

section \<open>Broadcasts in parallel\<close>

text \<open>
  Broadcasts hold the read lock and run in parallel; registration and removal hold the write lock, so they wait until no broadcast
  is under way.  A client's own loop takes from its channel without any lock.  The state of the whole: the hub, the
  broadcasts under way with the clients each has still to serve, and per client what its loop has written; beside it,
  what was broadcast since the client came and what was skipped.
\<close>

record hub_run =
  hrHub :: Hub
  hrActive :: "(string \<times> nat list) list"
  hrWritten :: "nat \<Rightarrow> string list"
  hrSince :: "nat \<Rightarrow> string list"
  hrSkipped :: "nat \<Rightarrow> string list"

definition hub_start :: hub_run where
  "hub_start = \<lparr>hrHub = NewHub, hrActive = [], hrWritten = (\<lambda>_. []), hrSince = (\<lambda>_. []), hrSkipped = (\<lambda>_. [])\<rparr>"

definition skips :: "nat \<Rightarrow> Hub \<Rightarrow> bool" where
  "skips c h \<longleftrightarrow> (case hubConns h c of None \<Rightarrow> False | Some conn \<Rightarrow> \<not> has_room conn)"

inductive hub_step :: "hub_run \<Rightarrow> hub_run \<Rightarrow> bool" where
  connect: "hrActive s = [] \<Longrightarrow> hubConns (hrHub s) c = None \<Longrightarrow>
    hub_step s (s\<lparr>hrHub := Register_hub c ((hrHub s)\<lparr>hubConns := (hubConns (hrHub s))(c \<mapsto> newWsConn)\<rparr>)\<rparr>)"
| leave: "hrActive s = [] \<Longrightarrow> Unregister c (hrHub s) = Some h' \<Longrightarrow> hub_step s (s\<lparr>hrHub := h'\<rparr>)"
| begin_broadcast: "set cs = set (hubClients (hrHub s)) \<Longrightarrow> distinct cs \<Longrightarrow>
    hub_step s (s\<lparr>hrActive := (d, cs) # hrActive s,
                  hrSince := (\<lambda>c. if c \<in> set cs then hrSince s c @ [d] else hrSince s c)\<rparr>)"
| send_one: "hrActive s = pre @ (d, c # cs) # post \<Longrightarrow> send_to d c (hrHub s) = Some h' \<Longrightarrow>
    hub_step s (s\<lparr>hrHub := h', hrActive := pre @ (d, cs) # post,
                  hrSkipped := (hrSkipped s)(c := hrSkipped s c @ (if skips c (hrHub s) then [d] else []))\<rparr>)"
| end_broadcast: "hrActive s = pre @ (d, []) # post \<Longrightarrow> hub_step s (s\<lparr>hrActive := pre @ post\<rparr>)"
| receive: "hubConns (hrHub s) c = Some conn \<Longrightarrow> wcSend conn = d # ds \<Longrightarrow>
    hub_step s (s\<lparr>hrHub := (hrHub s)\<lparr>hubConns := (hubConns (hrHub s))(c \<mapsto> conn\<lparr>wcSend := ds\<rparr>)\<rparr>,
                  hrWritten := (hrWritten s)(c := hrWritten s c @ [d])\<rparr>)"

inductive_cases hub_stepE: "hub_step s s'"

inductive hub_reach :: "hub_run \<Rightarrow> bool" where
  start: "hub_reach hub_start"
| step: "hub_reach s \<Longrightarrow> hub_step s s' \<Longrightarrow> hub_reach s'"

section \<open>Invariant\<close>

text \<open>What a broadcast under way still owes a client.\<close>

definition owed :: "(string \<times> nat list) list \<Rightarrow> nat \<Rightarrow> string multiset" where
  "owed active c = mset (map fst (filter (\<lambda>(d, cs). c \<in> set cs) active))"

lemma owed_simps [simp]:
  "owed [] c = {#}" "owed ((d, cs) # as) c = (if c \<in> set cs then {#d#} else {#}) + owed as c"
  "owed (as @ as') c = owed as c + owed as' c"
  by (simp_all add: owed_def)

definition chan_ok :: "hub_run \<Rightarrow> nat \<Rightarrow> wsConn \<Rightarrow> bool" where
  "chan_ok s c conn \<longleftrightarrow> wcClosed conn = (c \<notin> set (hubClients (hrHub s))) \<and> wcCap conn = 256
     \<and> length (wcSend conn) \<le> 256
     \<and> mset (hrWritten s c) + mset (wcSend conn) + mset (hrSkipped s c) + owed (hrActive s) c = mset (hrSince s c)"

definition conn_ok :: "hub_run \<Rightarrow> nat \<Rightarrow> bool" where
  "conn_ok s c \<longleftrightarrow>
     (case hubConns (hrHub s) c of
        None \<Rightarrow> c \<notin> set (hubClients (hrHub s)) \<and> hrWritten s c = [] \<and> hrSkipped s c = [] \<and> hrSince s c = []
      | Some conn \<Rightarrow> chan_ok s c conn)"

definition active_ok :: "hub_run \<Rightarrow> bool" where
  "active_ok s \<longleftrightarrow> distinct (hubClients (hrHub s))
     \<and> (\<forall>(d, cs) \<in> set (hrActive s). distinct cs \<and> set cs \<subseteq> set (hubClients (hrHub s)))"

definition hub_inv :: "hub_run \<Rightarrow> bool" where
  "hub_inv s \<longleftrightarrow> active_ok s \<and> (\<forall>c. conn_ok s c)"

lemma hub_invI: "active_ok s \<Longrightarrow> (\<And>c. conn_ok s c) \<Longrightarrow> hub_inv s"
  by (simp add: hub_inv_def)

lemma hub_invD: "hub_inv s \<Longrightarrow> active_ok s" "hub_inv s \<Longrightarrow> conn_ok s c"
  by (simp_all add: hub_inv_def)

lemma hub_inv_start: "hub_inv hub_start"
  by (simp add: hub_inv_def active_ok_def conn_ok_def hub_start_def NewHub_def)

lemma hub_inv_conn: "hub_inv s \<Longrightarrow> hubConns (hrHub s) c = Some conn \<Longrightarrow> chan_ok s c conn"
  using hub_invD(2) [of s c] by (simp add: conn_ok_def)

lemma hub_inv_client: "hub_inv s \<Longrightarrow> c \<in> set (hubClients (hrHub s)) \<Longrightarrow> \<exists>conn. hubConns (hrHub s) c = Some conn"
  using hub_invD(2) [of s c] by (auto simp: conn_ok_def split: option.splits)

text \<open>No send meets a closed channel, no removal closes one twice.\<close>

lemma send_to_defined:
  assumes "hub_inv s" "c \<in> set (hubClients (hrHub s))"
  shows "send_to d c (hrHub s) \<noteq> None"
  using hub_inv_client [OF assms] assms by (auto simp: send_to_def try_send_def chan_ok_def dest: hub_inv_conn)

lemma Unregister_defined:
  assumes "hub_inv s"
  shows "Unregister c (hrHub s) \<noteq> None"
  using hub_inv_client [OF assms] hub_inv_conn [OF assms, of c]
  by (fastforce simp: Unregister_def close_send_def chan_ok_def split: option.splits)

lemma send_to_cases:
  assumes "send_to d c h = Some h'"
  obtains conn where "hubConns h c = Some conn" "\<not> wcClosed conn" "skips c h \<longleftrightarrow> \<not> has_room conn"
    "h' = h\<lparr>hubConns := (hubConns h)(c \<mapsto> if has_room conn then conn\<lparr>wcSend := wcSend conn @ [d]\<rparr> else conn)\<rparr>"
  using assms by (auto simp: send_to_def try_send_def skips_def split: option.splits if_splits)

lemma hub_inv_step:
  assumes "hub_step s s'" "hub_inv s"
  shows "hub_inv s'"
  using assms
proof (induction rule: hub_step.induct)
  case (connect s c)
  note inv = hub_invD [OF connect(3)]
  show ?case
  proof (rule hub_invI)
    fix k
    show "conn_ok (s\<lparr>hrHub := Register_hub c ((hrHub s)\<lparr>hubConns := (hubConns (hrHub s))(c \<mapsto> newWsConn)\<rparr>)\<rparr>) k"
      using inv(2) [of k] connect(1,2) 
      by (cases "k = c") (auto simp: conn_ok_def chan_ok_def Register_hub_def newWsConn_def split: option.splits)
  qed (use inv(1) connect(1) in \<open>simp add: active_ok_def Register_hub_def\<close>)
next
  case (leave s c h')
  note inv = hub_invD [OF leave(3)]
  show ?case
  proof (cases "c \<in> set (hubClients (hrHub s))")
    case True
    with leave(2) obtain conn where h': "hubConns (hrHub s) c = Some conn"
      "h' = (hrHub s)\<lparr>hubClients := removeAll c (hubClients (hrHub s)), hubConns := (hubConns (hrHub s))(c \<mapsto> conn\<lparr>wcClosed := True\<rparr>)\<rparr>"
      by (auto simp: Unregister_def close_send_def split: option.splits if_splits)
    show ?thesis
    proof (rule hub_invI)
      fix k
      show "conn_ok (s\<lparr>hrHub := h'\<rparr>) k"
        using inv(2) [of k] h' by (cases "k = c") (auto simp: conn_ok_def chan_ok_def split: option.splits)
    qed (use inv(1) leave(1) h' in \<open>simp add: active_ok_def distinct_removeAll\<close>)
  next
    case False
    with leave(2) have "s\<lparr>hrHub := h'\<rparr> = s" by (simp add: Unregister_def)
    with leave(3) show ?thesis by simp
  qed
next
  case (begin_broadcast cs s d)
  note inv = hub_invD [OF begin_broadcast(3)]
  show ?case
  proof (rule hub_invI)
    fix k
    show "conn_ok (s\<lparr>hrActive := (d, cs) # hrActive s,
        hrSince := (\<lambda>c. if c \<in> set cs then hrSince s c @ [d] else hrSince s c)\<rparr>) k"
      using inv(2) [of k] begin_broadcast(1) by (auto simp: conn_ok_def chan_ok_def split: option.splits)
  qed (use inv(1) begin_broadcast(1,2) in \<open>simp add: active_ok_def\<close>)
next
  case (send_one s pre d c cs post h')
  note inv = hub_invD [OF send_one(3)]
  from send_one(2) obtain conn where conn: "hubConns (hrHub s) c = Some conn" "\<not> wcClosed conn"
    "skips c (hrHub s) \<longleftrightarrow> \<not> has_room conn"
    "h' = (hrHub s)\<lparr>hubConns := (hubConns (hrHub s))(c \<mapsto> if has_room conn then conn\<lparr>wcSend := wcSend conn @ [d]\<rparr> else conn)\<rparr>"
    by (rule send_to_cases)
  from inv(1) send_one(1) have dist: "distinct (c # cs)" by (auto simp: active_ok_def)
  show ?case
  proof (rule hub_invI)
    fix k
    show "conn_ok (s\<lparr>hrHub := h', hrActive := pre @ (d, cs) # post,
        hrSkipped := (hrSkipped s)(c := hrSkipped s c @ (if skips c (hrHub s) then [d] else []))\<rparr>) k"
      using inv(2) [of k] send_one(1) conn dist
      by (cases "k = c") (auto simp: conn_ok_def chan_ok_def has_room_def split: option.splits)
  qed (use inv(1) send_one(1) conn(4) in \<open>auto simp: active_ok_def\<close>)
next
  case (end_broadcast s pre d post)
  note inv = hub_invD [OF end_broadcast(2)]
  show ?case
  proof (rule hub_invI)
    fix k
    show "conn_ok (s\<lparr>hrActive := pre @ post\<rparr>) k"
      using inv(2) [of k] end_broadcast(1) by (simp add: conn_ok_def chan_ok_def split: option.splits)
  qed (use inv(1) end_broadcast(1) in \<open>simp add: active_ok_def\<close>)
next
  case (receive s c conn d ds)
  note inv = hub_invD [OF receive(3)]
  show ?case
  proof (rule hub_invI)
    fix k
    show "conn_ok (s\<lparr>hrHub := (hrHub s)\<lparr>hubConns := (hubConns (hrHub s))(c \<mapsto> conn\<lparr>wcSend := ds\<rparr>)\<rparr>,
        hrWritten := (hrWritten s)(c := hrWritten s c @ [d])\<rparr>) k"
      using inv(2) [of k] receive(1,2) by (cases "k = c") (simp_all add: conn_ok_def chan_ok_def split: option.splits)
  qed (use inv(1) in \<open>simp add: active_ok_def\<close>)
qed

lemma hub_reach_inv: "hub_reach s \<Longrightarrow> hub_inv s"
  by (induction rule: hub_reach.induct) (auto intro: hub_inv_start hub_inv_step)

text \<open>A broadcast needs only that the registered channels are open, and keeps that.\<close>

definition hub_open :: "Hub \<Rightarrow> bool" where
  "hub_open h \<longleftrightarrow> (\<forall>c \<in> set (hubClients h). \<exists>conn. hubConns h c = Some conn \<and> \<not> wcClosed conn)"

lemma send_each_open:
  assumes "\<forall>c \<in> set (cs @ hubClients h). \<exists>conn. hubConns h c = Some conn \<and> \<not> wcClosed conn"
  shows "\<exists>h'. send_each d cs h = Some h' \<and> hub_open h' \<and> hubClients h' = hubClients h"
  using assms
proof (induction cs arbitrary: h)
  case Nil
  then show ?case by (simp add: hub_open_def)
next
  case (Cons c cs)
  then obtain conn where conn: "hubConns h c = Some conn" "\<not> wcClosed conn" by auto
  let ?h = "h\<lparr>hubConns := (hubConns h)(c \<mapsto> if has_room conn then conn\<lparr>wcSend := wcSend conn @ [d]\<rparr> else conn)\<rparr>"
  have "\<forall>k \<in> set (cs @ hubClients ?h). \<exists>conn. hubConns ?h k = Some conn \<and> \<not> wcClosed conn"
    using Cons.prems conn by auto
  from Cons.IH [OF this] conn show ?case by (simp add: send_to_def try_send_def)
qed

lemma Broadcast_open:
  "hub_open h \<Longrightarrow> \<exists>h'. Broadcast data h = Some h' \<and> hub_open h' \<and> hubClients h' = hubClients h"
  using send_each_open [of "hubClients h" h] by (auto simp: Broadcast_def hub_open_def split: option.split)

lemma hub_inv_open: "hub_inv s \<Longrightarrow> hub_open (hrHub s)"
  unfolding hub_open_def using hub_inv_client hub_inv_conn by (fastforce simp: chan_ok_def)

text \<open>
  C21.  The event stream never panics and loses nothing silently: in every state that connects, disconnects,
  parallel broadcasts and the clients' own reading can reach, a broadcast and a removal go through (no send on a closed
  channel, no channel closed twice); a client's buffer holds at most 256 events; and what a client has written, what waits in its buffer,
  what was skipped because its buffer was full and what broadcasts under way still owe it are together exactly what was broadcast since it
  connected.
\<close>

theorem hub_accounts_for_every_event:
  assumes "hub_reach s"
  shows "Broadcast data (hrHub s) \<noteq> None \<and> Unregister c (hrHub s) \<noteq> None
    \<and> (case hubConns (hrHub s) c of
         None \<Rightarrow> True
       | Some conn \<Rightarrow> length (wcSend conn) \<le> 256 \<and> wcClosed conn = (c \<notin> set (hubClients (hrHub s)))
          \<and> mset (hrWritten s c) + mset (wcSend conn) + mset (hrSkipped s c) + owed (hrActive s) c = mset (hrSince s c))"
proof -
  from assms have inv: "hub_inv s" by (rule hub_reach_inv)
  from Broadcast_open [OF hub_inv_open [OF inv], of data] have "Broadcast data (hrHub s) \<noteq> None" by auto
  with Unregister_defined [OF inv, of c] hub_inv_conn [OF inv, of c] show ?thesis
    by (simp add: chan_ok_def split: option.split)
qed

text \<open>A client comes, an event is sent to it, it reads it.\<close>

definition demo_hub :: hub_run where
  "demo_hub = (let s = hub_start\<lparr>hrHub := Register_hub 3 (NewHub\<lparr>hubConns := [3 \<mapsto> newWsConn]\<rparr>)\<rparr>
     in s\<lparr>hrActive := [(''e'', [3])], hrSince := (\<lambda>c. if c = 3 then [''e''] else [])\<rparr>)"

theorem hub_accounts_for_every_event_witness:
  "Broadcast (Some ''x'') (hrHub demo_hub) \<noteq> None \<and> Unregister 3 (hrHub demo_hub) \<noteq> None
   \<and> owed (hrActive demo_hub) 3 = {#''e''#}"
proof -
  let ?s = "hub_start\<lparr>hrHub := Register_hub 3 (NewHub\<lparr>hubConns := [3 \<mapsto> newWsConn]\<rparr>)\<rparr>"
  have "hub_step hub_start ?s"
    using hub_step.connect [of hub_start 3] by (simp add: hub_start_def NewHub_def)
  with hub_reach.start have s: "hub_reach ?s" by (rule hub_reach.step)
  have "hub_step ?s demo_hub"
    using hub_step.begin_broadcast [of "[3]" ?s "''e''"]
    by (simp add: demo_hub_def Let_def hub_start_def NewHub_def Register_hub_def cong: if_cong)
  with s have "hub_reach demo_hub" by (rule hub_reach.step)
  from hub_accounts_for_every_event [OF this, of "Some ''x''" 3] show ?thesis
    by (simp add: demo_hub_def Let_def)
qed

end
