(* ===== verification/ManagerConfig.thy ===== *)
theory ManagerConfig
  imports ConfigLoader "HOL-Library.Char_ord"
begin

text \<open>
  The configuration of the manager, \<^verbatim>\<open>internal/manager/config.go\<close>: the same four layers as the agent's, with the
  manager's own settings and its own string functions, which are index loops over bytes.
\<close>

record SSHDefaults =
  sdUser :: string
  sdKeyPath :: string

record DockerDefaults =
  ddImage :: string
  ddNetwork :: string

record ManagerConfig =
  mgIRC :: Config
  mgListenAddr :: string
  mgLogLevel :: string
  mgLogFmt :: string
  mgAgentBinary :: string
  mgPollInterval :: duration
  mgSSHDefaults :: SSHDefaults
  mgDockerDefaults :: DockerDefaults

record mgrFileIRC =
  miServer :: string
  miNick :: string
  miUsername :: string
  miPassword :: string
  miRealName :: string
  miTLS :: "bool option"
  miTLSInsecureSkipVerify :: bool
  miSASL :: "bool option"
  miSASLMech :: string
  miChannels :: "string list"
  miDebug :: bool

record mgrFileConfig =
  mfIRC :: mgrFileIRC
  mfListenAddr :: string
  mfLogLevel :: string
  mfLogFmt :: string
  mfAgentBinary :: string
  mfPollInterval :: string
  mfSSHDefaults :: SSHDefaults
  mfDockerDefaults :: DockerDefaults

section \<open>String functions\<close>

definition blank_byte :: "char \<Rightarrow> bool" where
  "blank_byte c \<longleftrightarrow> c = CHR '' '' \<or> c = CHR 0x09"

function trim_left :: "string \<Rightarrow> nat \<Rightarrow> nat \<Rightarrow> nat" where
  "trim_left s i j = (if i < j \<and> blank_byte (s ! i) then trim_left s (i + 1) j else i)"
  by pat_completeness auto
termination trim_left
  by (relation "measure (\<lambda>(s, i, j). j - i)") auto

fun trim_right :: "string \<Rightarrow> nat \<Rightarrow> nat \<Rightarrow> nat" where
  "trim_right s i j = (if j > i \<and> blank_byte (s ! (j - 1)) then trim_right s i (j - 1) else j)"

definition slice :: "string \<Rightarrow> nat \<Rightarrow> nat \<Rightarrow> string" where
  "slice s i j = take (j - i) (drop i s)"

definition trimSpace :: "string \<Rightarrow> string" where
  "trimSpace s = (let i = trim_left s 0 (length s); j = trim_right s i (length s) in slice s i j)"

function splitBy_loop :: "string \<Rightarrow> char \<Rightarrow> nat \<Rightarrow> nat \<Rightarrow> string list \<Rightarrow> string list" where
  "splitBy_loop s sep i start result =
     (if i < length s then
        if s ! i = sep then splitBy_loop s sep (i + 1) (i + 1) (result @ [trimSpace (slice s start i)])
        else splitBy_loop s sep (i + 1) start result
      else result @ [trimSpace (slice s start (length s))])"
  by pat_completeness auto
termination splitBy_loop
  by (relation "measure (\<lambda>(s, sep, i, start, result). length s - i)") auto

definition splitBy :: "string \<Rightarrow> char \<Rightarrow> string list" where
  "splitBy s sep = splitBy_loop s sep 0 0 []"

definition splitComma :: "string \<Rightarrow> string list" where
  "splitComma s = (if s = [] then [] else filter (\<lambda>p. p \<noteq> []) (splitBy s (CHR '','')))"

declare trim_left.simps [simp del] trim_right.simps [simp del] splitBy_loop.simps [simp del]

section \<open>File, environment, flags\<close>

definition ovComma :: "string \<Rightarrow> string list \<Rightarrow> string list" where
  "ovComma v old = (if v \<noteq> [] then splitComma v else old)"

definition mgr_file_over :: "(string \<Rightarrow> duration option) \<Rightarrow> mgrFileConfig \<Rightarrow> ManagerConfig \<Rightarrow> ManagerConfig" where
  "mgr_file_over dur fc cfg =
     (let fi = mfIRC fc; c = mgIRC cfg
      in cfg\<lparr>mgIRC := c
               \<lparr>icServer := ov (miServer fi) (icServer c), icNick := ov (miNick fi) (icNick c),
                icUsername := ov (miUsername fi) (icUsername c), icPassword := ov (miPassword fi) (icPassword c),
                icRealName := ov (miRealName fi) (icRealName c), icTLS := ovOpt (miTLS fi) (icTLS c),
                icTLSInsecureSkipVerify := miTLSInsecureSkipVerify fi, icSASL := ovOpt (miSASL fi) (icSASL c),
                icSASLMech := ov (miSASLMech fi) (icSASLMech c), icChannels := ov (miChannels fi) (icChannels c),
                icDebug := miDebug fi\<rparr>,
             mgListenAddr := ov (mfListenAddr fc) (mgListenAddr cfg),
             mgLogLevel := ov (mfLogLevel fc) (mgLogLevel cfg), mgLogFmt := ov (mfLogFmt fc) (mgLogFmt cfg),
             mgAgentBinary := ov (mfAgentBinary fc) (mgAgentBinary cfg),
             mgPollInterval := ovDur dur (mfPollInterval fc) (mgPollInterval cfg),
             mgSSHDefaults := mfSSHDefaults fc, mgDockerDefaults := mfDockerDefaults fc\<rparr>)"

definition mgr_loadFromFile :: "('e, mgrFileConfig) sys \<Rightarrow> ManagerConfig \<Rightarrow> string \<Rightarrow> 'e + ManagerConfig" where
  "mgr_loadFromFile sys cfg path =
     (case syReadFile sys path of
        Inl e \<Rightarrow> Inl e
      | Inr data \<Rightarrow>
          (case syUnmarshal sys data of
             Inl e \<Rightarrow> Inl e
           | Inr fc \<Rightarrow> Inr (mgr_file_over (syParseDuration sys) fc cfg)))"

definition mgr_applyEnv :: "('e, 'fc) sys \<Rightarrow> ManagerConfig \<Rightarrow> ManagerConfig" where
  "mgr_applyEnv sys cfg =
     (let env = syGetenv sys; c = mgIRC cfg
      in cfg\<lparr>mgIRC := c
               \<lparr>icServer := ov (env ''IRC_SERVER'') (icServer c), icNick := ov (env ''IRC_NICK'') (icNick c),
                icUsername := ov (env ''IRC_USERNAME'') (icUsername c), icPassword := ov (env ''IRC_PASSWORD'') (icPassword c),
                icChannels := ovComma (env ''IRC_CHANNELS'') (icChannels c)\<rparr>,
             mgListenAddr := ov (env ''MANAGER_LISTEN_ADDR'') (mgListenAddr cfg),
             mgAgentBinary := ov (env ''MANAGER_AGENT_BINARY'') (mgAgentBinary cfg),
             mgLogLevel := ov (env ''LOG_LEVEL'') (mgLogLevel cfg),
             mgLogFmt := ov (env ''LOG_FORMAT'') (mgLogFmt cfg)\<rparr>)"

definition managerFlags :: formal where
  "managerFlags =
     [(''server'', FString), (''nick'', FString), (''username'', FString), (''password'', FString), (''channels'', FString),
      (''tls'', FBool), (''tls-insecure'', FBool), (''sasl'', FBool), (''listen-addr'', FString), (''log-level'', FString),
      (''log-format'', FString), (''agent-binary'', FString), (''poll-interval'', FString), (''config'', FString),
      (''debug'', FBool)]"

definition mgr_applyFlags :: "(string \<Rightarrow> duration option) \<Rightarrow> actual \<Rightarrow> ManagerConfig \<Rightarrow> ManagerConfig" where
  "mgr_applyFlags dur actual cfg =
     (let c = mgIRC cfg
      in cfg\<lparr>mgIRC := c
               \<lparr>icServer := ovFlag actual ''server'' vstring (icServer c), icNick := ovFlag actual ''nick'' vstring (icNick c),
                icUsername := ovFlag actual ''username'' vstring (icUsername c),
                icPassword := ovFlag actual ''password'' vstring (icPassword c),
                icChannels := ovFlag actual ''channels'' (splitComma \<circ> vstring) (icChannels c),
                icTLS := ovFlag actual ''tls'' vbool (icTLS c),
                icTLSInsecureSkipVerify := ovFlag actual ''tls-insecure'' vbool (icTLSInsecureSkipVerify c),
                icSASL := ovFlag actual ''sasl'' vbool (icSASL c), icDebug := ovFlag actual ''debug'' vbool (icDebug c)\<rparr>,
             mgListenAddr := ovFlag actual ''listen-addr'' vstring (mgListenAddr cfg),
             mgLogLevel := ovFlag actual ''log-level'' vstring (mgLogLevel cfg),
             mgLogFmt := ovFlag actual ''log-format'' vstring (mgLogFmt cfg),
             mgAgentBinary := ovFlag actual ''agent-binary'' vstring (mgAgentBinary cfg),
             mgPollInterval :=
               ovFlag actual ''poll-interval'' (\<lambda>v. ovOpt (dur (vstring v)) (mgPollInterval cfg)) (mgPollInterval cfg)\<rparr>)"

definition defaultManagerConfig :: ManagerConfig where
  "defaultManagerConfig =
     \<lparr>mgIRC = DefaultConfig, mgListenAddr = '':9090'', mgLogLevel = ''info'', mgLogFmt = ''text'', mgAgentBinary = [],
      mgPollInterval = 10 * Second, mgSSHDefaults = \<lparr>sdUser = [], sdKeyPath = []\<rparr>,
      mgDockerDefaults = \<lparr>ddImage = [], ddNetwork = []\<rparr>\<rparr>"

definition LoadConfig :: "('e, mgrFileConfig) sys \<Rightarrow> string list \<Rightarrow> 'e load_error + ManagerConfig" where
  "LoadConfig sys args =
     (case parse_args (syNum sys) managerFlags args [] of
        Inl e \<Rightarrow> Inl (ErrFlag e)
      | Inr (actual, _) \<Rightarrow>
          let path = ovFlag actual ''config'' vstring [];
              path = (if path = [] then syGetenv sys ''QUEEN_CONFIG'' else path)
          in case (if path \<noteq> [] then mgr_loadFromFile sys defaultManagerConfig path else Inr defaultManagerConfig) of
               Inl e \<Rightarrow> Inl (ErrFile e)
             | Inr cfg \<Rightarrow> Inr (mgr_applyFlags (syParseDuration sys) actual (mgr_applyEnv sys cfg)))"

section \<open>The index loops and the library functions\<close>

lemma trim_left_drop:
  "i \<le> length s \<Longrightarrow> trim_left s i (length s) \<le> length s
     \<and> drop (trim_left s i (length s)) s = dropWhile blank_byte (drop i s)"
proof (induction s i "length s" rule: trim_left.induct)
  case (1 s i)
  show ?case
  proof (cases "i < length s \<and> blank_byte (s ! i)")
    case True
    then have "drop i s = s ! i # drop (i + 1) s" by (simp add: Cons_nth_drop_Suc)
    with True 1 show ?thesis by (simp add: trim_left.simps [of s i])
  next
    case False
    with 1(2) have "dropWhile blank_byte (drop i s) = drop i s"
      by (cases "i < length s") (simp_all add: Cons_nth_drop_Suc [symmetric])
    with 1(2) show ?thesis by (subst (1 2) trim_left.simps) (use False in auto)
  qed
qed

lemma slice_end: "slice s i (length s) = drop i s"
  by (simp add: slice_def)

lemma slice_snoc: "i < j \<Longrightarrow> j \<le> length s \<Longrightarrow> slice s i j = slice s i (j - 1) @ [s ! (j - 1)]"
  by (cases j) (simp_all add: slice_def Suc_diff_le take_Suc_conv_app_nth)

lemma trim_right_slice:
  "i \<le> j \<Longrightarrow> j \<le> length s \<Longrightarrow> slice s i (trim_right s i j) = rev (dropWhile blank_byte (rev (slice s i j)))"
proof (induction s i j rule: trim_right.induct)
  case (1 s i j)
  show ?case
  proof (cases "i < j")
    case True
    note eq = slice_snoc [OF True "1.prems"(2)]
    show ?thesis
    proof (cases "blank_byte (s ! (j - 1))")
      case b: True
      with True 1 show ?thesis by (simp add: trim_right.simps [of s i j]) (simp add: eq)
    next
      case False
      then show ?thesis by (simp add: trim_right.simps [of s i j] eq)
    qed
  next
    case False
    then show ?thesis by (simp add: trim_right.simps [of s i j] slice_def)
  qed
qed

lemma trimSpace_eq: "trimSpace s = rev (dropWhile blank_byte (rev (dropWhile blank_byte s)))"
  using trim_left_drop [of 0 s] trim_right_slice [of "trim_left s 0 (length s)" "length s" s]
  by (simp add: trimSpace_def Let_def slice_end)

lemma splitBy_loop_eq:
  assumes "start \<le> i" "i \<le> length s" "sep \<notin> set (slice s start i)"
  shows "splitBy_loop s sep i start result = result @ map trimSpace (Split (drop start s) sep)"
  using assms
proof (induction s sep i start result rule: splitBy_loop.induct)
  case (1 s sep i start result)
  show ?case
  proof (cases "i < length s")
    case False
    with 1(3-5) have "slice s start (length s) = drop start s" "sep \<notin> set (drop start s)"
      by (auto simp: slice_def)
    with False show ?thesis by (simp add: splitBy_loop.simps [of s sep i start] Split_no_sep)
  next
    case True
    have "drop start s = take (i - start) (drop start s) @ drop (i - start) (drop start s)"
      by (rule append_take_drop_id [symmetric])
    also have "drop (i - start) (drop start s) = drop i s" using 1(3) by simp
    also have "drop i s = s ! i # drop (i + 1) s" using True by (simp add: Cons_nth_drop_Suc)
    finally have eq: "drop start s = slice s start i @ s ! i # drop (i + 1) s" by (simp add: slice_def)
    show ?thesis
    proof (cases "s ! i = sep")
      case sep: True
      have "splitBy_loop s sep (i + 1) (i + 1) (result @ [trimSpace (slice s start i)])
          = (result @ [trimSpace (slice s start i)]) @ map trimSpace (Split (drop (i + 1) s) sep)"
        using True sep by (intro 1(1)) (auto simp: slice_def)
      moreover have "Split (drop start s) sep = slice s start i # Split (drop (i + 1) s) sep"
        using Split_append_sep [OF 1(5)] eq sep by simp
      ultimately show ?thesis using True sep by (simp add: splitBy_loop.simps [of s sep i start])
    next
      case sep: False
      have "slice s start (i + 1) = slice s start i @ [s ! i]"
        using slice_snoc [of start "i + 1" s] True 1(3) by simp
      with sep True 1 show ?thesis by (simp add: splitBy_loop.simps [of s sep i start])
    qed
  qed
qed

lemma splitBy_eq: "splitBy s sep = map trimSpace (Split s sep)"
  using splitBy_loop_eq [of 0 0 s sep "[]"] by (simp add: splitBy_def slice_def)

text \<open>Text whose only white space, and whose only bytes of white-space runes, are blanks: all printable ASCII.\<close>

definition plain_blanks :: "string \<Rightarrow> bool" where
  "plain_blanks s \<longleftrightarrow> (\<forall>c \<in> set s. c \<in> set (concat ws_runes) \<longrightarrow> blank_byte c)"

lemma find_ws_none:
  assumes "c \<notin> set (concat ws)"
  shows "find (\<lambda>w. w \<noteq> [] \<and> prefix w (c # s)) ws = None"
proof -
  have "\<not> (w \<noteq> [] \<and> prefix w (c # s))" if "w \<in> set ws" for w
    using that assms by (auto simp: prefix_Cons)
  then show ?thesis by (simp add: find_None_iff)
qed

lemma find_ws_blank:
  assumes "c \<in> set (concat ws_runes) \<longrightarrow> blank_byte c"
  shows "find (\<lambda>w. w \<noteq> [] \<and> prefix w (c # s)) ws_runes = (if blank_byte c then Some [c] else None)"
    "find (\<lambda>w. w \<noteq> [] \<and> prefix w (c # s)) (map rev ws_runes) = (if blank_byte c then Some [c] else None)"
proof -
  have nb: "c \<notin> set (concat ws_runes)" "c \<notin> set (concat (map rev ws_runes))" if "\<not> blank_byte c"
    using that assms by auto
  have sp: "find (\<lambda>w. w \<noteq> [] \<and> prefix w (CHR '' '' # s)) ws_runes = Some '' ''"
    "find (\<lambda>w. w \<noteq> [] \<and> prefix w (CHR 0x09 # s)) ws_runes = Some [CHR 0x09]"
    "find (\<lambda>w. w \<noteq> [] \<and> prefix w (CHR '' '' # s)) (map rev ws_runes) = Some '' ''"
    "find (\<lambda>w. w \<noteq> [] \<and> prefix w (CHR 0x09 # s)) (map rev ws_runes) = Some [CHR 0x09]"
    by (simp_all add: ws_runes_def)
  show "find (\<lambda>w. w \<noteq> [] \<and> prefix w (c # s)) ws_runes = (if blank_byte c then Some [c] else None)"
    using sp nb find_ws_none [of c ws_runes s] by (auto simp: blank_byte_def)
  show "find (\<lambda>w. w \<noteq> [] \<and> prefix w (c # s)) (map rev ws_runes) = (if blank_byte c then Some [c] else None)"
    using sp nb find_ws_none [of c "map rev ws_runes" s] by (auto simp: blank_byte_def)
qed

lemma strip_blank:
  assumes "plain_blanks s"
  shows "strip_prefixes ws_runes s = dropWhile blank_byte s" "strip_prefixes (map rev ws_runes) s = dropWhile blank_byte s"
  using assms
proof (induction s)
  case Nil
  {
    case 1 show ?case by (simp add: strip_prefixes_id starts_with_any_def ws_runes_def)
  next
    case 2 show ?case by (simp add: strip_prefixes_id starts_with_any_def ws_runes_def)
  }
next
  case (Cons c s)
  {
    case 1
    then have "plain_blanks s" by (simp add: plain_blanks_def)
    with Cons.IH(1) find_ws_blank(1) [of c s] 1 show ?case
      by (simp add: strip_prefixes.simps [of _ "c # s"] plain_blanks_def)
  next
    case 2
    then have "plain_blanks s" by (simp add: plain_blanks_def)
    with Cons.IH(2) find_ws_blank(2) [of c s] 2 show ?case
      by (simp add: strip_prefixes.simps [of _ "c # s"] plain_blanks_def)
  }
qed

lemma plain_blanks_dropWhile: "plain_blanks s \<Longrightarrow> plain_blanks (rev (dropWhile P s))"
  by (auto simp: plain_blanks_def dest: set_dropWhileD)

lemma trimSpace_TrimSpace: "plain_blanks s \<Longrightarrow> trimSpace s = TrimSpace s"
  by (simp add: trimSpace_eq TrimSpace_def TrimLeft_def TrimRight_def strip_blank plain_blanks_dropWhile)

lemma Split_chars: "p \<in> set (Split s sep) \<Longrightarrow> c \<in> set p \<Longrightarrow> c \<in> set s"
proof (induction s arbitrary: p)
  case (Cons a s)
  obtain q qs where "Split s sep = q # qs" by (cases "Split s sep") simp_all
  with Cons.prems Cons.IH [of q] Cons.IH [of p] show ?case by (auto split: if_splits)
qed simp

lemma splitComma_splitTrim:
  assumes "plain_blanks s"
  shows "splitComma s = splitTrim s"
proof -
  have "trimSpace p = TrimSpace p" if "p \<in> set (Split s (CHR '',''))" for p
  proof (rule trimSpace_TrimSpace)
    show "plain_blanks p" using assms Split_chars [OF that] unfolding plain_blanks_def by blast
  qed
  then show ?thesis by (simp add: splitComma_def splitTrim_def splitBy_eq cong: map_cong)
qed

text \<open>
  The manager reads a list of channels the way an agent does: its hand-written index loops for splitting and
  trimming give, on every text without white space other than blanks and tabs, the list that the agent's loader takes from the library functions;
  in general, they split at the same commas and trim only blanks and tabs.
\<close>

theorem splitComma_agrees_with_agent:
  "splitComma s = filter (\<lambda>p. p \<noteq> []) (map (\<lambda>p. rev (dropWhile blank_byte (rev (dropWhile blank_byte p)))) (Split s (CHR '','')))
   \<and> (plain_blanks s \<longrightarrow> splitComma s = splitTrim s)"
proof -
  have "splitComma s = filter (\<lambda>p. p \<noteq> []) (map trimSpace (Split s (CHR '','')))"
    by (cases s) (simp_all add: splitComma_def splitBy_eq trimSpace_eq)
  then show ?thesis using splitComma_splitTrim [of s] by (simp add: trimSpace_eq cong: map_cong)
qed

theorem splitComma_agrees_with_agent_witness: "splitComma ''#a,#b'' = [''#a'', ''#b'']"
proof -
  have "plain_blanks ''#a,#b''" by code_simp
  moreover have "plain_item ''#a''" "plain_item ''#b''" by code_simp+
  then have "splitTrim ''#a,#b'' = [''#a'', ''#b'']" using splitTrim_Join [of "[''#a'', ''#b'']"] by simp
  ultimately show ?thesis using conjunct2 [OF splitComma_agrees_with_agent [of "''#a,#b''"]] by (simp only: simp_thms)
qed

end
