(* ===== verification/Manager.thy ===== *)
theory Manager
  imports Registry Hub ManagerConfig Agent
begin

text \<open>
  The manager of \<^verbatim>\<open>internal/manager/manager.go\<close>: it listens to the channels, keeps the stores of an observer, starts
  and stops agents through the spawners, polls their dashboards and streams events to the browsers.  JSON encoding is the parameter \<open>js\<close>,
  the operating system of the spawners the parameter \<open>host\<close>, the answers of the dashboards the parameter \<open>fetch\<close>.  None as a result
  is a panic, which only a broadcast could raise.
\<close>

section \<open>State\<close>

record Manager =
  mnCfg :: ManagerConfig
  mnRegistry :: AgentRegistry
  mnCostStore :: CostStore
  mnHub :: Hub
  mnState :: StateStore
  mnDiscovery :: DiscoveryStore
  mnCtxStore :: ContextStore
  mnTaskBoard :: TaskBoard
  mnInspector :: DebugInspector

datatype ws_payload = PAgent "AgentRecord option" | PFields "string gomap" | PNil

record json_codec =
  jsPayload :: "ws_payload \<Rightarrow> string option"
  jsMessage :: "string \<Rightarrow> string \<Rightarrow> string option"

text \<open>What both constructors, \<^verbatim>\<open>New\<close> and \<^verbatim>\<open>NewWithClient\<close>, build.\<close>

definition NewWithClient :: "ManagerConfig \<Rightarrow> Manager" where
  "NewWithClient cfg =
     \<lparr>mnCfg = cfg, mnRegistry = NewAgentRegistry, mnCostStore = NewCostStore, mnHub = NewHub, mnState = NewStateStore,
      mnDiscovery = NewDiscoveryStore 300000000000, mnCtxStore = NewContextStore, mnTaskBoard = NewTaskBoard 0,
      mnInspector = NewDebugInspector 5000\<rparr>"

definition NewManager :: "(string \<Rightarrow> string \<Rightarrow> bool) \<Rightarrow> gotime \<Rightarrow> ManagerConfig \<Rightarrow> client_error + Manager \<times> 'h ircClient" where
  "NewManager valid now cfg =
     (case NewClient valid now (mgIRC cfg) of
        Inl e \<Rightarrow> Inl e
      | Inr client \<Rightarrow> Inr (NewWithClient cfg, client))"

definition spawnerFor :: "'e host \<Rightarrow> string \<Rightarrow> 'e spawner option" where
  "spawnerFor host =
     map_of [(''local'', NewLocalSpawner host), (''ssh'', NewSSHSpawner host), (''docker'', NewDockerSpawner host)]"

section \<open>Events to the browsers\<close>

definition broadcastEvent :: "json_codec \<Rightarrow> string \<Rightarrow> ws_payload \<Rightarrow> Manager \<Rightarrow> Manager option" where
  "broadcastEvent js eventType payload m =
     (case jsPayload js payload of
        None \<Rightarrow> Some m
      | Some data \<Rightarrow> map_option (\<lambda>h. m\<lparr>mnHub := h\<rparr>) (Broadcast (jsMessage js eventType data) (mnHub m)))"

section \<open>Messages\<close>

text \<open>
  \<^verbatim>\<open>fmt.Sscanf(l, "%d", &load)\<close>: white space other than a newline is skipped, then a sign and the digits that follow are read;
  the rest is ignored, and on an error the variable keeps its 0.
\<close>

definition leading_digits :: "string \<Rightarrow> string" where
  "leading_digits s = takeWhile (\<lambda>c. digit_of c \<noteq> None) s"

definition scan_d :: "string \<Rightarrow> goint" where
  "scan_d l =
     (let t = strip_prefixes (filter (\<lambda>w. w \<noteq> [CHR 0x0A]) ws_runes) l;
          sgn = (if t \<noteq> [] \<and> (hd t = CHR ''-'' \<or> hd t = CHR ''+'') then [hd t] else []);
          ds = leading_digits (drop (length sgn) t)
      in case Atoi (sgn @ ds) of Some v \<Rightarrow> v | None \<Rightarrow> 0)"

definition scanField :: "Message \<Rightarrow> string \<Rightarrow> goint" where
  "scanField msg key = (let l = Get msg key in if l \<noteq> [] then scan_d l else 0)"

definition mgr_capability :: "Message \<Rightarrow> AgentCapability" where
  "mgr_capability msg =
     \<lparr>acNick = msgNick msg, acExpertise = splitTrim (Get msg ''expertise''), acChannels = splitTrim (Get msg ''channels''),
      acCurrentTask = Get msg ''current-task'', acUpdatedAt = msgTimestamp msg, acExpiresAt = 0, acRole = [], acLoad = 0,
      acMaxLoad = 0, acActiveTasks = []\<rparr>"

definition mgr_handleCapabilities :: "json_codec \<Rightarrow> gotime \<Rightarrow> Message \<Rightarrow> Manager \<Rightarrow> Manager option" where
  "mgr_handleCapabilities js now msg m =
     (let cap = mgr_capability msg;
          m = m\<lparr>mnDiscovery := Update now cap (mnDiscovery m), mnRegistry := UpdateFromDiscovery now cap (mnRegistry m)\<rparr>
      in broadcastEvent js ''agent_update'' (PAgent (GetRecord (mnRegistry m) (msgNick msg))) m)"

text \<open>The first switch of \<^verbatim>\<open>dispatchToStores\<close>.\<close>

definition dispatchFirst ::
  "json_codec \<Rightarrow> (string \<Rightarrow> float64 option) \<Rightarrow> gotime \<Rightarrow> Message \<Rightarrow> Manager \<Rightarrow> Manager option" where
  "dispatchFirst js other now msg m =
     (if msgAction msg \<in> set stateActions then
        let s = UpdateTask now msg (mnState m); taskName = Get msg ''task''
        in Some (m\<lparr>mnState := (if taskName \<noteq> []
                                then UpdateAgentStatus now (msgNick msg) (msgChannel msg) taskName s else s)\<rparr>)
      else
        case msgAction msg of
          ActionContext \<Rightarrow> Some (m\<lparr>mnCtxStore := fst (Store now msg (mnCtxStore m))\<rparr>)
        | ActionSharingContext \<Rightarrow> Some (m\<lparr>mnCtxStore := StorePayload msg (mnCtxStore m)\<rparr>)
        | ActionRequestContext \<Rightarrow> Some (m\<lparr>mnCtxStore := TrackRequest msg (mnCtxStore m)\<rparr>)
        | ActionCapabilities \<Rightarrow> mgr_handleCapabilities js now msg m
        | ActionCostReport \<Rightarrow>
            broadcastEvent js ''cost''
              (PFields [(''agent'', msgNick msg), (''task'', Get msg ''task''), (''cost'', Get msg ''cost-usd'')])
              (m\<lparr>mnCostStore := RecordCost other now msg (mnCostStore m)\<rparr>)
        | _ \<Rightarrow> Some m)"

text \<open>The second switch, over the task board.\<close>

definition dispatchBoard :: "json_codec \<Rightarrow> gotime \<Rightarrow> Message \<Rightarrow> Manager \<Rightarrow> Manager option" where
  "dispatchBoard js now msg m =
     (let task = Get msg ''task''; tb = mnTaskBoard m
      in case msgAction msg of
           ActionOffer \<Rightarrow>
             broadcastEvent js ''task_update'' PNil
               (m\<lparr>mnTaskBoard := RecordOffer now task (msgChannel msg) (msgNick msg) (Get msg ''priority'') (Get msg ''scope'') tb\<rparr>)
         | ActionClaim \<Rightarrow> Some (m\<lparr>mnTaskBoard := snd (RecordClaim now task (msgNick msg) (scanField msg ''load'') tb)\<rparr>)
         | ActionAssign \<Rightarrow> Some (m\<lparr>mnTaskBoard := RecordAssign now task (Get msg ''to'') (msgNick msg) (msgChannel msg) tb\<rparr>)
         | ActionDecline \<Rightarrow> Some (m\<lparr>mnTaskBoard := RecordDecline task tb\<rparr>)
         | ActionYield \<Rightarrow> Some (m\<lparr>mnTaskBoard := RecordYield task tb\<rparr>)
         | _ \<Rightarrow> Some m)"

definition dispatchToStores ::
  "json_codec \<Rightarrow> (string \<Rightarrow> float64 option) \<Rightarrow> gotime \<Rightarrow> Message \<Rightarrow> Manager \<Rightarrow> Manager option" where
  "dispatchToStores js other now msg m = Option.bind (dispatchFirst js other now msg m) (dispatchBoard js now msg)"

definition handleIRCMessage ::
  "json_codec \<Rightarrow> (string \<Rightarrow> float64 option) \<Rightarrow> gotime \<Rightarrow> MessageEvent \<Rightarrow> Manager \<Rightarrow> Manager option" where
  "handleIRCMessage js other now ev m =
     (if \<not> IsProtocolMessage (meMessage ev) then Some m
      else
        case Parse (meMessage ev) of
          Inl err \<Rightarrow> Some m
        | Inr msg \<Rightarrow>
            let msg = enrich now ev msg;
                m = m\<lparr>mnInspector := RecordMessage (logEntry ''in'' msg (String_Message msg)) (mnInspector m)\<rparr>
            in Option.bind (dispatchToStores js other now msg m)
                 (broadcastEvent js ''message''
                    (PFields [(''nick'', msgNick msg), (''channel'', msgChannel msg),
                              (''action'', action_string (msgAction msg)), (''raw'', String_Message msg)])))"

section \<open>Starting and stopping agents\<close>

datatype 'e mgr_error =
  UnknownSpawner string | PreSpawnFailed "'e spawn_error" | SpawnFailed "'e spawn_error"
| AgentNotFound string | NotSpawned string | StopFailed "'e spawn_error"

definition spawnedRecord :: "string \<Rightarrow> SpawnConfig \<Rightarrow> AgentInstance \<Rightarrow> AgentRecord" where
  "spawnedRecord spawnerType cfg inst =
     zeroAgentRecord\<lparr>arNick := scNick cfg, arHost := aiHost inst, arStatus := instance_status_string (aiStatus inst),
       arSpawnerType := spawnerType, arDashboardURL := aiDashboardURL inst, arSource := ''spawned'',
       arInstance := Some inst, arChannels := scChannels cfg, arCapabilities := scCapabilities cfg\<rparr>"

definition defaultBinary :: "string \<Rightarrow> string \<Rightarrow> SpawnConfig \<Rightarrow> SpawnConfig" where
  "defaultBinary spawnerType agentBinary cfg =
     (if spawnerType = ''local'' \<and> scBinaryPath cfg = [] then cfg\<lparr>scBinaryPath := agentBinary\<rparr> else cfg)"

text \<open>The clock is read when the process starts, when its check begins and when it is registered.\<close>

definition SpawnAgent ::
  "'e host \<Rightarrow> json_codec \<Rightarrow> gotime \<times> gotime \<times> gotime \<Rightarrow> string \<Rightarrow> SpawnConfig \<Rightarrow> Manager
     \<Rightarrow> (('e mgr_error + AgentRecord) \<times> Manager) option" where
  "SpawnAgent host js clk spawnerType cfg m =
     (case clk of (t1, t2, t3) \<Rightarrow>
        case spawnerFor host spawnerType of
          None \<Rightarrow> Some (Inl (UnknownSpawner spawnerType), m)
        | Some sp \<Rightarrow>
            let cfg = defaultBinary spawnerType (mgAgentBinary (mnCfg m)) cfg
            in case spPreSpawn sp cfg of
                 Some e \<Rightarrow> Some (Inl (PreSpawnFailed e), m)
               | None \<Rightarrow>
                   (case spSpawn sp t1 cfg of
                      Inl e \<Rightarrow> Some (Inl (SpawnFailed e), m)
                    | Inr (inst, acts) \<Rightarrow>
                        (case spPostSpawn sp t2 inst of
                           (_, inst, _) \<Rightarrow>
                             let (rec, reg) = Register t3 (spawnedRecord spawnerType cfg inst) (mnRegistry m)
                             in map_option (Pair (Inr rec))
                                  (broadcastEvent js ''agent_update'' (PAgent (Some rec)) (m\<lparr>mnRegistry := reg\<rparr>)))))"

text \<open>
  The instance of a record is a pointer that the copy from \<^verbatim>\<open>Get\<close> shares with the registry, so what the spawner writes into it
  is seen there.
\<close>

definition setInstance :: "string \<Rightarrow> AgentInstance \<Rightarrow> Manager \<Rightarrow> Manager" where
  "setInstance nick inst m = m\<lparr>mnRegistry := mmodify nick (\<lambda>rec. rec\<lparr>arInstance := Some inst\<rparr>) (mnRegistry m)\<rparr>"

definition setStatus :: "string \<Rightarrow> string \<Rightarrow> Manager \<Rightarrow> Manager" where
  "setStatus nick status m = m\<lparr>mnRegistry := UpdateStatus nick status (mnRegistry m)\<rparr>"

definition StopAgent ::
  "'e host \<Rightarrow> json_codec \<Rightarrow> gotime \<times> gotime \<times> gotime \<Rightarrow> string \<Rightarrow> Manager \<Rightarrow> ('e mgr_error option \<times> Manager) option" where
  "StopAgent host js clk nick m =
     (case clk of (t1, t2, t3) \<Rightarrow>
        case GetRecord (mnRegistry m) nick of
          None \<Rightarrow> Some (Some (AgentNotFound nick), m)
        | Some rec \<Rightarrow>
            (case arInstance rec of
               None \<Rightarrow> Some (Some (NotSpawned nick), m)
             | Some inst \<Rightarrow>
                 (case spawnerFor host (arSpawnerType rec) of
                    None \<Rightarrow> Some (Some (UnknownSpawner (arSpawnerType rec)), m)
                  | Some sp \<Rightarrow>
                      let m = setStatus nick ''stopping'' m
                      in case spPreStop sp t1 inst of (_, inst, _) \<Rightarrow>
                           case spStop sp t2 inst of (err, inst, _) \<Rightarrow>
                             case err of
                               Some e \<Rightarrow> Some (Some (StopFailed e), setInstance nick inst m)
                             | None \<Rightarrow>
                                 (case spPostStop sp t3 inst of (_, inst, _) \<Rightarrow>
                                    let m = setStatus nick ''stopped'' (setInstance nick inst m)
                                    in map_option (Pair None)
                                         (broadcastEvent js ''agent_update'' (PAgent (GetRecord (mnRegistry m) nick)) m)))))"

section \<open>Polling\<close>

text \<open>A page: None when the request failed, \<open>Some None\<close> when its body did not decode.\<close>

record fetch =
  ftHealth :: "string \<Rightarrow> HealthStatus option option"
  ftMetrics :: "string \<Rightarrow> MetricsSnapshot option option"

definition pollSingleAgent :: "fetch \<Rightarrow> gotime \<Rightarrow> string \<Rightarrow> string \<Rightarrow> Manager \<Rightarrow> Manager" where
  "pollSingleAgent ft now nick dashboardURL m =
     (case ftHealth ft (dashboardURL @ ''/health'') of
        None \<Rightarrow> m
      | Some health \<Rightarrow>
          let m = (case health of None \<Rightarrow> m | Some h \<Rightarrow> m\<lparr>mnRegistry := UpdateHealth now nick h (mnRegistry m)\<rparr>)
          in case ftMetrics ft (dashboardURL @ ''/metrics'') of
               Some (Some metrics) \<Rightarrow> m\<lparr>mnRegistry := UpdateMetrics nick metrics (mnRegistry m)\<rparr>
             | _ \<Rightarrow> m)"

text \<open>The polls run in parallel; each touches its own record, so their order does not matter.\<close>

definition pollAgentDashboards :: "fetch \<Rightarrow> gotime \<Rightarrow> Manager \<Rightarrow> Manager" where
  "pollAgentDashboards ft now m =
     fold (\<lambda>rec m. if arDashboardURL rec = [] then m else pollSingleAgent ft now (arNick rec) (arDashboardURL rec) m)
       (ListRecords (mnRegistry m)) m"

section \<open>What a message changes\<close>

text \<open>A broadcast changes the hub alone, and goes through when the registered channels are open.\<close>

lemma broadcastEvent_open:
  assumes "hub_open (mnHub m)"
  obtains h where "broadcastEvent js t p m = Some (m\<lparr>mnHub := h\<rparr>)" "hub_open h"
proof (cases "jsPayload js p")
  case None
  have "broadcastEvent js t p m = Some (m\<lparr>mnHub := mnHub m\<rparr>)" by (simp add: broadcastEvent_def None)
  then show ?thesis using assms that by blast
next
  case (Some data)
  from Broadcast_open [OF assms, of "jsMessage js t data"] obtain h where
    "Broadcast (jsMessage js t data) (mnHub m) = Some h" "hub_open h" by auto
  then show ?thesis using that by (simp add: broadcastEvent_def Some)
qed

text \<open>The observer's stores after a message, as functions of each store alone.\<close>

definition obs_context :: "gotime \<Rightarrow> Message \<Rightarrow> ContextStore \<Rightarrow> ContextStore" where
  "obs_context now msg ctx =
     (case msgAction msg of
        ActionContext \<Rightarrow> fst (Store now msg ctx)
      | ActionSharingContext \<Rightarrow> StorePayload msg ctx
      | ActionRequestContext \<Rightarrow> TrackRequest msg ctx
      | _ \<Rightarrow> ctx)"

definition obs_first :: "(string \<Rightarrow> float64 option) \<Rightarrow> gotime \<Rightarrow> Message \<Rightarrow> Manager \<Rightarrow> Manager" where
  "obs_first other now msg m =
     m\<lparr>mnState := updateTaskState now msg (mnState m), mnCtxStore := obs_context now msg (mnCtxStore m),
       mnDiscovery := (if msgAction msg = ActionCapabilities then Update now (mgr_capability msg) (mnDiscovery m)
                       else mnDiscovery m),
       mnRegistry := (if msgAction msg = ActionCapabilities then UpdateFromDiscovery now (mgr_capability msg) (mnRegistry m)
                      else mnRegistry m),
       mnCostStore := (if msgAction msg = ActionCostReport then RecordCost other now msg (mnCostStore m)
                       else mnCostStore m)\<rparr>"

definition obs_board :: "gotime \<Rightarrow> Message \<Rightarrow> TaskBoard \<Rightarrow> TaskBoard" where
  "obs_board now msg tb =
     (let task = Get msg ''task''
      in case msgAction msg of
           ActionOffer \<Rightarrow> RecordOffer now task (msgChannel msg) (msgNick msg) (Get msg ''priority'') (Get msg ''scope'') tb
         | ActionClaim \<Rightarrow> snd (RecordClaim now task (msgNick msg) (scanField msg ''load'') tb)
         | ActionAssign \<Rightarrow> RecordAssign now task (Get msg ''to'') (msgNick msg) (msgChannel msg) tb
         | ActionDecline \<Rightarrow> RecordDecline task tb
         | ActionYield \<Rightarrow> RecordYield task tb
         | _ \<Rightarrow> tb)"

lemma dispatchFirst_state:
  "msgAction msg \<in> set stateActions \<Longrightarrow> dispatchFirst js other now msg m = Some (obs_first other now msg m)"
  by (auto simp: dispatchFirst_def obs_first_def obs_context_def updateTaskState_def Let_def stateActions_def)

lemma dispatchFirst_result:
  assumes "hub_open (mnHub m)"
  shows "\<exists>h. dispatchFirst js other now msg m = Some ((obs_first other now msg m)\<lparr>mnHub := h\<rparr>) \<and> hub_open h"
proof -
  consider "msgAction msg \<in> set stateActions" | "msgAction msg = ActionCapabilities" | "msgAction msg = ActionCostReport"
    | "msgAction msg \<notin> set stateActions" "msgAction msg \<noteq> ActionCapabilities" "msgAction msg \<noteq> ActionCostReport"
    by blast
  then show ?thesis
  proof cases
    case 1
    have "obs_first other now msg m = (obs_first other now msg m)\<lparr>mnHub := mnHub m\<rparr>" by (simp add: obs_first_def)
    with dispatchFirst_state [OF 1, of js other now m] assms show ?thesis by metis
  next
    case 2
    let ?m = "m\<lparr>mnDiscovery := Update now (mgr_capability msg) (mnDiscovery m),
                mnRegistry := UpdateFromDiscovery now (mgr_capability msg) (mnRegistry m)\<rparr>"
    from assms have "hub_open (mnHub ?m)" by simp
    then obtain h where "broadcastEvent js ''agent_update'' (PAgent (GetRecord (mnRegistry ?m) (msgNick msg))) ?m
        = Some (?m\<lparr>mnHub := h\<rparr>)" "hub_open h" by (rule broadcastEvent_open)
    with 2 show ?thesis
      by (auto simp: dispatchFirst_def mgr_handleCapabilities_def obs_first_def obs_context_def updateTaskState_def
          stateActions_def Let_def)
  next
    case 3
    let ?m = "m\<lparr>mnCostStore := RecordCost other now msg (mnCostStore m)\<rparr>"
    from assms have "hub_open (mnHub ?m)" by simp
    then obtain h where "broadcastEvent js ''cost''
        (PFields [(''agent'', msgNick msg), (''task'', Get msg ''task''), (''cost'', Get msg ''cost-usd'')]) ?m
        = Some (?m\<lparr>mnHub := h\<rparr>)" "hub_open h" by (rule broadcastEvent_open)
    with 3 show ?thesis
      by (auto simp: dispatchFirst_def obs_first_def obs_context_def updateTaskState_def stateActions_def)
  next
    case 4
    then have "dispatchFirst js other now msg m = Some ((obs_first other now msg m)\<lparr>mnHub := mnHub m\<rparr>)"
      by (simp add: dispatchFirst_def obs_first_def obs_context_def updateTaskState_def split: Action.split)
    with assms show ?thesis by blast
  qed
qed

lemma dispatchBoard_result:
  assumes "hub_open (mnHub m)"
  shows "\<exists>h. dispatchBoard js now msg m = Some (m\<lparr>mnTaskBoard := obs_board now msg (mnTaskBoard m), mnHub := h\<rparr>) \<and> hub_open h"
proof (cases "msgAction msg = ActionOffer")
  case True
  let ?m = "m\<lparr>mnTaskBoard := obs_board now msg (mnTaskBoard m)\<rparr>"
  from assms have "hub_open (mnHub ?m)" by simp
  then obtain h where "broadcastEvent js ''task_update'' PNil ?m = Some (?m\<lparr>mnHub := h\<rparr>)" "hub_open h"
    by (rule broadcastEvent_open)
  with True show ?thesis by (auto simp: dispatchBoard_def obs_board_def Let_def)
next
  case False
  then have "dispatchBoard js now msg m = Some (m\<lparr>mnTaskBoard := obs_board now msg (mnTaskBoard m), mnHub := mnHub m\<rparr>)"
    by (simp add: dispatchBoard_def obs_board_def Let_def split: Action.split)
  with assms show ?thesis by blast
qed

text \<open>The whole handler: nothing for a text that is no message or does not parse, the observer's update otherwise.\<close>

definition observe :: "(string \<Rightarrow> float64 option) \<Rightarrow> gotime \<Rightarrow> Message \<Rightarrow> Manager \<Rightarrow> Manager" where
  "observe other now msg m =
     (obs_first other now msg m)
       \<lparr>mnInspector := RecordMessage (logEntry ''in'' msg (String_Message msg)) (mnInspector m),
        mnTaskBoard := obs_board now msg (mnTaskBoard m)\<rparr>"

lemma handleIRCMessage_result:
  assumes "hub_open (mnHub m)" "IsProtocolMessage (meMessage ev)" "Parse (meMessage ev) = Inr msg"
  shows "\<exists>h. handleIRCMessage js other now ev m = Some ((observe other now (enrich now ev msg) m)\<lparr>mnHub := h\<rparr>) \<and> hub_open h"
proof -
  let ?msg = "enrich now ev msg"
  let ?m0 = "m\<lparr>mnInspector := RecordMessage (logEntry ''in'' ?msg (String_Message ?msg)) (mnInspector m)\<rparr>"
  from assms(1) have "hub_open (mnHub ?m0)" by simp
  from dispatchFirst_result [OF this] obtain h1 where
    1: "dispatchFirst js other now ?msg ?m0 = Some ((obs_first other now ?msg ?m0)\<lparr>mnHub := h1\<rparr>)" "hub_open h1" by blast
  let ?m1 = "(obs_first other now ?msg ?m0)\<lparr>mnHub := h1\<rparr>"
  from 1(2) have "hub_open (mnHub ?m1)" by simp
  from dispatchBoard_result [OF this] obtain h2 where
    2: "dispatchBoard js now ?msg ?m1 = Some (?m1\<lparr>mnTaskBoard := obs_board now ?msg (mnTaskBoard ?m1), mnHub := h2\<rparr>)" "hub_open h2"
    by blast
  let ?m2 = "?m1\<lparr>mnTaskBoard := obs_board now ?msg (mnTaskBoard ?m1), mnHub := h2\<rparr>"
  from 2(2) have "hub_open (mnHub ?m2)" by simp
  then obtain h3 where
    3: "broadcastEvent js ''message'' (PFields [(''nick'', msgNick ?msg), (''channel'', msgChannel ?msg),
          (''action'', action_string (msgAction ?msg)), (''raw'', String_Message ?msg)]) ?m2 = Some (?m2\<lparr>mnHub := h3\<rparr>)" "hub_open h3"
    by (rule broadcastEvent_open)
  have "?m2\<lparr>mnHub := h3\<rparr> = (observe other now ?msg m)\<lparr>mnHub := h3\<rparr>"
    by (simp add: observe_def obs_first_def)
  moreover have "dispatchToStores js other now ?msg ?m0 = Some ?m2"
    by (simp only: dispatchToStores_def 1(1) 2(1) Option.bind_lunit)
  ultimately have "handleIRCMessage js other now ev m = Some ((observe other now ?msg m)\<lparr>mnHub := h3\<rparr>)"
    using 3(1) assms(2,3) by (simp only: handleIRCMessage_def Let_def sum.case Option.bind_lunit simp_thms if_False)
  with 3(2) show ?thesis by blast
qed

text \<open>A number that the agents read is read alike.\<close>

lemma parse_uint_digits: "parse_uint_loop n cs = (k, None) \<Longrightarrow> c \<in> set cs \<Longrightarrow> digit_of c \<noteq> None"
  by (induction n cs rule: parse_uint_loop.induct) (auto split: option.splits if_splits)

lemma parse_uint_range: "parse_uint_loop n cs = (k, Some ErrRange) \<Longrightarrow> k = 18446744073709551615"
  by (induction n cs rule: parse_uint_loop.induct) (auto split: option.splits if_splits)

lemma ParseUint_range: "ParseUint s = (k, Some ErrRange) \<Longrightarrow> k = 18446744073709551615"
  by (auto simp: ParseUint_def dest: parse_uint_range split: if_splits)

lemma Atoi_shape:
  assumes "Atoi l = Some v"
  obtains c cs where "l = c # cs" "c = CHR ''-'' \<or> c = CHR ''+'' \<or> digit_of c \<noteq> None" "\<forall>d \<in> set cs. digit_of d \<noteq> None"
proof -
  from assms obtain v' where p: "ParseInt l = (v', None)" by (auto simp: Atoi_def split: prod.splits option.splits)
  then obtain c cs where l: "l = c # cs" by (cases l) (auto simp: ParseInt_def)
  let ?body = "if c = CHR ''-'' \<or> c = CHR ''+'' then cs else c # cs"
  from p l obtain un where un: "ParseUint ?body = (un, None)"
  proof (cases "ParseUint ?body")
    case (Pair un err)
    have "err \<noteq> Some ErrRange"
    proof
      assume "err = Some ErrRange"
      with Pair ParseUint_range have "un = 18446744073709551615" by simp
      with p l Pair \<open>err = Some ErrRange\<close> show False by (auto simp: ParseInt_def Let_def split: if_splits)
    qed
    moreover have "err \<noteq> Some ErrSyntax"
      using p l Pair by (auto simp: ParseInt_def Let_def split: if_splits)
    ultimately have "err = None" by (metis num_error.exhaust option.exhaust)
    with Pair that show ?thesis by simp
  qed
  then have "parse_uint_loop 0 ?body = (un, None)" by (auto simp only: ParseUint_def split: if_splits)
  from parse_uint_digits [OF this] have "\<forall>d \<in> set ?body. digit_of d \<noteq> None" by blast
  with l that show ?thesis by (auto split: if_splits)
qed

lemma not_ws_head:
  assumes "c = CHR ''-'' \<or> c = CHR ''+'' \<or> digit_of c \<noteq> None"
  shows "c \<notin> set ws_lead"
  using assms by (auto simp: digit_of_def ws_lead_def Let_def split: if_splits)

lemma scan_d_Atoi:
  assumes "Atoi l = Some v"
  shows "scan_d l = v"
proof -
  from assms obtain c cs where l: "l = c # cs" and c: "c = CHR ''-'' \<or> c = CHR ''+'' \<or> digit_of c \<noteq> None"
    and cs: "\<forall>d \<in> set cs. digit_of d \<noteq> None" by (rule Atoi_shape)
  have "no_ws_left l" unfolding l by (rule no_ws_left_Cons [OF not_ws_head [OF c]])
  then have "\<not> starts_with_any (filter (\<lambda>w. w \<noteq> [CHR 0x0A]) ws_runes) l"
    by (auto simp: no_ws_left_def starts_with_any_def list_ex_iff)
  then have t: "strip_prefixes (filter (\<lambda>w. w \<noteq> [CHR 0x0A]) ws_runes) l = l" by (rule strip_prefixes_id)
  have tw: "leading_digits cs = cs" using cs by (simp add: leading_digits_def takeWhile_eq_all_conv)
  show ?thesis
  proof (cases "c = CHR ''-'' \<or> c = CHR ''+''")
    case True
    then have "l \<noteq> [] \<and> (hd l = CHR ''-'' \<or> hd l = CHR ''+'')" "[hd l] @ cs = l" "drop (length [hd l]) l = cs"
      by (auto simp: l)
    then show ?thesis unfolding scan_d_def t Let_def using assms tw by (simp only: if_True) simp
  next
    case False
    with c have "leading_digits l = l" using tw by (auto simp: l leading_digits_def)
    moreover have "\<not> (l \<noteq> [] \<and> (hd l = CHR ''-'' \<or> hd l = CHR ''+''))" using False by (simp add: l)
    ultimately show ?thesis unfolding scan_d_def t Let_def using assms by (simp only: if_False list.size drop_0 append_Nil) simp
  qed
qed

lemma scanField_intField: "Get msg k = [] \<or> Atoi (Get msg k) \<noteq> None \<Longrightarrow> scanField msg k = intField msg k"
  by (auto simp: scanField_def intField_def scan_d_Atoi Let_def split: option.splits)

section \<open>Manager and agents agree\<close>

lemma entries_obs_context: "ctsEntries (obs_context now msg ctx) = ctsEntries (fst (updateContext now msg ctx))"
  by (simp add: obs_context_def updateContext_def split: Action.split)


definition plain_json :: json_codec where
  "plain_json = \<lparr>jsPayload = (\<lambda>_. Some ''{}''), jsMessage = (\<lambda>t d. Some (t @ d))\<rparr>"

definition demo_manager :: Manager where
  "demo_manager = NewWithClient defaultManagerConfig"

lemma hub_open_New [simp]: "hub_open (mnHub (NewWithClient cfg))"
  by (simp add: hub_open_def NewWithClient_def NewHub_def)


end
