(* ===== verification/Supervision.thy ===== *)
theory Supervision
  imports Manager
begin

text \<open>
  What the manager's calls to the spawners and its polls do to the registry: starting, stopping and polling agents, over the contract
  that every spawner keeps.
\<close>

section \<open>The life of an agent\<close>

lemma spawnerFor_contract:
  assumes "spawnerFor host ty = Some sp"
  shows "spawner_contract sp" "spType sp = ty"
  using assms local_spawner.spawner_contract_axioms [of host] ssh_spawner.spawner_contract_axioms [of host]
    docker_spawner.spawner_contract_axioms [of host]
  by (auto simp: spawnerFor_def NewLocalSpawner_def NewSSHSpawner_def NewDockerSpawner_def split: if_splits)

lemma defaultBinary_nick [simp]: "scNick (defaultBinary ty b cfg) = scNick cfg"
  by (simp add: defaultBinary_def)

lemma GetRecord_Register:
  "(rec, reg) = Register now r0 r \<Longrightarrow>
     GetRecord reg k = (if k = arNick r0 then Some rec else GetRecord r k)
     \<and> arNick rec = arNick r0 \<and> arStatus rec = arStatus r0 \<and> arInstance rec = arInstance r0
     \<and> arSpawnerType rec = arSpawnerType r0 \<and> arSource rec = arSource r0"
  by (auto simp: Register_def GetRecord_def Let_def)

text \<open>What a successful start leaves: the record of the agent and nothing else.\<close>

definition spawn_effect :: "string \<Rightarrow> SpawnConfig \<Rightarrow> Manager \<Rightarrow> AgentRecord \<Rightarrow> Manager \<Rightarrow> bool" where
  "spawn_effect ty cfg m rec m' \<longleftrightarrow> scNick cfg \<noteq> []
     \<and> (\<forall>k. GetRecord (mnRegistry m') k = (if k = scNick cfg then Some rec else GetRecord (mnRegistry m) k))
     \<and> arNick rec = scNick cfg \<and> arSource rec = ''spawned'' \<and> arSpawnerType rec = ty
     \<and> (\<exists>inst. arInstance rec = Some inst \<and> identity inst = (scNick cfg, defaultBinary ty (mgAgentBinary (mnCfg m)) cfg, ty)
          \<and> arStatus rec = instance_status_string (aiStatus inst))"

lemma SpawnAgent_result:
  assumes "hub_open (mnHub m)"
  shows "case SpawnAgent host js clk ty cfg m of
      None \<Rightarrow> False
    | Some (Inl e, m') \<Rightarrow> m' = m
    | Some (Inr rec, m') \<Rightarrow> spawn_effect ty cfg m rec m' \<and> hub_open (mnHub m')"
proof -
  obtain t1 t2 t3 where clk: "clk = (t1, t2, t3)" by (cases clk)
  show ?thesis
  proof (cases "spawnerFor host ty")
    case None
    then show ?thesis by (simp add: SpawnAgent_def clk)
  next
    case (Some sp)
    let ?cfg = "defaultBinary ty (mgAgentBinary (mnCfg m)) cfg"
    note contract = spawnerFor_contract [OF Some]
    show ?thesis
    proof (cases "spPreSpawn sp ?cfg")
      case None
      show ?thesis
      proof (cases "spSpawn sp t1 ?cfg")
        case (Inl e)
        then show ?thesis by (simp add: SpawnAgent_def clk Some None Let_def)
      next
        case (Inr ia)
        obtain inst acts where ia: "ia = (inst, acts)" by (cases ia)
        obtain err inst' acts' where post: "spPostSpawn sp t2 inst = (err, inst', acts')" by (cases "spPostSpawn sp t2 inst")
        obtain rec reg where reg: "(rec, reg) = Register t3 (spawnedRecord ty ?cfg inst') (mnRegistry m)"
          by (cases "Register t3 (spawnedRecord ty ?cfg inst') (mnRegistry m)") simp
        from assms have "hub_open (mnHub (m\<lparr>mnRegistry := reg\<rparr>))" by simp
        then obtain h where h: "broadcastEvent js ''agent_update'' (PAgent (Some rec)) (m\<lparr>mnRegistry := reg\<rparr>)
            = Some (m\<lparr>mnRegistry := reg, mnHub := h\<rparr>)" "hub_open h" by (rule broadcastEvent_open)
        have "identity inst' = (scNick cfg, ?cfg, ty)" "scNick cfg \<noteq> []"
          using spawner_contract.started [OF contract(1) None _ post] Inr ia contract(2) by auto
        then have "spawn_effect ty cfg m rec (m\<lparr>mnRegistry := reg, mnHub := h\<rparr>)"
          using GetRecord_Register [OF reg] by (auto simp: spawn_effect_def spawnedRecord_def zeroAgentRecord_def)
        then show ?thesis using h
          by (simp add: SpawnAgent_def clk Some None Inr ia post reg [symmetric] Let_def)
      qed
    next
      case (Some e)
      then show ?thesis by (simp add: SpawnAgent_def clk \<open>spawnerFor host ty = Some sp\<close> Let_def)
    qed
  qed
qed

text \<open>
  Starting an agent either fails and leaves the manager as it was, or registers exactly one record: under the
  configured nick, which is not empty, with the source \<^verbatim>\<open>spawned\<close>, an instance that carries the configuration asked for (with the manager's agent binary when
  a local agent has none), and the status of that instance; all other agents keep their records.
\<close>

theorem spawn_registers_agent:
  assumes "hub_open (mnHub m)"
  shows "case SpawnAgent host js clk ty cfg m of
      None \<Rightarrow> False
    | Some (Inl e, m') \<Rightarrow> m' = m
    | Some (Inr rec, m') \<Rightarrow> spawn_effect ty cfg m rec m' \<and> hub_open (mnHub m')"
  by (rule SpawnAgent_result [OF assms])

lemma local_demo_spawn:
  "Validate_spawn demo_spawn = (None :: string spawn_error option)"
  by (simp add: demo_spawn_def Validate_spawn_def)

theorem spawn_registers_agent_witness:
  "\<exists>rec m'. SpawnAgent stubborn plain_json (1, 2, 3) ''local'' demo_spawn demo_manager = Some (Inr rec, m')
     \<and> spawn_effect ''local'' demo_spawn demo_manager rec m'"
proof -
  have ok: "hub_open (mnHub demo_manager)" by (simp add: demo_manager_def)
  have bin: "defaultBinary ''local'' b demo_spawn = demo_spawn" for b by (simp add: defaultBinary_def demo_spawn_def)
  have "\<exists>rec m'. SpawnAgent stubborn plain_json (1, 2, 3) ''local'' demo_spawn demo_manager = Some (Inr rec, m')"
    using local_demo_spawn
    by (simp add: SpawnAgent_def bin spawnerFor_def NewLocalSpawner_def PreSpawn_local_def Spawn_local_def PostSpawn_local_def
        stubborn_def broadcastEvent_def plain_json_def Broadcast_def demo_manager_def NewWithClient_def NewHub_def
        Register_def Let_def) (simp add: demo_spawn_def)
  with spawn_registers_agent [OF ok, where host = stubborn and js = plain_json and clk = "(1, 2, 3)" and ty = "''local''" and cfg = demo_spawn] show ?thesis by auto
qed

text \<open>A stop that is not given up: no spawner fails it.\<close>

lemma spStop_succeeds:
  assumes "spawnerFor host ty = Some sp" "\<And>t. \<not> hoDone host t"
  shows "fst (spStop sp now inst) = None"
proof -
  have "fst (stop_loop host dl now inst) = None" for dl
  proof (induction "nat (dl - now)" arbitrary: now rule: less_induct)
    case less
    then show ?case by (simp add: stop_loop.simps [of host dl now] assms(2))
  qed
  then show ?thesis
    using assms(1) by (auto simp: spawnerFor_def NewLocalSpawner_def NewSSHSpawner_def NewDockerSpawner_def Stop_local_def
        Stop_ssh_def Stop_docker_def split: if_splits)
qed

lemma GetRecord_setters [simp]:
  "GetRecord (mnRegistry (setStatus n st m)) k =
     (if k = n then map_option (\<lambda>rec. rec\<lparr>arStatus := st\<rparr>) (GetRecord (mnRegistry m) n) else GetRecord (mnRegistry m) k)"
  "GetRecord (mnRegistry (setInstance n inst m)) k =
     (if k = n then map_option (\<lambda>rec. rec\<lparr>arInstance := Some inst\<rparr>) (GetRecord (mnRegistry m) n) else GetRecord (mnRegistry m) k)"
  by (simp_all add: GetRecord_def setStatus_def setInstance_def UpdateStatus_def map_of_mmodify)

lemma hub_setters [simp]: "mnHub (setStatus n st m) = mnHub m" "mnHub (setInstance n inst m) = mnHub m"
  by (simp_all add: setStatus_def setInstance_def)

text \<open>What a stop leaves: the record of the agent with its stopped instance and the given status, and the other records.\<close>

definition stop_effect :: "string \<Rightarrow> string \<Rightarrow> Manager \<Rightarrow> Manager \<Rightarrow> bool" where
  "stop_effect status nick m m' \<longleftrightarrow>
     (\<exists>rec inst inst'. GetRecord (mnRegistry m) nick = Some rec \<and> arInstance rec = Some inst
        \<and> identity inst' = identity inst \<and> aiStatus inst' = StatusStopped
        \<and> (\<forall>k. GetRecord (mnRegistry m') k =
              (if k = nick then Some (rec\<lparr>arStatus := status, arInstance := Some inst'\<rparr>) else GetRecord (mnRegistry m) k)))"

lemma StopAgent_result:
  assumes "hub_open (mnHub m)"
  shows "case StopAgent host js clk nick m of
      None \<Rightarrow> False
    | Some (None, m') \<Rightarrow> stop_effect ''stopped'' nick m m' \<and> hub_open (mnHub m')
    | Some (Some (StopFailed e), m') \<Rightarrow> stop_effect ''stopping'' nick m m'
    | Some (Some err, m') \<Rightarrow> m' = m"
proof -
  obtain t1 t2 t3 where clk: "clk = (t1, t2, t3)" by (cases clk)
  show ?thesis
  proof (cases "GetRecord (mnRegistry m) nick")
    case None
    then show ?thesis by (simp add: StopAgent_def clk)
  next
    case (Some rec)
    note rec = Some
    show ?thesis
    proof (cases "arInstance rec")
      case None
      then show ?thesis by (simp add: StopAgent_def clk rec)
    next
      case (Some inst)
      note inst = Some
      show ?thesis
      proof (cases "spawnerFor host (arSpawnerType rec)")
        case None
        then show ?thesis by (simp add: StopAgent_def clk rec inst)
      next
        case (Some sp)
        note contract = spawnerFor_contract(1) [OF Some]
        obtain e1 i1 a1 where 1: "spPreStop sp t1 inst = (e1, i1, a1)" by (cases "spPreStop sp t1 inst")
        obtain e2 i2 a2 where 2: "spStop sp t2 i1 = (e2, i2, a2)" by (cases "spStop sp t2 i1")
        obtain e3 i3 a3 where 3: "spPostStop sp t3 i2 = (e3, i3, a3)" by (cases "spPostStop sp t3 i2")
        have i2: "identity i2 = identity inst" "aiStatus i2 = StatusStopped" "i3 = i2"
          using spawner_contract.pre_stop [OF contract 1] spawner_contract.stop [OF contract 2]
            spawner_contract.post_stop [OF contract 3] by simp_all
        let ?m = "setInstance nick i2 (setStatus nick ''stopping'' m)"
        let ?m' = "setStatus nick ''stopped'' (setInstance nick i3 (setStatus nick ''stopping'' m))"
        show ?thesis
        proof (cases e2)
          case (Some e)
          have "stop_effect ''stopping'' nick m ?m"
            unfolding stop_effect_def
            by (rule exI [of _ rec], rule exI [of _ inst], rule exI [of _ i2]) (simp add: rec inst i2)
          then show ?thesis
            by (simp add: StopAgent_def clk rec inst \<open>spawnerFor host (arSpawnerType rec) = Some sp\<close> 1 2 Some Let_def)
        next
          case None
          from assms have "hub_open (mnHub ?m')" by simp
          then obtain h where h: "broadcastEvent js ''agent_update'' (PAgent (GetRecord (mnRegistry ?m') nick)) ?m'
              = Some (?m'\<lparr>mnHub := h\<rparr>)" "hub_open h" by (rule broadcastEvent_open)
          have "GetRecord (mnRegistry (?m'\<lparr>mnHub := h\<rparr>)) k = GetRecord (mnRegistry ?m') k" for k by simp
          then have "stop_effect ''stopped'' nick m (?m'\<lparr>mnHub := h\<rparr>)"
            unfolding stop_effect_def
            by (intro exI [of _ rec] exI [of _ inst] exI [of _ i3]) (simp add: rec inst i2)
          moreover have "StopAgent host js clk nick m = Some (None, ?m'\<lparr>mnHub := h\<rparr>)"
            using h(1) by (simp add: StopAgent_def clk rec inst \<open>spawnerFor host (arSpawnerType rec) = Some sp\<close> 1 2 3 None Let_def)
          ultimately show ?thesis using h(2) by simp
        qed
      qed
    qed
  qed
qed

lemma StopAgent_ok:
  assumes "hub_open (mnHub m)" "\<And>t. \<not> hoDone host t"
    and "GetRecord (mnRegistry m) nick = Some rec" "arInstance rec = Some inst" "spawnerFor host (arSpawnerType rec) = Some sp"
  shows "\<exists>m'. StopAgent host js clk nick m = Some (None, m') \<and> stop_effect ''stopped'' nick m m' \<and> hub_open (mnHub m')"
proof -
  have "fst (spStop sp t i) = None" for t i by (rule spStop_succeeds [OF assms(5,2)])
  then have "StopAgent host js clk nick m \<noteq> Some (Some e, m')" for e m'
    using assms(3-5) by (auto simp: StopAgent_def Let_def split: prod.splits option.splits) (metis fst_conv option.distinct(1))+
  note no_err = this
  show ?thesis
  proof (cases "StopAgent host js clk nick m")
    case None
    with StopAgent_result [OF assms(1), where host = host and js = js and clk = clk and nick = nick] show ?thesis by simp
  next
    case (Some em)
    then obtain m' where "em = (None, m')" using no_err by (metis option.exhaust surj_pair)
    with Some StopAgent_result [OF assms(1), where host = host and js = js and clk = clk and nick = nick] show ?thesis by simp
  qed
qed

lemma spawn_then_stop:
  assumes "hub_open (mnHub m)" "SpawnAgent host js clk ty cfg m = Some (Inr rec, m1)" "\<And>t. \<not> hoDone host t"
  shows "\<exists>m2 rec' inst. StopAgent host js clk' (scNick cfg) m1 = Some (None, m2)
    \<and> (\<forall>k. GetRecord (mnRegistry m2) k = (if k = scNick cfg then Some rec' else GetRecord (mnRegistry m) k))
    \<and> arStatus rec' = ''stopped'' \<and> arInstance rec' = Some inst \<and> aiStatus inst = StatusStopped
    \<and> identity inst = (scNick cfg, defaultBinary ty (mgAgentBinary (mnCfg m)) cfg, ty)"
proof -
  from SpawnAgent_result [OF assms(1), where host = host and js = js and clk = clk and ty = ty and cfg = cfg] assms(2)
  have eff: "spawn_effect ty cfg m rec m1" and h1: "hub_open (mnHub m1)" by simp_all
  from eff obtain inst where rec: "GetRecord (mnRegistry m1) (scNick cfg) = Some rec" "arInstance rec = Some inst"
    "arSpawnerType rec = ty" "identity inst = (scNick cfg, defaultBinary ty (mgAgentBinary (mnCfg m)) cfg, ty)"
    by (auto simp: spawn_effect_def)
  from assms(2) obtain sp where "spawnerFor host ty = Some sp"
    by (cases "spawnerFor host ty") (auto simp: SpawnAgent_def split: prod.splits)
  with StopAgent_ok [OF h1 assms(3) rec(1,2), where sp = sp and js = js and clk = clk'] rec(3) obtain m2 where
    m2: "StopAgent host js clk' (scNick cfg) m1 = Some (None, m2)" "stop_effect ''stopped'' (scNick cfg) m1 m2" by auto
  from m2(2) rec obtain inst' where i: "identity inst' = identity inst" "aiStatus inst' = StatusStopped"
    "\<forall>k. GetRecord (mnRegistry m2) k =
       (if k = scNick cfg then Some (rec\<lparr>arStatus := ''stopped'', arInstance := Some inst'\<rparr>) else GetRecord (mnRegistry m1) k)"
    by (auto simp: stop_effect_def)
  let ?rec = "rec\<lparr>arStatus := ''stopped'', arInstance := Some inst'\<rparr>"
  from eff i(3) have "\<forall>k. GetRecord (mnRegistry m2) k = (if k = scNick cfg then Some ?rec else GetRecord (mnRegistry m) k)"
    by (simp add: spawn_effect_def)
  with m2(1) i(1,2) rec(4) show ?thesis
    by (intro exI [of _ m2] exI [of _ ?rec] exI [of _ inst']) simp
qed

text \<open>
  What the manager starts it can stop: an agent that was started by any of the three spawners, on any host, is
  stopped without an error by a caller who does not give up; its record then says \<^verbatim>\<open>stopped\<close> and holds the stopped instance, with the
  configuration that was asked for, and every other agent has the record it had before the start.
\<close>

theorem spawned_agent_can_be_stopped:
  assumes "hub_open (mnHub m)" "SpawnAgent host js clk ty cfg m = Some (Inr rec, m1)" "\<And>t. \<not> hoDone host t"
  shows "\<exists>m2 rec' inst. StopAgent host js clk' (scNick cfg) m1 = Some (None, m2)
    \<and> (\<forall>k. GetRecord (mnRegistry m2) k = (if k = scNick cfg then Some rec' else GetRecord (mnRegistry m) k))
    \<and> arStatus rec' = ''stopped'' \<and> arInstance rec' = Some inst \<and> aiStatus inst = StatusStopped
    \<and> identity inst = (scNick cfg, defaultBinary ty (mgAgentBinary (mnCfg m)) cfg, ty)"
  by (rule spawn_then_stop [OF assms])

lemma demo_spawned:
  "\<exists>rec m'. SpawnAgent stubborn plain_json (1, 2, 3) ''local'' demo_spawn demo_manager = Some (Inr rec, m')"
proof -
  have bin: "defaultBinary ''local'' b demo_spawn = demo_spawn" for b by (simp add: defaultBinary_def demo_spawn_def)
  show ?thesis
    using local_demo_spawn
    by (simp add: SpawnAgent_def bin spawnerFor_def NewLocalSpawner_def PreSpawn_local_def Spawn_local_def PostSpawn_local_def
        stubborn_def broadcastEvent_def plain_json_def Broadcast_def demo_manager_def NewWithClient_def NewHub_def
        Register_def Let_def) (simp add: demo_spawn_def)
qed

theorem spawned_agent_can_be_stopped_witness:
  "\<exists>rec m1 m2 rec'. SpawnAgent stubborn plain_json (1, 2, 3) ''local'' demo_spawn demo_manager = Some (Inr rec, m1)
     \<and> StopAgent stubborn plain_json (4, 5, 6) ''drone'' m1 = Some (None, m2)
     \<and> GetRecord (mnRegistry m2) ''drone'' = Some rec' \<and> arStatus rec' = ''stopped''"
proof -
  from demo_spawned obtain rec m1 where s: "SpawnAgent stubborn plain_json (1, 2, 3) ''local'' demo_spawn demo_manager = Some (Inr rec, m1)"
    by blast
  have "hub_open (mnHub demo_manager)" by (simp add: demo_manager_def)
  from spawned_agent_can_be_stopped [OF this s, where clk' = "(4, 5, 6)"] show ?thesis
    using s by (auto simp: stubborn_def demo_spawn_def)
qed

section \<open>Polling\<close>

definition polled :: "fetch \<Rightarrow> gotime \<Rightarrow> string \<Rightarrow> AgentRecord \<Rightarrow> AgentRecord" where
  "polled ft now url rec =
     (if url = [] then rec
      else case ftHealth ft (url @ ''/health'') of
        None \<Rightarrow> rec
      | Some health \<Rightarrow>
          let rec = (case health of
                       None \<Rightarrow> rec
                     | Some h \<Rightarrow> rec\<lparr>arHealth := Some h, arLastSeen := now,
                                     arStatus := (if hsHealthy h then ''online'' else arStatus rec)\<rparr>)
          in case ftMetrics ft (url @ ''/metrics'') of
               Some (Some metrics) \<Rightarrow> rec\<lparr>arMetrics := Some metrics\<rparr>
             | _ \<Rightarrow> rec)"

lemma pollSingle_lookup:
  assumes "url \<noteq> []"
  shows "GetRecord (mnRegistry (pollSingleAgent ft now nick url m)) k =
     (if k = nick then map_option (polled ft now url) (GetRecord (mnRegistry m) nick) else GetRecord (mnRegistry m) k)"
  using assms
  by (cases "map_of (mnRegistry m) nick")
    (auto simp: pollSingleAgent_def polled_def GetRecord_def UpdateHealth_def UpdateMetrics_def map_of_mmodify Let_def
      split: option.split)

lemma poll_fold_lookup:
  assumes "distinct (map arNick rs)"
  shows "GetRecord (mnRegistry (fold (\<lambda>rec m. if arDashboardURL rec = [] then m
             else pollSingleAgent ft now (arNick rec) (arDashboardURL rec) m) rs m)) k =
    (case find (\<lambda>rec. arNick rec = k) rs of
       None \<Rightarrow> GetRecord (mnRegistry m) k
     | Some rec \<Rightarrow> map_option (polled ft now (arDashboardURL rec)) (GetRecord (mnRegistry m) k))"
  using assms
proof (induction rs arbitrary: m)
  case (Cons rec rs)
  have none: "find (\<lambda>rec'. arNick rec' = arNick rec) rs = None"
    using Cons.prems unfolding find_None_iff by (simp add: image_iff) metis
  have skip: "polled ft now [] = (\<lambda>rec. rec)" by (simp add: polled_def fun_eq_iff)
  show ?case
  proof (cases "arDashboardURL rec = []")
    case True
    with Cons none show ?thesis by (auto simp: skip option.map_ident)
  next
    case False
    with Cons none show ?thesis by (auto simp: pollSingle_lookup [OF False] split: option.split)
  qed
qed simp

lemma find_mvals:
  assumes "registry_inv r"
  shows "find (\<lambda>rec. arNick rec = k) (mvals r) = map_of r k" "distinct (map arNick (mvals r))"
proof -
  from assms have *: "distinct (mkeys r)" "\<forall>(k, rec) \<in> set r. arNick rec = k" by (auto simp: registry_inv_def keyed_def)
  then show "find (\<lambda>rec. arNick rec = k) (mvals r) = map_of r k" by (induction r) auto
  from * have "map arNick (mvals r) = mkeys r" by (induction r) auto
  with *(1) show "distinct (map arNick (mvals r))" by (simp only:)
qed

lemma poll_lookup:
  assumes "registry_inv (mnRegistry m)"
  shows "GetRecord (mnRegistry (pollAgentDashboards ft now m)) k =
     (case GetRecord (mnRegistry m) k of None \<Rightarrow> None | Some rec \<Rightarrow> Some (polled ft now (arDashboardURL rec) rec))"
  using poll_fold_lookup [OF find_mvals(2) [OF assms], of ft now m k] find_mvals(1) [OF assms, of k]
  by (simp add: pollAgentDashboards_def ListRecords_def GetRecord_def split: option.split)

text \<open>
  A round of polls updates every agent by the pages of its own dashboard and no other: health, time and, when healthy, the status
  \<^verbatim>\<open>online\<close> from the health page, the counters from the metrics page, which is asked for only when the first request went through.  Since the answer names each
  record by itself, the order of the parallel polls does not matter.
\<close>

theorem poll_updates_each_agent:
  assumes "registry_inv (mnRegistry m)"
  shows "GetRecord (mnRegistry (pollAgentDashboards ft now m)) k =
     (case GetRecord (mnRegistry m) k of None \<Rightarrow> None | Some rec \<Rightarrow> Some (polled ft now (arDashboardURL rec) rec))"
  by (rule poll_lookup [OF assms])

theorem poll_updates_each_agent_witness:
  "let rec = zeroAgentRecord\<lparr>arNick := ''drone'', arStatus := ''stopped'', arDashboardURL := ''http://d''\<rparr>;
       m = demo_manager\<lparr>mnRegistry := [(''drone'', rec)]\<rparr>;
       h = \<lparr>hsConnected = True, hsHealthy = True, hsNick = [], hsChannels = [], hsUptime = 0, hsUptimeHuman = [], hsStartedAt = 0,
            hsTaskStats = taskStats NewStateStore, hsDependencyStats = DependencyStats NewStateStore\<rparr>;
       ft = \<lparr>ftHealth = (\<lambda>_. Some (Some h)), ftMetrics = (\<lambda>_. None)\<rparr>
   in map_option arStatus (GetRecord (mnRegistry (pollAgentDashboards ft 5 m)) ''drone'') = Some ''online''"
proof -
  let ?rec = "zeroAgentRecord\<lparr>arNick := ''drone'', arStatus := ''stopped'', arDashboardURL := ''http://d''\<rparr>"
  have "registry_inv (mnRegistry (demo_manager\<lparr>mnRegistry := [(''drone'', ?rec)]\<rparr>))" by (simp add: registry_inv_def keyed_def)
  from poll_updates_each_agent [OF this, where now = 5 and k = "''drone''"] show ?thesis
    by (simp add: Let_def GetRecord_def polled_def)
qed

end
