(* ===== verification/ManagerServer.thy ===== *)
theory ManagerServer
  imports Mux Supervision
begin

text \<open>
  The manager's HTTP interface, \<^verbatim>\<open>internal/manager/server.go\<close>: its routes and handlers over the manager.  JSON, the texts of errors and the HTML
  templates are parameters.  A request is answered by a reply or becomes a stream of events; None is a panic.
\<close>

section \<open>Parameters\<close>

record spawnConfigRequest =
  srNick :: string
  srServer :: string
  srUsername :: string
  srPassword :: string
  srChannels :: "string list"
  srCapabilities :: "string list"
  srRoles :: "string list"
  srDashboardAddr :: string
  srExtraFlags :: "string gomap"
  srBinaryPath :: string
  srSSHHost :: string
  srSSHUser :: string
  srSSHKeyPath :: string
  srDockerImage :: string
  srDockerNetwork :: string

definition toSpawnConfig :: "spawnConfigRequest \<Rightarrow> SpawnConfig" where
  "toSpawnConfig r =
     \<lparr>scNick = srNick r, scServer = srServer r, scUsername = srUsername r, scPassword = srPassword r,
      scChannels = srChannels r, scCapabilities = srCapabilities r, scRoles = srRoles r,
      scDashboardAddr = srDashboardAddr r, scExtraFlags = srExtraFlags r, scBinaryPath = srBinaryPath r,
      scSSHHost = srSSHHost r, scSSHUser = srSSHUser r, scSSHKeyPath = srSSHKeyPath r,
      scDockerImage = srDockerImage r, scDockerNetwork = srDockerNetwork r\<rparr>"

datatype api_value =
  AvRecords "AgentRecord list" | AvRecord AgentRecord | AvFields "string gomap" | AvTasks "TaskInfo list"
| AvSummary CostSummary | AvGroups "CostSummary gomap" | AvMessages "MessageLogEntry list" | AvCapabilities "AgentCapability list"

datatype page_data = PdManager Manager | PdFields "string gomap" | PdNil

text \<open>
  The templates: the error of parsing a page with its layout, and what executing it writes, a text after which it either finishes or
  fails.
\<close>

record 'e web =
  wbJson :: "api_value \<Rightarrow> string option"
  wbDecodeSpawn :: "string \<Rightarrow> string + string \<times> spawnConfigRequest"
  wbErrorText :: "'e mgr_error \<Rightarrow> string"
  wbParseTemplate :: "string \<Rightarrow> string option"
  wbExecute :: "string \<Rightarrow> page_data \<Rightarrow> string \<times> bool"

section \<open>Handlers\<close>

definition handleAPIAgents :: "'e web \<Rightarrow> Manager \<Rightarrow> response" where
  "handleAPIAgents web m = json_response (wbJson web) (AvRecords (ListRecords (mnRegistry m)))"

definition handleAPIAgentDetail :: "'e web \<Rightarrow> string \<Rightarrow> Manager \<Rightarrow> response" where
  "handleAPIAgentDetail web nick m =
     (case GetRecord (mnRegistry m) nick of
        None \<Rightarrow> http_error ''agent not found'' 404
      | Some rec \<Rightarrow> json_response (wbJson web) (AvRecord rec))"

text \<open>The header is sent with the status 201, before the content type is set.\<close>

definition handleAPISpawn ::
  "'e host \<Rightarrow> json_codec \<Rightarrow> 'e web \<Rightarrow> gotime \<times> gotime \<times> gotime \<Rightarrow> string \<Rightarrow> Manager \<Rightarrow> (response \<times> Manager) option" where
  "handleAPISpawn host js web clk body m =
     (case wbDecodeSpawn web body of
        Inl err \<Rightarrow> Some (http_error err 400, m)
      | Inr (spawnerType, config) \<Rightarrow>
          (case SpawnAgent host js clk spawnerType (toSpawnConfig config) m of
             None \<Rightarrow> None
           | Some (Inl err, m) \<Rightarrow> Some (http_error (wbErrorText web err) 500, m)
           | Some (Inr rec, m) \<Rightarrow>
               Some ((json_response (wbJson web) (AvRecord rec))\<lparr>rsStatus := 201, rsType := None\<rparr>, m)))"

definition handleAPIStop ::
  "'e host \<Rightarrow> json_codec \<Rightarrow> 'e web \<Rightarrow> gotime \<times> gotime \<times> gotime \<Rightarrow> string \<Rightarrow> Manager \<Rightarrow> (response \<times> Manager) option" where
  "handleAPIStop host js web clk nick m =
     (case StopAgent host js clk nick m of
        None \<Rightarrow> None
      | Some (Some err, m) \<Rightarrow> Some (http_error (wbErrorText web err) 500, m)
      | Some (None, m) \<Rightarrow>
          Some (json_response (wbJson web) (AvFields [(''status'', ''stopped''), (''nick'', nick)]), m))"

definition handleAPITasks :: "'e web \<Rightarrow> Manager \<Rightarrow> response" where
  "handleAPITasks web m = json_response (wbJson web) (AvTasks (ListTasks (mnState m)))"

definition handleAPICosts :: "'e web \<Rightarrow> Manager \<Rightarrow> response" where
  "handleAPICosts web m = json_response (wbJson web) (AvSummary (TotalSummary (mnCostStore m)))"

definition handleAPICostsByAgent :: "'e web \<Rightarrow> Manager \<Rightarrow> response" where
  "handleAPICostsByAgent web m = json_response (wbJson web) (AvGroups (ByAgent (mnCostStore m)))"

definition handleAPICostsByTask :: "'e web \<Rightarrow> Manager \<Rightarrow> response" where
  "handleAPICostsByTask web m = json_response (wbJson web) (AvGroups (ByTask (mnCostStore m)))"

definition handleAPICostsByModel :: "'e web \<Rightarrow> Manager \<Rightarrow> response" where
  "handleAPICostsByModel web m = json_response (wbJson web) (AvGroups (ByModel (mnCostStore m)))"

definition handleAPIMessages :: "'e web \<Rightarrow> Manager \<Rightarrow> response" where
  "handleAPIMessages web m = json_response (wbJson web) (AvMessages (RecentMessages 100 (mnInspector m)))"

definition handleAPIDiscovery :: "'e web \<Rightarrow> gotime \<Rightarrow> Manager \<Rightarrow> response" where
  "handleAPIDiscovery web now m = json_response (wbJson web) (AvCapabilities (ListActive now (mnDiscovery m)))"

text \<open>
  The templates are parsed once, up to the first that fails; as they are part of the program, parsing them again would give the same.  A page
  without a template writes nothing.
\<close>

definition templatePages :: "string list" where
  "templatePages = [''dashboard.html'', ''agent_detail.html'', ''spawn.html'', ''costs.html'', ''taskboard.html'']"

fun loadTemplates :: "(string \<Rightarrow> string option) \<Rightarrow> string list \<Rightarrow> string list \<times> string option" where
  "loadTemplates parse [] = ([], None)"
| "loadTemplates parse (page # pages) =
     (case parse page of Some e \<Rightarrow> ([], Some e) | None \<Rightarrow> apfst (Cons page) (loadTemplates parse pages))"

definition executeTemplate :: "'e web \<Rightarrow> string \<Rightarrow> page_data \<Rightarrow> string \<times> bool" where
  "executeTemplate web name data =
     (case loadTemplates (wbParseTemplate web) templatePages of
        (_, Some e) \<Rightarrow> ([], False)
      | (ts, None) \<Rightarrow> if name \<notin> set ts then ([], True) else wbExecute web name data)"

text \<open>A template that fails after it has written a part leaves the status 200 and the message behind that part.\<close>

definition renderTemplate :: "'e web \<Rightarrow> string \<Rightarrow> page_data \<Rightarrow> response" where
  "renderTemplate web name data =
     (case executeTemplate web name data of
        (text, True) \<Rightarrow> \<lparr>rsStatus = 200, rsType = None, rsBody = text\<rparr>
      | (text, False) \<Rightarrow>
          if text = [] then http_error ''template error'' 500
          else \<lparr>rsStatus = 200, rsType = None, rsBody = text @ ''template error'' @ [CHR 0x0A]\<rparr>)"

text \<open>The start of \<^verbatim>\<open>serveWS\<close>: the new connection is registered; its loop is part of the hub's step relation.\<close>

definition serveWS :: "nat \<Rightarrow> Manager \<Rightarrow> reply \<times> Manager" where
  "serveWS c m =
     (Stream c, m\<lparr>mnHub := Register_hub c ((mnHub m)\<lparr>hubConns := (hubConns (mnHub m))(c \<mapsto> newWsConn)\<rparr>)\<rparr>)"

section \<open>Routes\<close>

datatype endpoint =
  ApiAgents | ApiAgentDetail | ApiSpawn | ApiStop | ApiTasks | ApiCosts | ApiCostsByAgent | ApiCostsByTask | ApiCostsByModel
| ApiMessages | ApiDiscovery | ApiWS | PageAgentDetail | PageSpawn | PageCosts | PageTaskboard | PageDashboard

definition serverRoutes :: "endpoint route list" where
  "serverRoutes =
     [get_route [Lit ''api'', Lit ''agents''] ApiAgents,
      get_route [Lit ''api'', Lit ''agents'', Wild] ApiAgentDetail,
      post_route [Lit ''api'', Lit ''agents'', Lit ''spawn''] ApiSpawn,
      post_route [Lit ''api'', Lit ''agents'', Wild, Lit ''stop''] ApiStop,
      get_route [Lit ''api'', Lit ''tasks''] ApiTasks,
      get_route [Lit ''api'', Lit ''costs''] ApiCosts,
      get_route [Lit ''api'', Lit ''costs'', Lit ''by-agent''] ApiCostsByAgent,
      get_route [Lit ''api'', Lit ''costs'', Lit ''by-task''] ApiCostsByTask,
      get_route [Lit ''api'', Lit ''costs'', Lit ''by-model''] ApiCostsByModel,
      get_route [Lit ''api'', Lit ''messages''] ApiMessages,
      get_route [Lit ''api'', Lit ''discovery''] ApiDiscovery,
      get_route [Lit ''ws''] ApiWS,
      get_route [Lit ''agents'', Wild] PageAgentDetail,
      get_route [Lit ''spawn''] PageSpawn,
      get_route [Lit ''costs''] PageCosts,
      get_route [Lit ''taskboard''] PageTaskboard,
      get_tree PageDashboard]"

text \<open>The wildcards' values are the list \<open>vs\<close>; the only wildcard of a route is its nick.  A connection gets the identity \<open>c\<close>.\<close>

definition handle ::
  "'e host \<Rightarrow> json_codec \<Rightarrow> 'e web \<Rightarrow> gotime \<times> gotime \<times> gotime \<Rightarrow> nat \<Rightarrow> string list \<Rightarrow> string \<Rightarrow> Manager
    \<Rightarrow> endpoint \<Rightarrow> (reply \<times> Manager) option" where
  "handle host js web clk c vs body m ep =
     (let nick = (case vs of [] \<Rightarrow> [] | v # _ \<Rightarrow> v); page = (\<lambda>r. Some (Reply r, m))
      in case ep of
           ApiAgents \<Rightarrow> page (handleAPIAgents web m)
         | ApiAgentDetail \<Rightarrow> page (handleAPIAgentDetail web nick m)
         | ApiSpawn \<Rightarrow> map_option (apfst Reply) (handleAPISpawn host js web clk body m)
         | ApiStop \<Rightarrow> map_option (apfst Reply) (handleAPIStop host js web clk nick m)
         | ApiTasks \<Rightarrow> page (handleAPITasks web m)
         | ApiCosts \<Rightarrow> page (handleAPICosts web m)
         | ApiCostsByAgent \<Rightarrow> page (handleAPICostsByAgent web m)
         | ApiCostsByTask \<Rightarrow> page (handleAPICostsByTask web m)
         | ApiCostsByModel \<Rightarrow> page (handleAPICostsByModel web m)
         | ApiMessages \<Rightarrow> page (handleAPIMessages web m)
         | ApiDiscovery \<Rightarrow> page (handleAPIDiscovery web (fst clk) m)
         | ApiWS \<Rightarrow> Some (serveWS c m)
         | PageAgentDetail \<Rightarrow> page (renderTemplate web ''agent_detail.html'' (PdFields [(''nick'', nick)]))
         | PageSpawn \<Rightarrow> page (renderTemplate web ''spawn.html'' PdNil)
         | PageCosts \<Rightarrow> page (renderTemplate web ''costs.html'' PdNil)
         | PageTaskboard \<Rightarrow> page (renderTemplate web ''taskboard.html'' PdNil)
         | PageDashboard \<Rightarrow> page (renderTemplate web ''dashboard.html'' (PdManager m)))"

definition serveManager ::
  "'e host \<Rightarrow> json_codec \<Rightarrow> 'e web \<Rightarrow> gotime \<times> gotime \<times> gotime \<Rightarrow> nat \<Rightarrow> request \<Rightarrow> Manager \<Rightarrow> (reply \<times> Manager) option" where
  "serveManager host js web clk c req m =
     (case ServeMux serverRoutes req of
        Found ep vs \<Rightarrow> handle host js web clk c vs (rqBody req) m ep
      | r \<Rightarrow> Some (mux_reply r, m))"

section \<open>Pages\<close>

text \<open>When every template parses, each page handler finds its template.\<close>

lemma loadTemplates_all: "\<forall>page \<in> set pages. parse page = None \<Longrightarrow> loadTemplates parse pages = (pages, None)"
  by (induction pages) simp_all

lemma pages_have_templates:
  assumes "\<forall>page \<in> set templatePages. wbParseTemplate web page = None" "name \<in> set templatePages"
  shows "executeTemplate web name data = wbExecute web name data"
  using assms loadTemplates_all [OF assms(1)] by (simp add: executeTemplate_def)

section \<open>Requests\<close>

lemma hub_open_new:
  assumes "hub_open h"
  shows "hub_open (Register_hub c (h\<lparr>hubConns := (hubConns h)(c \<mapsto> newWsConn)\<rparr>))"
  using assms by (auto simp: hub_open_def Register_hub_def newWsConn_def)

text \<open>What an endpoint may do to the manager.\<close>

lemma handle_reads:
  assumes "ep \<noteq> ApiSpawn" "ep \<noteq> ApiStop"
  shows "\<exists>reply m'. handle host js web clk c vs body m ep = Some (reply, m')
    \<and> ((\<exists>r. reply = Reply r) \<and> m' = m \<or> (reply, m') = serveWS c m)"
proof (cases "ep = ApiWS")
  case True
  then show ?thesis by (simp add: handle_def serveWS_def)
qed (use assms in \<open>cases ep; simp add: handle_def\<close>)

lemma StopAgent_hub:
  assumes "hub_open (mnHub m)" "StopAgent host js clk nick m = Some (err, m')"
  shows "hub_open (mnHub m')"
proof (cases err)
  case None
  with StopAgent_result [OF assms(1), where host = host and js = js and clk = clk and nick = nick] assms(2) show ?thesis by simp
next
  case (Some e)
  with assms show ?thesis
    by (auto simp: StopAgent_def Let_def split: prod.splits option.splits)
qed

lemma handle_spawn:
  assumes "hub_open (mnHub m)"
  shows "\<exists>r m'. handle host js web clk c vs body m ApiSpawn = Some (Reply r, m') \<and> hub_open (mnHub m')
    \<and> (400 \<le> rsStatus r \<longrightarrow> m' = m)"
proof (cases "wbDecodeSpawn web body")
  case (Inl err)
  with assms show ?thesis by (simp add: handle_def handleAPISpawn_def)
next
  case (Inr tc)
  obtain ty config where tc: "tc = (ty, config)" by (cases tc)
  from SpawnAgent_result [OF assms, where host = host and js = js and clk = clk and ty = ty and cfg = "toSpawnConfig config"] show ?thesis
    by (cases "SpawnAgent host js clk ty (toSpawnConfig config) m")
      (use assms in \<open>auto simp: handle_def handleAPISpawn_def Inr tc split: sum.splits\<close>)
qed

lemma handle_stop:
  assumes "hub_open (mnHub m)"
  shows "\<exists>r m'. handle host js web clk c vs body m ApiStop = Some (Reply r, m') \<and> hub_open (mnHub m')
    \<and> (400 \<le> rsStatus r \<longrightarrow> m' = m \<or> (\<exists>nick. stop_effect ''stopping'' nick m m'))"
proof -
  let ?nick = "case vs of [] \<Rightarrow> [] | v # _ \<Rightarrow> v"
  note res = StopAgent_result [OF assms, where host = host and js = js and clk = clk and nick = ?nick]
  then obtain err m' where s: "StopAgent host js clk ?nick m = Some (err, m')"
    by (cases "StopAgent host js clk ?nick m") auto
  with res have "err \<noteq> None \<Longrightarrow> m' = m \<or> stop_effect ''stopping'' ?nick m m'"
    by (auto split: option.splits mgr_error.splits)
  with s StopAgent_hub [OF assms s] show ?thesis
    by (cases err) (auto simp: handle_def handleAPIStop_def Let_def json_response_def)
qed

lemma serverRoutes_posts:
  "r \<in> set serverRoutes \<Longrightarrow> rtHandler r = ApiSpawn \<or> rtHandler r = ApiStop \<Longrightarrow> rtMethod r = ''POST''"
  by (auto simp: serverRoutes_def get_route_def post_route_def get_tree_def)

lemma serveManager_safe:
  assumes "hub_open (mnHub m)"
  shows "\<exists>reply m'. serveManager host js web clk c req m = Some (reply, m') \<and> hub_open (mnHub m')
    \<and> (m' = m \<or> rqMethod req = ''POST'' \<or> (reply, m') = serveWS c m)
    \<and> (\<forall>r. reply = Reply r \<and> rsStatus r \<ge> 400 \<longrightarrow>
          m' = m \<or> rqMethod req = ''POST'' \<and> (\<exists>nick. stop_effect ''stopping'' nick m m'))"
proof (cases "ServeMux serverRoutes req")
  case (Found ep vs)
  then have "match_request serverRoutes (rqMethod req) (rqPath req) = Some (ep, vs)"
    by (auto simp: ServeMux_def split: if_splits option.splits)
  then obtain r where r: "r \<in> set serverRoutes" "rtHandler r = ep"
      "rtMethod r = rqMethod req \<or> rtMethod r = ''GET'' \<and> rqMethod req = ''HEAD''" by (rule match_request_handler)
  note call = serveManager_def [of host js web clk c req m, unfolded Found mux.case]
  show ?thesis
  proof (cases "ep = ApiSpawn \<or> ep = ApiStop")
    case True
    with serverRoutes_posts [OF r(1)] r have post: "rqMethod req = ''POST''" by auto
    from True handle_spawn [OF assms, where host = host and js = js and web = web and clk = clk and c = c and vs = vs and body = "rqBody req"] handle_stop [OF assms, where host = host and js = js and web = web and clk = clk and c = c and vs = vs and body = "rqBody req"]
    show ?thesis unfolding call using post by auto
  next
    case False
    then have "ep \<noteq> ApiSpawn" "ep \<noteq> ApiStop" by simp_all
    from handle_reads [OF this, where host = host and js = js and web = web and clk = clk and c = c and vs = vs and body = "rqBody req" and m = m] obtain reply m' where
      "handle host js web clk c vs (rqBody req) m ep = Some (reply, m')"
      "(\<exists>r. reply = Reply r) \<and> m' = m \<or> (reply, m') = serveWS c m" by blast
    with assms hub_open_new [OF assms, of c] show ?thesis unfolding call by (auto simp: serveWS_def)
  qed
qed (use assms in \<open>simp_all add: serveManager_def\<close>)

lemma serveManager_open:
  assumes "hub_open (mnHub m)"
  shows "\<exists>reply m'. serveManager host js web clk c req m = Some (reply, m') \<and> hub_open (mnHub m')"
  using serveManager_safe [OF assms, of host js web clk c req] by blast

text \<open>
  C16.  The web interface cannot break the manager: every request is answered without a panic, whatever its method, path and body, and
  leaves the event stream sound; only a POST, or a new client of the event stream, changes anything; and a request that is answered with an error
  changes nothing, except that a stop that failed leaves the record of that one agent with the status \<^verbatim>\<open>stopping\<close> and its
  stopped instance.
\<close>

theorem requests_are_safe:
  assumes "hub_open (mnHub m)"
  shows "\<exists>reply m'. serveManager host js web clk c req m = Some (reply, m') \<and> hub_open (mnHub m')
    \<and> (m' = m \<or> rqMethod req = ''POST'' \<or> (reply, m') = serveWS c m)
    \<and> (\<forall>r. reply = Reply r \<and> rsStatus r \<ge> 400 \<longrightarrow>
          m' = m \<or> rqMethod req = ''POST'' \<and> (\<exists>nick. stop_effect ''stopping'' nick m m'))"
  by (rule serveManager_safe [OF assms])

section \<open>Start and stop over HTTP\<close>

definition plain_segment :: "string \<Rightarrow> bool" where
  "plain_segment s \<longleftrightarrow> s \<notin> {[], ''.'', ''..''}"

lemma route_spawn: "ServeMux serverRoutes (post_request [''api'', ''agents'', ''spawn''] body) = Found ApiSpawn []"
  by (simp add: ServeMux_def match_request_def serverRoutes_def post_request_def clean_path_def)

lemma route_stop:
  "plain_segment n \<Longrightarrow> ServeMux serverRoutes (post_request [''api'', ''agents'', n, ''stop''] body) = Found ApiStop [n]"
  by (cases "n = ''spawn''")
    (auto simp: ServeMux_def match_request_def serverRoutes_def post_request_def clean_path_def plain_segment_def)

lemma route_detail:
  "plain_segment n \<Longrightarrow> ServeMux serverRoutes (get_request [''api'', ''agents'', n]) = Found ApiAgentDetail [n]"
  by (auto simp: ServeMux_def match_request_def serverRoutes_def get_request_def clean_path_def plain_segment_def)

text \<open>
  C17.  Over the web interface, what was started can be stopped and is then reported as stopped: when a request to start an agent is
  answered with 201, a request to stop that nick, by a client who does not hang up, is answered with 200, and the detail page of the
  nick then shows the record with the status \<^verbatim>\<open>stopped\<close> and the instance with the configuration that was requested.  The nick must
  be one that can stand in a path.
\<close>

theorem started_over_http_can_be_stopped:
  assumes "hub_open (mnHub m)" "wbDecodeSpawn web body = Inr (ty, config)" "plain_segment (srNick config)"
    and "serveManager host js web clk c (post_request [''api'', ''agents'', ''spawn''] body) m = Some (Reply r1, m1)" "rsStatus r1 = 201"
    and "\<And>t. \<not> hoDone host t"
  shows "\<exists>m2 r2 rec inst.
    serveManager host js web clk2 c2 (post_request [''api'', ''agents'', srNick config, ''stop''] body2) m1 = Some (Reply r2, m2)
    \<and> rsStatus r2 = 200
    \<and> serveManager host js web clk3 c3 (get_request [''api'', ''agents'', srNick config]) m2
        = Some (Reply (json_response (wbJson web) (AvRecord rec)), m2)
    \<and> GetRecord (mnRegistry m2) (srNick config) = Some rec \<and> arStatus rec = ''stopped''
    \<and> arInstance rec = Some inst \<and> aiStatus inst = StatusStopped
    \<and> aiConfig inst = defaultBinary ty (mgAgentBinary (mnCfg m)) (toSpawnConfig config)"
proof -
  let ?cfg = "toSpawnConfig config"
  have nick: "scNick ?cfg = srNick config" by (simp add: toSpawnConfig_def)
  from assms(4) have "map_option (apfst Reply) (handleAPISpawn host js web clk body m) = Some (Reply r1, m1)"
    by (simp add: serveManager_def route_spawn handle_def) (simp add: post_request_def)
  then have "handleAPISpawn host js web clk body m = Some (r1, m1)" by (auto simp: apfst_def)
  with assms(2,5) obtain rec1 where s: "SpawnAgent host js clk ty ?cfg m = Some (Inr rec1, m1)"
    by (auto simp: handleAPISpawn_def http_error_def split: option.splits sum.splits)
  from spawn_then_stop [OF assms(1) s assms(6), where clk' = clk2] obtain m2 rec inst where
    2: "StopAgent host js clk2 (srNick config) m1 = Some (None, m2)" "GetRecord (mnRegistry m2) (srNick config) = Some rec"
      "arStatus rec = ''stopped''" "arInstance rec = Some inst" "aiStatus inst = StatusStopped"
      "identity inst = (scNick ?cfg, defaultBinary ty (mgAgentBinary (mnCfg m)) ?cfg, ty)"
    unfolding nick by metis
  from 2(6) have "aiConfig inst = defaultBinary ty (mgAgentBinary (mnCfg m)) ?cfg" by (simp add: identity_def)
  with 2 show ?thesis
    by (intro exI [of _ m2] exI [of _ rec] exI [of _ inst]
          exI [of _ "json_response (wbJson web) (AvFields [(''status'', ''stopped''), (''nick'', srNick config)])"])
      (simp add: serveManager_def route_stop [OF assms(3)] route_detail [OF assms(3)] handle_def handleAPIStop_def
        handleAPIAgentDetail_def json_response_def)
qed

definition demo_request :: spawnConfigRequest where
  "demo_request =
     \<lparr>srNick = scNick demo_spawn, srServer = scServer demo_spawn, srUsername = scUsername demo_spawn,
      srPassword = scPassword demo_spawn, srChannels = scChannels demo_spawn, srCapabilities = scCapabilities demo_spawn,
      srRoles = scRoles demo_spawn, srDashboardAddr = scDashboardAddr demo_spawn, srExtraFlags = scExtraFlags demo_spawn,
      srBinaryPath = scBinaryPath demo_spawn, srSSHHost = scSSHHost demo_spawn, srSSHUser = scSSHUser demo_spawn,
      srSSHKeyPath = scSSHKeyPath demo_spawn, srDockerImage = scDockerImage demo_spawn, srDockerNetwork = scDockerNetwork demo_spawn\<rparr>"

definition demo_web :: "string web" where
  "demo_web =
     \<lparr>wbJson = (\<lambda>_. Some ''{}''),
      wbDecodeSpawn = (\<lambda>body. if body = [] then Inl ''EOF'' else Inr (''local'', demo_request)),
      wbErrorText = (\<lambda>_. ''failed''), wbParseTemplate = (\<lambda>_. None), wbExecute = (\<lambda>_ _. ([], True))\<rparr>"

theorem started_over_http_can_be_stopped_witness:
  "\<exists>r1 m1 r2 m2 rec.
    serveManager stubborn plain_json demo_web (1, 2, 3) 0 (post_request [''api'', ''agents'', ''spawn''] ''{}'') demo_manager
      = Some (Reply r1, m1) \<and> rsStatus r1 = 201
    \<and> serveManager stubborn plain_json demo_web (4, 5, 6) 1 (post_request [''api'', ''agents'', ''drone'', ''stop''] []) m1
      = Some (Reply r2, m2) \<and> rsStatus r2 = 200
    \<and> GetRecord (mnRegistry m2) ''drone'' = Some rec \<and> arStatus rec = ''stopped''"
proof -
  have cfg: "toSpawnConfig demo_request = demo_spawn" by (simp add: toSpawnConfig_def demo_request_def)
  have nick: "srNick demo_request = ''drone''" by (simp add: demo_request_def demo_spawn_def)
  from demo_spawned obtain rec m1 where
    s: "SpawnAgent stubborn plain_json (1, 2, 3) ''local'' demo_spawn demo_manager = Some (Inr rec, m1)" by blast
  let ?r1 = "(json_response (wbJson demo_web) (AvRecord rec))\<lparr>rsStatus := 201, rsType := None\<rparr>"
  have 1: "wbDecodeSpawn demo_web ''{}'' = Inr (''local'', demo_request)" by (simp add: demo_web_def)
  then have r1: "serveManager stubborn plain_json demo_web (1, 2, 3) 0 (post_request [''api'', ''agents'', ''spawn''] ''{}'') demo_manager
      = Some (Reply ?r1, m1)"
    by (simp add: serveManager_def route_spawn handle_def handleAPISpawn_def) (simp add: post_request_def 1 cfg s)
  have ok: "hub_open (mnHub demo_manager)" by (simp add: demo_manager_def)
  have seg: "plain_segment (srNick demo_request)" by (simp add: nick plain_segment_def)
  have host: "\<not> hoDone stubborn t" for t by (simp add: stubborn_def)
  from started_over_http_can_be_stopped [OF ok 1 seg r1 _ host, where ?clk2.0 = "(4, 5, 6)" and ?c2.0 = 1 and ?body2.0 = "[]"
      and ?clk3.0 = "(7, 8, 9)" and ?c3.0 = 2, unfolded nick]
  obtain m2 r2 rec' where "serveManager stubborn plain_json demo_web (4, 5, 6) 1
      (post_request [''api'', ''agents'', ''drone'', ''stop''] []) m1 = Some (Reply r2, m2)"
    "rsStatus r2 = 200" "GetRecord (mnRegistry m2) ''drone'' = Some rec'" "arStatus rec' = ''stopped''" by auto
  moreover have "rsStatus ?r1 = 201" by simp
  ultimately show ?thesis using r1 by blast
qed

theorem requests_are_safe_witness:
  "\<exists>reply m'. serveManager stubborn plain_json demo_web (1, 2, 3) 0 (get_request [''ws'']) demo_manager = Some (reply, m')
     \<and> (reply, m') = serveWS 0 demo_manager"
proof -
  have ok: "hub_open (mnHub demo_manager)" by (simp add: demo_manager_def)
  have "ServeMux serverRoutes (get_request [''ws'']) = Found ApiWS []"
    by (simp add: ServeMux_def match_request_def serverRoutes_def get_request_def clean_path_def)
  then have "serveManager stubborn plain_json demo_web (1, 2, 3) 0 (get_request [''ws'']) demo_manager = Some (serveWS 0 demo_manager)"
    by (simp add: serveManager_def handle_def)
  with requests_are_safe [OF ok, where host = stubborn and js = plain_json and web = demo_web and clk = "(1, 2, 3)" and c = 0
      and req = "get_request [''ws'']"]
  show ?thesis by auto
qed


end
