(* ===== verification/Observability.thy ===== *)
theory Observability
  imports Dashboard ManagerServer
begin

text \<open>
  The manager and the agents together: what the manager's registry says of an agent after it has polled that agent's
  dashboard.  The network is the parameter \<open>net\<close>, the answer of whichever server an address names.
\<close>

text \<open>A request that is not answered counts as failed; the status of an answer is not looked at.\<close>

definition dashboard_fetch ::
  "(string \<Rightarrow> reply option) \<Rightarrow> (string \<Rightarrow> HealthStatus option) \<Rightarrow> (string \<Rightarrow> MetricsSnapshot option) \<Rightarrow> fetch" where
  "dashboard_fetch net decH decM =
     \<lparr>ftHealth = (\<lambda>url. case net url of Some (Reply r) \<Rightarrow> Some (decH (rsBody r)) | _ \<Rightarrow> None),
      ftMetrics = (\<lambda>url. case net url of Some (Reply r) \<Rightarrow> Some (decM (rsBody r)) | _ \<Rightarrow> None)\<rparr>"

text \<open>The codecs return the value that was encoded.\<close>

definition json_faithful :: "('v \<Rightarrow> string option) \<Rightarrow> (string \<Rightarrow> 'w option) \<Rightarrow> ('w \<Rightarrow> 'v) \<Rightarrow> 'w \<Rightarrow> bool" where
  "json_faithful js dec con v \<longleftrightarrow> (case js (con v) of None \<Rightarrow> False | Some text \<Rightarrow> dec text = Some v)"

lemma served_page:
  "serveDashboard js html now conn client d (get_request [name]) =
    (if plain_segment name then Reply (dashboardPage js html now conn client d (page_at [name]))
     else serveDashboard js html now conn client d (get_request [name]))"
  using dashboard_serves [of "get_request [name]" js html now conn client d]
  by (auto simp: get_request_def clean_path_def plain_segment_def)

lemma served_health:
  "serveDashboard js html now conn client d (get_request [''health'']) = Reply (json_response js (handleHealth now conn client d))"
  by (subst served_page) (simp add: plain_segment_def page_at_def pages_def)

lemma served_metrics:
  "serveDashboard js html now conn client d (get_request [''metrics'']) = Reply (json_response js (handleMetrics now d))"
  by (subst served_page) (simp add: plain_segment_def page_at_def pages_def)

text \<open>
  C20.  What the manager shows of an agent is what the agent is: after a poll of an agent whose dashboard answers, the record holds the
  agent's own health, with its joined channels, its uptime and the numbers of tasks in its own task store, and its own counters, each
  as they were when the page was served; the status becomes \<^verbatim>\<open>online\<close> exactly when the connection was reported healthy, and
  otherwise stays what it was.
\<close>

theorem poll_reports_agent:
  assumes "registry_inv (mnRegistry m)" "GetRecord (mnRegistry m) nick = Some rec" "arDashboardURL rec = url" "url \<noteq> []"
    and "net (url @ ''/health'') = Some (serveDashboard js html t1 conn client (agentDashboard addr hm a1) (get_request [''health'']))"
    and "net (url @ ''/metrics'') = Some (serveDashboard js html t2 conn2 client2 (agentDashboard addr hm a2) (get_request [''metrics'']))"
    and "json_faithful js decH VHealth (Check_health t1 conn client (pdState (agProtocol a1)) hm)"
    and "json_faithful js decM VMetrics (Snapshot_metrics t2 (agMetrics a2))"
  shows "\<exists>rec' h. GetRecord (mnRegistry (pollAgentDashboards (dashboard_fetch net decH decM) now m)) nick = Some rec'
    \<and> arHealth rec' = Some h \<and> arMetrics rec' = Some (Snapshot_metrics t2 (agMetrics a2)) \<and> arLastSeen rec' = now
    \<and> arStatus rec' = (if cvHealthy conn then ''online'' else arStatus rec)
    \<and> hsChannels h = JoinedChannels client \<and> hsUptime h = t1 - hmStartedAt hm
    \<and> tstTotal (hsTaskStats h) = length (ListTasks (pdState (agProtocol a1)))
    \<and> tstCompleted (hsTaskStats h) = length (TasksByStatus (pdState (agProtocol a1)) TaskStatusCompleted)
    \<and> tstBlocked (hsTaskStats h) = length (TasksByStatus (pdState (agProtocol a1)) TaskStatusBlocked)"
proof -
  let ?ft = "dashboard_fetch net decH decM" and ?h = "Check_health t1 conn client (pdState (agProtocol a1)) hm"
  have d: "dbState (agentDashboard addr hm a) = pdState (agProtocol a)" "dbHealth (agentDashboard addr hm a) = hm"
    "dbMetrics (agentDashboard addr hm a) = agMetrics a" for a
    by (simp_all add: agentDashboard_def NewDashboard_def Let_def)
  from assms(7) have "ftHealth ?ft (url @ ''/health'') = Some (Some ?h)"
    by (auto simp: dashboard_fetch_def assms(5) served_health json_response_def handleHealth_def d json_faithful_def
        split: option.splits)
  moreover from assms(8) have "ftMetrics ?ft (url @ ''/metrics'') = Some (Some (Snapshot_metrics t2 (agMetrics a2)))"
    by (auto simp: dashboard_fetch_def assms(6) served_metrics json_response_def handleMetrics_def d json_faithful_def
        split: option.splits)
  moreover have "hsHealthy ?h = cvHealthy conn" "hsChannels ?h = JoinedChannels client" "hsUptime ?h = t1 - hmStartedAt hm"
    "hsTaskStats ?h = taskStats (pdState (agProtocol a1))"
    by (simp_all add: Check_health_def Let_def)
  ultimately show ?thesis
    using assms(2,3,4) poll_lookup [OF assms(1), of ?ft now nick] by (simp add: polled_def taskStats_counts)
qed

text \<open>A drone that was up for five seconds and had never been heard of is polled.\<close>

definition demo_dash_agent :: Agent where
  "demo_dash_agent = initProtocol demo_io Map.empty ''drone'' defaultAppConfig"

theorem poll_reports_agent_witness:
  "\<exists>js html net decH decM rec' h.
    GetRecord (mnRegistry (pollAgentDashboards (dashboard_fetch net decH decM) 9
      (demo_manager\<lparr>mnRegistry := [(''drone'', zeroAgentRecord\<lparr>arNick := ''drone'', arDashboardURL := ''http://d''\<rparr>)]\<rparr>))) ''drone'' = Some rec'
    \<and> net ''http://d/health'' = Some (serveDashboard js html 6000000000 \<lparr>cvConnected = True, cvHealthy = True, cvNick = ''drone''\<rparr>
        (freshClient 0 DefaultConfig :: nat ircClient) (agentDashboard '':8081'' (NewHealthMonitor 1000000000) demo_dash_agent) (get_request [''health'']))
    \<and> arStatus rec' = ''online'' \<and> arHealth rec' = Some h \<and> hsUptime h = 5000000000"
proof -
  let ?conn = "\<lparr>cvConnected = True, cvHealthy = True, cvNick = ''drone''\<rparr>"
  let ?cl = "freshClient 0 DefaultConfig :: nat ircClient"
  let ?hm = "NewHealthMonitor 1000000000"
  let ?rec = "zeroAgentRecord\<lparr>arNick := ''drone'', arDashboardURL := ''http://d''\<rparr>"
  let ?m = "demo_manager\<lparr>mnRegistry := [(''drone'', ?rec)]\<rparr>"
  let ?h = "Check_health 6000000000 ?conn ?cl (pdState (agProtocol demo_dash_agent)) ?hm"
  let ?s = "Snapshot_metrics 6000000001 (agMetrics demo_dash_agent)"
  let ?js = "\<lambda>v. Some (case v of VHealth _ \<Rightarrow> ''h'' | _ \<Rightarrow> ''m'')"
  let ?d = "agentDashboard '':8081'' ?hm demo_dash_agent"
  let ?net = "\<lambda>url. if url = ''http://d'' @ ''/health'' then Some (serveDashboard ?js [] 6000000000 ?conn ?cl ?d (get_request [''health'']))
     else if url = ''http://d'' @ ''/metrics'' then Some (serveDashboard ?js [] 6000000001 ?conn ?cl ?d (get_request [''metrics''])) else None"
  have m: "registry_inv (mnRegistry ?m)" "GetRecord (mnRegistry ?m) ''drone'' = Some ?rec" "arDashboardURL ?rec = ''http://d''"
    by (simp_all add: registry_inv_def keyed_def GetRecord_def)
  have j: "json_faithful ?js (\<lambda>_. Some ?h) VHealth ?h" "json_faithful ?js (\<lambda>_. Some ?s) VMetrics ?s"
    by (simp_all add: json_faithful_def)
  have net: "?net (''http://d'' @ ''/health'') = Some (serveDashboard ?js [] 6000000000 ?conn ?cl ?d (get_request [''health'']))"
    "?net (''http://d'' @ ''/metrics'') = Some (serveDashboard ?js [] 6000000001 ?conn ?cl ?d (get_request [''metrics'']))"
    by (simp_all del: append.simps)
  from poll_reports_agent [OF m(1,2,3) _ net j, where now = 9] obtain rec' h where
    "GetRecord (mnRegistry (pollAgentDashboards (dashboard_fetch ?net (\<lambda>_. Some ?h) (\<lambda>_. Some ?s)) 9 ?m)) ''drone'' = Some rec'"
    "arStatus rec' = ''online''" "arHealth rec' = Some h" "hsUptime h = 5000000000"
    by (auto simp: NewHealthMonitor_def)
  with net(1) show ?thesis
    by (intro exI [of _ ?js] exI [of _ "[]"] exI [of _ ?net] exI [of _ "\<lambda>_. Some ?h"] exI [of _ "\<lambda>_. Some ?s"]
        exI [of _ rec'] exI [of _ h]) simp
qed

end
