(* ===== verification/Node.thy ===== *)
theory Node
  imports Dashboard
begin

text \<open>
  A running agent: the IRC client with the handlers that the agent registers on it, the start with its partial failures, the
  federation set-up and the shutdown of \<^verbatim>\<open>internal/agent/agent.go\<close>.  What the IRC library delivers enters through the client's
  callbacks; the outcome of listening, dialling and of the OpenTelemetry set-up are parameters.
\<close>

section \<open>Construction\<close>

text \<open>The handlers on the IRC client: the dispatcher's, the counting one and those that only log.\<close>

datatype hook = HookDispatch | HookCount | HookLog

text \<open>The channel that stops the heartbeat: not made yet, open, or closed.\<close>

datatype stop_chan = NoChan | OpenChan | ClosedChan

record Node =
  ndCfg :: AppConfig
  ndClient :: "hook ircClient"
  ndAgent :: Agent
  ndHealth :: HealthMonitor
  ndDashboard :: bool
  ndFederation :: "FederationManager option"
  ndDiscoverStop :: stop_chan

definition registerHandlers :: "hook ircClient \<Rightarrow> hook ircClient" where
  "registerHandlers c =
     (let c = snd (OnMessage HookCount c); c = snd (OnJoin HookLog c); c = snd (OnPart HookLog c); c = snd (OnKick HookLog c);
          c = snd (OnError HookLog c); c = snd (OnConnect HookLog c)
      in snd (OnDisconnect HookLog c))"

definition NewWithClient_agent :: "'e io \<Rightarrow> files \<Rightarrow> gotime \<Rightarrow> AppConfig \<Rightarrow> hook ircClient \<Rightarrow> Node" where
  "NewWithClient_agent io fs now cfg client =
     \<lparr>ndCfg = cfg, ndClient = registerHandlers (snd (OnMessage HookDispatch client)),
      ndAgent = initProtocol io fs (cnNick (clConn client)) cfg, ndHealth = NewHealthMonitor now,
      ndDashboard = False, ndFederation = None, ndDiscoverStop = NoChan\<rparr>"

datatype 'e new_error = CreateClientFailed client_error | SetupOTelFailed 'e

definition NewAgent ::
  "(string \<Rightarrow> string \<Rightarrow> bool) \<Rightarrow> 'e option \<Rightarrow> 'e io \<Rightarrow> files \<Rightarrow> gotime \<Rightarrow> AppConfig \<Rightarrow> 'e new_error + Node" where
  "NewAgent valid otel io fs now cfg =
     (case NewClient valid now (cfIRC cfg) of
        Inl e \<Rightarrow> Inl (CreateClientFailed e)
      | Inr client \<Rightarrow>
          (case (if otEndpoint (cfOTel cfg) \<noteq> [] then otel else None) of
             Some e \<Rightarrow> Inl (SetupOTelFailed e)
           | None \<Rightarrow> Inr (NewWithClient_agent io fs now cfg client)))"

section \<open>Events\<close>

text \<open>A call of a handler: the agent afterwards and the texts it sends.\<close>

fun runHook :: "(string \<Rightarrow> string) \<Rightarrow> gotime \<Rightarrow> hook \<times> client_event \<Rightarrow> Agent \<Rightarrow> Agent \<times> outbox" where
  "runHook q now (HookDispatch, EvMessage ev) a =
     (let (pd, ef) = handleMessage now ev (agProtocol a); (a, out) = runHandlers q now (efCalls ef) (a\<lparr>agProtocol := pd\<rparr>)
      in (a, efSends ef @ out))"
| "runHook q now (HookCount, EvMessage ev) a = (a\<lparr>agMetrics := RecordRawMessageReceived (agMetrics a)\<rparr>, [])"
| "runHook q now _ a = (a, [])"

fun runHooks :: "(string \<Rightarrow> string) \<Rightarrow> gotime \<Rightarrow> (hook \<times> client_event) list \<Rightarrow> Agent \<Rightarrow> Agent \<times> outbox" where
  "runHooks q now [] a = (a, [])"
| "runHooks q now (c # cs) a =
     (case runHook q now c a of (a', out) \<Rightarrow> (case runHooks q now cs a' of (a'', out') \<Rightarrow> (a'', out @ out')))"

text \<open>One event of the IRC library; None is a panic of the client's callback.\<close>

definition nodeInput ::
  "(string \<Rightarrow> string) \<Rightarrow> gotime \<Rightarrow> string \<Rightarrow> irc_input \<Rightarrow> Node \<Rightarrow> (Node \<times> outbox \<times> conn_cmd list) option" where
  "nodeInput q now me x nd =
     (case callback now me x (ndClient nd) of
        None \<Rightarrow> None
      | Some (c, calls, cmds) \<Rightarrow>
          (case runHooks q now calls (ndAgent nd) of
             (a, out) \<Rightarrow> Some (nd\<lparr>ndClient := c, ndAgent := a\<rparr>, out, cmds)))"

section \<open>Rules, subscriptions and look-ups\<close>

text \<open>The methods that pass on to a component; those that only return a component are the fields of the records.\<close>

definition OnProtocolMessage_agent :: "handler_ref \<Rightarrow> Agent \<Rightarrow> nat \<times> Agent" where
  "OnProtocolMessage_agent h a = apsnd (\<lambda>pd. a\<lparr>agProtocol := pd\<rparr>) (OnProtocolMessage h (agProtocol a))"

definition on_context :: "(ContextStore \<Rightarrow> ContextStore) \<Rightarrow> Agent \<Rightarrow> Agent" where
  "on_context f a = a\<lparr>agProtocol := (agProtocol a)\<lparr>pdContext := f (pdContext (agProtocol a))\<rparr>\<rparr>"

definition SubscribeContext :: "string \<Rightarrow> Agent \<Rightarrow> nat \<times> Agent" where
  "SubscribeContext component a =
     (case Subscribe component (pdContext (agProtocol a)) of (i, cs) \<Rightarrow> (i, on_context (\<lambda>_. cs) a))"

definition UnsubscribeContext :: "nat \<Rightarrow> Agent \<Rightarrow> Agent" where
  "UnsubscribeContext i a = on_context (Unsubscribe i) a"

definition PendingContextRequests :: "Agent \<Rightarrow> ContextRequest list" where
  "PendingContextRequests a = PendingRequests (pdContext (agProtocol a))"

definition KnownAgents :: "gotime \<Rightarrow> Agent \<Rightarrow> AgentCapability list" where
  "KnownAgents now a = orEmpty (ListActive now) (pdDiscovery (agProtocol a))"

definition AddNotificationRule :: "NotificationRule \<Rightarrow> Agent \<Rightarrow> Agent" where
  "AddNotificationRule rule a = a\<lparr>agNotifier := AddRule rule (agNotifier a)\<rparr>"

definition NotifyCompletionsTo :: "string \<Rightarrow> Agent \<Rightarrow> Agent" where
  "NotifyCompletionsTo channel =
     AddNotificationRule \<lparr>nrEvent = NotifyTaskCompleted, nrChannel = channel, nrFormatter = None\<rparr>"

definition NotifyBlockedTo :: "string \<Rightarrow> Agent \<Rightarrow> Agent" where
  "NotifyBlockedTo channel =
     AddNotificationRule \<lparr>nrEvent = NotifyTaskBlocked, nrChannel = channel, nrFormatter = None\<rparr>"

definition NotifyHelpTo :: "string \<Rightarrow> Agent \<Rightarrow> Agent" where
  "NotifyHelpTo channel =
     AddNotificationRule \<lparr>nrEvent = NotifyHelpNeeded, nrChannel = channel, nrFormatter = None\<rparr>"

text \<open>Each rule adds one notification for each message of its event, and changes nothing for other messages.\<close>

lemma AddNotificationRule_sends:
  "HandleNotification q (agNotifier (AddNotificationRule \<lparr>nrEvent = ev, nrChannel = ch, nrFormatter = None\<rparr> a)) msg
     = HandleNotification q (agNotifier a) msg
       @ (if messageEvent msg = Some ev \<and> DefaultNotificationFormatter q ev msg \<noteq> []
          then [(ch, DefaultNotificationFormatter q ev msg)] else [])"
  by (auto simp: AddNotificationRule_def HandleNotification_def AddRule_def Let_def split: option.split)

theorem notifications_reach_their_channel:
  "HandleNotification q (agNotifier (NotifyCompletionsTo ch a)) msg
     = HandleNotification q (agNotifier a) msg
       @ (if msgAction msg = ActionCompleted then [(ch, DefaultNotificationFormatter q NotifyTaskCompleted msg)] else [])"
  "HandleNotification q (agNotifier (NotifyBlockedTo ch a)) msg
     = HandleNotification q (agNotifier a) msg
       @ (if msgAction msg = ActionBlocked then [(ch, DefaultNotificationFormatter q NotifyTaskBlocked msg)] else [])"
  "HandleNotification q (agNotifier (NotifyHelpTo ch a)) msg
     = HandleNotification q (agNotifier a) msg
       @ (if msgAction msg = ActionHelpNeeded then [(ch, DefaultNotificationFormatter q NotifyHelpNeeded msg)] else [])"
  unfolding NotifyCompletionsTo_def NotifyBlockedTo_def NotifyHelpTo_def AddNotificationRule_sends
  by (auto simp: messageEvent_def actionToEvent_def DefaultNotificationFormatter_def Let_def split: Action.splits)

text \<open>A subscription that is cancelled leaves the agent's subscriptions as they were.\<close>

lemma unsubscribe_undoes:
  assumes "\<forall>(i, _) \<in> set (ctsSubscriptions (pdContext (agProtocol a))). i < ctsNextSubID (pdContext (agProtocol a))"
    and "SubscribeContext component a = (i, a')"
  shows "ctsSubscriptions (pdContext (agProtocol (UnsubscribeContext i a'))) = ctsSubscriptions (pdContext (agProtocol a))"
proof -
  have "filter (\<lambda>(j, _). j \<noteq> ctsNextSubID (pdContext (agProtocol a))) (ctsSubscriptions (pdContext (agProtocol a)))
      = ctsSubscriptions (pdContext (agProtocol a))"
    using assms(1) by (intro filter_True) auto
  with assms(2) show ?thesis
    by (auto simp: SubscribeContext_def UnsubscribeContext_def on_context_def Subscribe_def Unsubscribe_def Let_def)
qed

section \<open>Start\<close>

record 'e start_env =
  seListen :: "'e option"
  seDial :: "'e option"
  seWelcomed :: bool
  seValid :: "string \<Rightarrow> string \<Rightarrow> bool"
  seLinkConnect :: "string \<Rightarrow> 'e option"

datatype 'e start_error =
  DashboardFailed 'e | ConnectFailed "'e connect_error" | FederationClientFailed string client_error | FederationFailed "'e fed_error"

text \<open>One client and one link per configured server; the first configuration that is refused ends the loop.\<close>

fun addLinks ::
  "(string \<Rightarrow> string \<Rightarrow> bool) \<Rightarrow> gotime \<Rightarrow> FederationServerConfig list \<Rightarrow> FederationManager
     \<Rightarrow> (string \<times> client_error) option \<times> FederationManager" where
  "addLinks valid now [] fm = (None, fm)"
| "addLinks valid now (srv # srvs) fm =
     (case (NewClient valid now (fsIRC srv) :: client_error + hook ircClient) of
        Inl e \<Rightarrow> (Some (fsName srv, e), fm)
      | Inr client \<Rightarrow> addLinks valid now srvs (AddLink (fsName srv) (icChannels (fsIRC srv)) fm))"

definition startFederation :: "'e start_env \<Rightarrow> gotime \<Rightarrow> Node \<Rightarrow> 'e start_error option \<times> Node" where
  "startFederation env now nd =
     (case addLinks (seValid env) now (cfFederationServers (ndCfg nd)) NewFederationManager of
        (Some (name, e), fm) \<Rightarrow> (Some (FederationClientFailed name e), nd\<lparr>ndFederation := Some fm\<rparr>)
      | (None, fm) \<Rightarrow>
          let fm = fold AddMapping (cfFederationMappings (ndCfg nd)) fm
          in case Start (seLinkConnect env) fm of
               (_, Inl e) \<Rightarrow> (Some (FederationFailed e), nd\<lparr>ndFederation := Some fm\<rparr>)
             | (_, Inr fm) \<Rightarrow> (None, nd\<lparr>ndFederation := Some fm\<rparr>))"

definition startHeartbeat :: "Node \<Rightarrow> Node" where
  "startHeartbeat nd = (if agCapabilities (ndAgent nd) \<noteq> [] then nd\<lparr>ndDiscoverStop := OpenChan\<rparr> else nd)"

text \<open>The dashboard object exists before it listens, so it stays when listening fails.\<close>

definition Start_agent :: "'e start_env \<Rightarrow> gotime \<Rightarrow> Node \<Rightarrow> 'e start_error option \<times> Node" where
  "Start_agent env now nd =
     (let nd = nd\<lparr>ndDashboard := ndDashboard nd \<or> cfDashboardAddr (ndCfg nd) \<noteq> []\<rparr>
      in case (if cfDashboardAddr (ndCfg nd) \<noteq> [] then seListen env else None) of
           Some e \<Rightarrow> (Some (DashboardFailed e), nd)
         | None \<Rightarrow>
             (case fst (Connect_irc (seDial env) (seWelcomed env) (ndClient nd)) of
                Some e \<Rightarrow> (Some (ConnectFailed e), nd)
              | None \<Rightarrow>
                  (case (if cfFederationServers (ndCfg nd) \<noteq> [] then startFederation env now nd else (None, nd)) of
                     (Some e, nd) \<Rightarrow> (Some e, nd)
                   | (None, nd) \<Rightarrow> (None, startHeartbeat nd))))"

section \<open>Shutdown\<close>

datatype node_act =
  ActStopHeartbeat | ActDisconnectLink string | ActCloseState | ActStopDashboard | ActStopOTel | ActIrc conn_cmd

fun partAll :: "string list \<Rightarrow> 'h ircClient \<Rightarrow> 'h ircClient \<times> conn_cmd list" where
  "partAll [] c = (c, [])"
| "partAll (ch # chs) c = (case Part ch c of (c, cmds) \<Rightarrow> (case partAll chs c of (c, cmds') \<Rightarrow> (c, cmds @ cmds')))"

text \<open>A second shutdown of an agent with a heartbeat closes a closed channel, which panics.\<close>

definition Shutdown_agent :: "'e io \<Rightarrow> gotime \<Rightarrow> files \<Rightarrow> Node \<Rightarrow> (Node \<times> files \<times> node_act list) option" where
  "Shutdown_agent io now fs nd =
     (if ndDiscoverStop nd = ClosedChan then None
      else
        let a = ndAgent nd;
            (persist, fs) = (case agPersist a of
                               None \<Rightarrow> (None, fs)
                             | Some sp \<Rightarrow> apfst Some (Close io now (pdState (agProtocol a)) sp fs));
            (c, parts) = partAll (JoinedChannels (ndClient nd)) (ndClient nd)
        in Some (nd\<lparr>ndDiscoverStop := (if ndDiscoverStop nd = OpenChan then ClosedChan else NoChan), ndClient := c,
                    ndAgent := a\<lparr>agPersist := persist\<rparr>\<rparr>, fs,
             (if ndDiscoverStop nd = OpenChan then [ActStopHeartbeat] else [])
             @ (case ndFederation nd of None \<Rightarrow> [] | Some fm \<Rightarrow> map ActDisconnectLink (Shutdown fm))
             @ (if agPersist a \<noteq> None then [ActCloseState] else [])
             @ (if ndDashboard nd then [ActStopDashboard] else [])
             @ (if otEndpoint (cfOTel (ndCfg nd)) \<noteq> [] then [ActStopOTel] else [])
             @ map ActIrc (parts @ Disconnect)))"

section \<open>Messages reach the agent\<close>

text \<open>What happens to a node: an event of the IRC library, a message of its own, a tick of the heartbeat.\<close>

datatype node_op = NIrc irc_input | NSend string Message | NBeat

fun node_step :: "(string \<Rightarrow> string) \<Rightarrow> gotime \<Rightarrow> string \<Rightarrow> node_op \<Rightarrow> Node \<Rightarrow> Node option" where
  "node_step q now me (NIrc x) nd = map_option fst (nodeInput q now me x nd)"
| "node_step q now me (NSend target m) nd = Some (nd\<lparr>ndAgent := fst (snd (SendProtocolMessage now target m (ndAgent nd)))\<rparr>)"
| "node_step q now me NBeat nd = Some (nd\<lparr>ndAgent := fst (heartbeat now (JoinedChannels (ndClient nd)) (ndAgent nd))\<rparr>)"

fun run_node :: "(string \<Rightarrow> string) \<Rightarrow> (gotime \<times> string \<times> node_op) list \<Rightarrow> Node \<Rightarrow> Node option" where
  "run_node q [] nd = Some nd"
| "run_node q ((now, me, x) # xs) nd =
     (case node_step q now me x nd of None \<Rightarrow> None | Some nd' \<Rightarrow> run_node q xs nd')"

lemma callback_keeps_handlers:
  "callback now me x c = Some (c', calls, cmds) \<Longrightarrow> clMsgHandlers c' = clMsgHandlers c \<and> clCfg c' = clCfg c"
  by (cases x) (auto simp: onPrivmsg_def onNotice_def onJoin_def onPart_def onKick_def onError_def onWelcome_def Let_def
      split: list.splits if_splits)

lemma run_node_induct:
  assumes "run_node q xs nd = Some nd'"
    and "\<And>now me x nd nd'. node_step q now me x nd = Some nd' \<Longrightarrow> f nd' = f nd"
  shows "f nd' = f nd"
  using assms(1)
proof (induction xs arbitrary: nd)
  case (Cons nmx xs)
  obtain now me x where nmx: "nmx = (now, me, x)" by (cases nmx) auto
  with Cons.prems obtain nd1 where 1: "node_step q now me x nd = Some nd1" "run_node q xs nd1 = Some nd'"
    by (auto split: option.splits)
  from Cons.IH [OF 1(2)] assms(2) [OF 1(1)] show ?case by simp
qed simp

lemma node_step_client:
  assumes "node_step q now me x nd = Some nd'"
  shows "clMsgHandlers (ndClient nd') = clMsgHandlers (ndClient nd)"
proof (cases x)
  case (NIrc x')
  with assms callback_keeps_handlers [of now me x' "ndClient nd"] show ?thesis
    by (auto simp: nodeInput_def split: option.splits prod.splits)
qed (use assms in auto)

lemma run_node_handlers:
  assumes "run_node q xs nd = Some nd'"
  shows "clMsgHandlers (ndClient nd') = clMsgHandlers (ndClient nd)"
  by (rule run_node_induct [OF assms]) (rule node_step_client)

lemma registered_handlers:
  assumes "NewAgent valid otel io fs now cfg = Inr nd"
  shows "clMsgHandlers (ndClient nd) = [(0, HookDispatch), (1, HookCount)]" "ndCfg nd = cfg"
    "agPersist (ndAgent nd) = (if cfStateFile cfg \<noteq> [] then Some (NewStatePersistence (cfStateFile cfg) 5000000000) else None)"
proof -
  from assms obtain client where "NewClient valid now (cfIRC cfg) = Inr client"
    "nd = NewWithClient_agent io fs now cfg client" by (auto simp: NewAgent_def split: sum.splits option.splits if_splits)
  then have nd: "nd = NewWithClient_agent io fs now cfg (freshClient now (cfIRC cfg))"
    by (auto simp: NewClient_def split: if_splits)
  show "clMsgHandlers (ndClient nd) = [(0, HookDispatch), (1, HookCount)]"
    by (simp add: nd NewWithClient_agent_def registerHandlers_def OnMessage_def OnJoin_def OnPart_def OnKick_def OnError_def
        OnConnect_def OnDisconnect_def freshClient_def Let_def)
  show "ndCfg nd = cfg" by (simp add: nd NewWithClient_agent_def)
  show "agPersist (ndAgent nd) = (if cfStateFile cfg \<noteq> [] then Some (NewStatePersistence (cfStateFile cfg) 5000000000) else None)"
    by (simp add: nd NewWithClient_agent_def initProtocol_def Let_def)
qed


section \<open>Shutdown and restart\<close>

lemma partAll_result:
  "partAll chs c = (c\<lparr>clChannels := fold mdel chs (clChannels c)\<rparr>, map CmdPart chs)"
  by (induction chs arbitrary: c) (simp_all add: Part_def)

lemma fold_mdel_keys: "fold mdel (mkeys xs) xs = []"
proof -
  have "map_of (fold mdel ks xs) k = (if k \<in> set ks then None else map_of xs k)" for ks k and xs :: "'a gomap"
    by (induction ks arbitrary: xs) auto
  then have "map_of (fold mdel (mkeys xs) xs) k = None" for k by (auto simp: map_of_eq_None_iff)
  then show ?thesis by (metis list.set_cases map_of_eq_None_iff empty_iff list.exhaust list.set_intros(1) image_eqI)
qed

lemma Save_path: "spPath sp = spPath sp' \<Longrightarrow> Save io now sp s fs = Save io now sp' s fs"
  by (simp only: Save_def)

definition state_path :: "Agent \<Rightarrow> string option" where
  "state_path a = map_option spPath (agPersist a)"

lemma state_path_dirty [simp]: "map_option spPath (map_option (MarkDirty now) p) = map_option spPath p"
  by (cases p) (simp_all add: MarkDirty_def)

lemma state_path_send: "SendProtocolMessage now t m a = (err, a', out) \<Longrightarrow> state_path a' = state_path a"
  by (auto simp: SendProtocolMessage_def state_path_def Let_def split: option.splits if_splits)

lemma state_path_sendAll: "sendAll now ms a = (a', out) \<Longrightarrow> state_path a' = state_path a"
proof (induction now ms a arbitrary: a' out rule: sendAll.induct)
  case (2 now target msg ms a)
  obtain err a1 out1 where 1: "SendProtocolMessage now target msg a = (err, a1, out1)"
    by (cases "SendProtocolMessage now target msg a")
  obtain a2 out2 where 2: "sendAll now ms a1 = (a2, out2)" by (cases "sendAll now ms a1")
  from "2.IH" [OF 1 [symmetric] refl 2] state_path_send [OF 1] "2.prems" 1 2 show ?case by simp
qed simp

lemma state_path_runHandler: "runHandler q now c a = (a', out) \<Longrightarrow> state_path a' = state_path a"
proof (induction q now c a arbitrary: a' out rule: runHandler.induct)
  case (5 q now msg a)
  then show ?case by (auto split: option.splits dest: state_path_sendAll)
qed (auto simp: state_path_def split: if_splits)

lemma state_path_runHandlers: "runHandlers q now cs a = (a', out) \<Longrightarrow> state_path a' = state_path a"
proof (induction cs arbitrary: a a' out)
  case (Cons c cs)
  obtain a1 out1 where 1: "runHandler q now c a = (a1, out1)" by (cases "runHandler q now c a")
  obtain a2 out2 where 2: "runHandlers q now cs a1 = (a2, out2)" by (cases "runHandlers q now cs a1")
  from Cons.IH [OF 2] state_path_runHandler [OF 1] Cons.prems 1 2 show ?case by simp
qed simp

lemma state_path_hook: "runHook q now c a = (a', out) \<Longrightarrow> state_path a' = state_path a"
proof (induction q now c a arbitrary: a' out rule: runHook.induct)
  case (1 q now ev a)
  obtain pd ef where pd: "handleMessage now ev (agProtocol a) = (pd, ef)" by (cases "handleMessage now ev (agProtocol a)")
  obtain a1 out1 where 1: "runHandlers q now (efCalls ef) (a\<lparr>agProtocol := pd\<rparr>) = (a1, out1)"
    by (cases "runHandlers q now (efCalls ef) (a\<lparr>agProtocol := pd\<rparr>)")
  from state_path_runHandlers [OF 1] "1.prems" pd 1 show ?case by (simp add: state_path_def)
qed (auto simp: state_path_def)

lemma state_path_hooks: "runHooks q now cs a = (a', out) \<Longrightarrow> state_path a' = state_path a"
proof (induction cs arbitrary: a a' out)
  case (Cons c cs)
  obtain a1 out1 where 1: "runHook q now c a = (a1, out1)" by (cases "runHook q now c a")
  obtain a2 out2 where 2: "runHooks q now cs a1 = (a2, out2)" by (cases "runHooks q now cs a1")
  from Cons.IH [OF 2] state_path_hook [OF 1] Cons.prems 1 2 show ?case by simp
qed simp

lemma node_step_path:
  assumes "node_step q now me x nd = Some nd'"
  shows "state_path (ndAgent nd') = state_path (ndAgent nd)" "ndDiscoverStop nd' = ndDiscoverStop nd"
proof -
  have "state_path (ndAgent nd') = state_path (ndAgent nd) \<and> ndDiscoverStop nd' = ndDiscoverStop nd"
  proof (cases x)
    case (NIrc x')
    with assms show ?thesis
      by (auto simp: nodeInput_def split: option.splits prod.splits dest: state_path_hooks)
  next
    case (NSend t m)
    obtain err a out where "SendProtocolMessage now t m (ndAgent nd) = (err, a, out)"
      by (cases "SendProtocolMessage now t m (ndAgent nd)")
    with assms NSend state_path_send [OF this] show ?thesis by auto
  next
    case NBeat
    have "state_path (fst (heartbeat now ch a)) = state_path a" for ch a
    proof -
      obtain a1 out where 1: "announceCapabilities now ch a = (a1, out)" by (cases "announceCapabilities now ch a")
      then have "state_path a1 = state_path a"
        by (auto simp: announceCapabilities_def dest: state_path_sendAll split: if_splits)
      then show ?thesis by (simp add: heartbeat_def 1 state_path_def)
    qed
    with assms NBeat show ?thesis by auto
  qed
  then show "state_path (ndAgent nd') = state_path (ndAgent nd)" "ndDiscoverStop nd' = ndDiscoverStop nd" by simp_all
qed

lemma state_path_run:
  assumes "run_node q xs nd = Some nd'"
  shows "state_path (ndAgent nd') = state_path (ndAgent nd) \<and> ndDiscoverStop nd' = ndDiscoverStop nd"
  using run_node_induct [OF assms, of "\<lambda>nd. state_path (ndAgent nd)"] run_node_induct [OF assms, of ndDiscoverStop]
    node_step_path by blast

lemma startFederation_keeps:
  "startFederation env now nd = (err, nd') \<Longrightarrow>
     ndAgent nd' = ndAgent nd \<and> ndClient nd' = ndClient nd \<and> ndDiscoverStop nd' = ndDiscoverStop nd \<and> ndCfg nd' = ndCfg nd"
  by (auto simp: startFederation_def Let_def split: prod.splits option.splits sum.splits)

lemma Start_keeps:
  assumes "Start_agent env now nd = (err, nd')"
  shows "ndAgent nd' = ndAgent nd \<and> ndClient nd' = ndClient nd \<and> ndCfg nd' = ndCfg nd
    \<and> (ndDiscoverStop nd \<noteq> ClosedChan \<longrightarrow> ndDiscoverStop nd' \<noteq> ClosedChan)"
proof -
  let ?nd = "nd\<lparr>ndDashboard := ndDashboard nd \<or> cfDashboardAddr (ndCfg nd) \<noteq> []\<rparr>"
  obtain e1 nd1 where 1: "startFederation env now ?nd = (e1, nd1)" by (cases "startFederation env now ?nd")
  from startFederation_keeps [OF 1] assms 1 show ?thesis
    by (auto simp: Start_agent_def startHeartbeat_def Let_def split: option.splits if_splits)
qed

lemma initProtocol_state: "pdState (agProtocol (initProtocol io fs nick cfg)) = loadedState io fs cfg"
  by (simp add: initProtocol_def OnProtocolMessage_def NewProtocolDispatcher_def Let_def split: option.split)

lemma NewAgent_again:
  assumes "NewAgent valid otel io fs t0 cfg = Inr nd0"
  obtains nd where "NewAgent valid otel io fs' t cfg = Inr nd" "pdState (agProtocol (ndAgent nd)) = loadedState io fs' cfg"
proof -
  from assms have "\<not> (otEndpoint (cfOTel cfg) \<noteq> [] \<and> otel \<noteq> None)" "Validate (cfIRC cfg) = []"
    "valid (icNick (cfIRC cfg)) (icUsername (cfIRC cfg))"
    by (auto simp: NewAgent_def NewClient_def split: if_splits option.splits)
  then have "NewAgent valid otel io fs' t cfg = Inr (NewWithClient_agent io fs' t cfg (freshClient t (cfIRC cfg)))"
    by (auto simp: NewAgent_def NewClient_def)
  then show ?thesis using that by (simp add: NewWithClient_agent_def initProtocol_state)
qed


section \<open>What a start needs\<close>

text \<open>An agent starts without an error exactly when its dashboard, if it has one, can listen, the server welcomes it, and its
  federation, if it has one, has acceptable configurations and links that connect.\<close>

lemma addLinks_ok:
  "fst (addLinks valid now srvs fm) = None \<longleftrightarrow>
     (\<forall>srv \<in> set srvs. Validate (fsIRC srv) = [] \<and> valid (icNick (fsIRC srv)) (icUsername (fsIRC srv)))"
proof (induction srvs arbitrary: fm)
  case (Cons srv srvs)
  show ?case
  proof (cases "NewClient valid now (fsIRC srv) :: client_error + hook ircClient")
    case (Inl e)
    then show ?thesis by (auto simp: NewClient_def split: if_splits)
  next
    case (Inr c)
    then have "Validate (fsIRC srv) = [] \<and> valid (icNick (fsIRC srv)) (icUsername (fsIRC srv))"
      by (auto simp: NewClient_def split: if_splits)
    with Inr Cons.IH show ?thesis by simp
  qed
qed simp

lemma addLinks_links:
  "addLinks valid now srvs fm = (None, fm') \<Longrightarrow>
     set (mkeys (fmLinks fm')) = fsName ` set srvs \<union> set (mkeys (fmLinks fm))"
proof (induction srvs arbitrary: fm)
  case (Cons srv srvs)
  from Cons.prems obtain c :: "hook ircClient" where "NewClient valid now (fsIRC srv) = Inr c"
    "addLinks valid now srvs (AddLink (fsName srv) (icChannels (fsIRC srv)) fm) = (None, fm')"
    by (auto split: sum.splits)
  from Cons.IH [OF this(2)] show ?case by (simp add: AddLink_def dom_update)
qed simp

lemma connect_loop_ok: "snd (connect_loop connect names) = None \<longleftrightarrow> (\<forall>n \<in> set names. connect n = None)"
  by (induction names) (auto split: option.split prod.split)

lemma fold_AddMapping_links: "fmLinks (fold AddMapping ms fm) = fmLinks fm"
  by (induction ms arbitrary: fm) (simp_all add: AddMapping_def)

lemma startFederation_ok:
  "fst (startFederation env now nd) = None \<longleftrightarrow>
     (\<forall>srv \<in> set (cfFederationServers (ndCfg nd)).
        Validate (fsIRC srv) = [] \<and> seValid env (icNick (fsIRC srv)) (icUsername (fsIRC srv)) \<and> seLinkConnect env (fsName srv) = None)"
proof -
  obtain err fm where l: "addLinks (seValid env) now (cfFederationServers (ndCfg nd)) NewFederationManager = (err, fm)"
    by (cases "addLinks (seValid env) now (cfFederationServers (ndCfg nd)) NewFederationManager")
  show ?thesis
  proof (cases err)
    case None
    have "set (mkeys (fmLinks fm)) = fsName ` set (cfFederationServers (ndCfg nd))"
      using addLinks_links [OF l [unfolded None]] by (simp add: NewFederationManager_def)
    moreover obtain cs e where "connect_loop (seLinkConnect env) (mkeys (fmLinks fm)) = (cs, e)"
      by (cases "connect_loop (seLinkConnect env) (mkeys (fmLinks fm))")
    ultimately show ?thesis
      using addLinks_ok [of "seValid env" now "cfFederationServers (ndCfg nd)" NewFederationManager]
        connect_loop_ok [of "seLinkConnect env" "mkeys (fmLinks fm)"]
      by (auto simp: startFederation_def l None Start_def Let_def fold_AddMapping_links split: option.split)
  next
    case (Some ne)
    with addLinks_ok [of "seValid env" now "cfFederationServers (ndCfg nd)" NewFederationManager] l show ?thesis
      by (cases ne) (auto simp: startFederation_def)
  qed
qed

theorem start_succeeds_iff:
  "fst (Start_agent env now nd) = None \<longleftrightarrow>
     (cfDashboardAddr (ndCfg nd) = [] \<or> seListen env = None) \<and> seDial env = None \<and> seWelcomed env
     \<and> (\<forall>srv \<in> set (cfFederationServers (ndCfg nd)).
          Validate (fsIRC srv) = [] \<and> seValid env (icNick (fsIRC srv)) (icUsername (fsIRC srv)) \<and> seLinkConnect env (fsName srv) = None)"
proof -
  let ?nd = "nd\<lparr>ndDashboard := ndDashboard nd \<or> cfDashboardAddr (ndCfg nd) \<noteq> []\<rparr>"
  obtain e1 nd1 where "startFederation env now ?nd = (e1, nd1)" by (cases "startFederation env now ?nd")
  with startFederation_ok [of env now ?nd] show ?thesis
    by (auto simp: Start_agent_def Connect_irc_def Let_def split: option.splits)
qed

section \<open>The first announcement\<close>

text \<open>
  The welcome only asks to join, so the announcement that the heartbeat sends on starting goes to no channel unless a join of the agent's own has been
  seen by then.
\<close>

theorem first_announcement_goes_nowhere:
  assumes "run_inputs xs (freshClient t0 cfg :: hook ircClient) = Some c"
    and "\<forall>(_, me, x) \<in> set xs. \<forall>ch. membership me x \<noteq> Some (ch, True)"
  shows "announceCapabilities now (JoinedChannels c) a = (a, [])"
proof -
  have "ch \<notin> set (JoinedChannels c)" for ch
  proof
    assume "ch \<in> set (JoinedChannels c)"
    then have "map_of (clChannels c) ch \<noteq> None" by (simp add: JoinedChannels_def map_of_eq_None_iff)
    with run_inputs_track [OF assms(1), of ch] have "fold (track ch) xs False" by simp
    then obtain ys now me x zs where "xs = ys @ (now, me, x) # zs" "membership me x = Some (ch, True)"
      unfolding track_latest by blast
    with assms(2) show False by force
  qed
  then have "JoinedChannels c = []" by (metis list.set_intros(1) list.exhaust)
  then show ?thesis by (simp add: announceCapabilities_def)
qed

section \<open>An agent that comes and goes\<close>

definition demo_node_config :: AppConfig where
  "demo_node_config = defaultAppConfig\<lparr>cfStateFile := ''state.json'', cfIRC := DefaultConfig\<lparr>icServer := ''irc:6697'', icNick := ''drone'',
     icUsername := ''u'', icPassword := ''p'', icChannels := [''#dev'']\<rparr>\<rparr>"

definition demo_node :: Node where
  "demo_node = NewWithClient_agent toy_io Map.empty 0 demo_node_config (freshClient 0 (cfIRC demo_node_config))"

definition calm :: "string start_env" where
  "calm = \<lparr>seListen = None, seDial = None, seWelcomed = True, seValid = (\<lambda>_ _. True), seLinkConnect = (\<lambda>_. None)\<rparr>"

lemma demo_node_new: "NewAgent (\<lambda>_ _. True) None toy_io Map.empty 0 demo_node_config = Inr demo_node"
  by (simp add: NewAgent_def NewClient_def Validate_def demo_node_config_def demo_node_def DefaultConfig_def)

lemma demo_node_state: "pdState (agProtocol (ndAgent demo_node)) = NewStateStore"
  by (simp add: demo_node_def NewWithClient_agent_def initProtocol_state loadedState_def demo_node_config_def Load_def
      NewStatePersistence_def)


lemma demo_node_start: "Start_agent calm 1 demo_node = (None, demo_node)"
proof -
  have "ndCfg demo_node = demo_node_config" "agCapabilities (ndAgent demo_node) = []"
    by (simp_all add: demo_node_def NewWithClient_agent_def initProtocol_def demo_node_config_def defaultAppConfig_def
        roleEngineFor_def Let_def)
  moreover have "demo_node\<lparr>ndDashboard := ndDashboard demo_node\<rparr> = demo_node" by simp
  ultimately show ?thesis
    by (simp add: Start_agent_def Connect_irc_def calm_def startHeartbeat_def demo_node_config_def defaultAppConfig_def Let_def)
qed

lemma demo_node_run:
  "\<exists>nd. run_node (\<lambda>s. s) [(1, ''drone'', NIrc (InJoin (demo_irc ''drone'' [''#dev''])))] demo_node = Some nd
    \<and> pdState (agProtocol (ndAgent nd)) = NewStateStore \<and> JoinedChannels (ndClient nd) = [''#dev'']"
proof -
  have c: "clJoinHandlers (ndClient demo_node) = [(2, HookLog)]" "clChannels (ndClient demo_node) = []"
    by (simp_all add: demo_node_def NewWithClient_agent_def registerHandlers_def OnMessage_def OnJoin_def OnPart_def OnKick_def
        OnError_def OnConnect_def OnDisconnect_def freshClient_def Let_def)
  then show ?thesis
    by (simp add: nodeInput_def onJoin_def demo_irc_def call_all_def JoinedChannels_def demo_node_state Let_def)
qed


theorem first_announcement_goes_nowhere_witness:
  "announceCapabilities 5 (JoinedChannels (freshClient 0 DefaultConfig :: hook ircClient)) (ndAgent demo_node) = (ndAgent demo_node, [])"
proof -
  have r: "run_inputs [(1, ''drone'', InWelcome)] (freshClient 0 DefaultConfig :: hook ircClient) = Some (freshClient 0 DefaultConfig)"
    by (simp add: onWelcome_def freshClient_def NewBackoff_def Reset_backoff_def DefaultConfig_def Let_def)
  from first_announcement_goes_nowhere [OF r] show ?thesis by simp
qed

end
