(* ===== verification/Programs.thy ===== *)
theory Programs
  imports Node ManagerServer
begin

text \<open>
  The programs: \<^verbatim>\<open>cmd/agent/main.go\<close> and \<^verbatim>\<open>cmd/manager/main.go\<close> from their command line to the running program, with every exit on the way,
  the logger (\<^verbatim>\<open>internal/logging\<close>), the wait for the end (\<^verbatim>\<open>lifecycle.go\<close>), and the running manager of \<^verbatim>\<open>internal/manager/manager.go\<close>:
  its start, what reaches it and its shutdown.
\<close>

section \<open>The logger\<close>

datatype log_level = LevelDebug | LevelInfo | LevelWarn | LevelError

record logger =
  lgLevel :: log_level
  lgJSON :: bool

definition Setup_logging :: "string \<Rightarrow> string \<Rightarrow> logger" where
  "Setup_logging level format =
     (let l = ToLower level
      in \<lparr>lgLevel = (if l = ''debug'' then LevelDebug
                     else if l = ''warn'' \<or> l = ''warning'' then LevelWarn
                     else if l = ''error'' then LevelError else LevelInfo),
          lgJSON = (ToLower format = ''json'')\<rparr>)"

section \<open>Banners\<close>

record build_info =
  bdVersion :: string
  bdCommit :: string
  bdTime :: string
  bdFixed1 :: "float64 \<Rightarrow> string"

definition versionLine :: "string \<Rightarrow> build_info \<Rightarrow> string" where
  "versionLine name bd = name @ '' '' @ bdVersion bd @ '' (commit: '' @ bdCommit bd @ '', built: '' @ bdTime bd @ '')''"

definition security :: "Config \<Rightarrow> string" where
  "security c = ''TLS'' @ (if icSASL c then '', SASL '' @ icSASLMech c else [])"

definition channelList :: "Config \<Rightarrow> string" where
  "channelList c = (let channels = Join (icChannels c) '', '' in if channels = [] then ''(none)'' else channels)"

definition printBanner_agent :: "build_info \<Rightarrow> AppConfig \<Rightarrow> string list" where
  "printBanner_agent bd cfg =
     [''borg '' @ bdVersion bd @ '' (commit: '' @ bdCommit bd @ '')'',
      ''  Server:     '' @ icServer (cfIRC cfg) @ '' ('' @ security (cfIRC cfg) @ '')'',
      ''  Nick:       '' @ icNick (cfIRC cfg),
      ''  Channels:   '' @ channelList (cfIRC cfg)]
     @ (if icRateLimit (cfIRC cfg) > 0
        then [''  Rate limit: '' @ bdFixed1 bd (icRateLimit (cfIRC cfg)) @ '' msg/s (burst: '' @ itoa (icRateLimitBurst (cfIRC cfg)) @ '')'']
        else [])
     @ (if cfDashboardAddr cfg \<noteq> [] then [''  Dashboard:  http://localhost'' @ cfDashboardAddr cfg] else [])
     @ [[]]"

definition printBanner_manager :: "build_info \<Rightarrow> ManagerConfig \<Rightarrow> string list" where
  "printBanner_manager bd cfg =
     [''queen '' @ bdVersion bd @ '' (commit: '' @ bdCommit bd @ '')'',
      ''  IRC Server: '' @ icServer (mgIRC cfg) @ '' ('' @ security (mgIRC cfg) @ '')'',
      ''  Nick:       '' @ icNick (mgIRC cfg),
      ''  Channels:   '' @ channelList (mgIRC cfg),
      ''  Web UI:     http://localhost'' @ mgListenAddr cfg]
     @ (if mgAgentBinary cfg \<noteq> [] then [''  Agent bin:  '' @ mgAgentBinary cfg] else [])
     @ [[]]"

section \<open>The agent program\<close>

text \<open>
  What \<^verbatim>\<open>main\<close> comes to: an exit with a code after what was printed on the standard output, or the program that is up and waits, with its logger.
\<close>

datatype 'n program = Exits nat "string list" | Up logger "string list" 'n

definition load_exit :: "'e load_error \<Rightarrow> nat" where
  "load_exit e = (case e of ErrFlag f \<Rightarrow> if f = HelpRequested then 0 else 1 | ErrFile _ \<Rightarrow> 1)"

definition agentMain ::
  "build_info \<Rightarrow> ('e, fileConfig) sys \<Rightarrow> (string \<Rightarrow> string \<Rightarrow> bool) \<Rightarrow> 'o option \<Rightarrow> 'o io \<Rightarrow> files \<Rightarrow> 'e start_env
    \<Rightarrow> gotime \<Rightarrow> string list \<Rightarrow> Node program" where
  "agentMain bd sys valid otel io fs env now args =
     (if args \<noteq> [] \<and> hd args = ''--version'' then Exits 0 [versionLine ''borg'' bd]
      else
        case Load_config sys args of
          Inl e \<Rightarrow> Exits (load_exit e) []
        | Inr cfg \<Rightarrow>
            if Validate (cfIRC cfg) \<noteq> [] then Exits 1 []
            else
              case NewAgent valid otel io fs now cfg of
                Inl e \<Rightarrow> Exits 1 []
              | Inr nd \<Rightarrow>
                  (case Start_agent env now nd of
                     (Some e, _) \<Rightarrow> Exits 1 (printBanner_agent bd cfg)
                   | (None, nd) \<Rightarrow> Up (Setup_logging (cfLogLevel cfg) (cfLogFmt cfg)) (printBanner_agent bd cfg) nd))"

text \<open>
  The wait ends with a signal or the context; the shutdown is given ten seconds (\<open>inTime\<close>), after which the program goes without waiting for
  it.  A panic in the shutdown ends the program with code 2.
\<close>

datatype ending = Panicked | Forced | Clean Node files "node_act list"

definition lifecycle_shutdown :: "'o io \<Rightarrow> gotime \<Rightarrow> files \<Rightarrow> bool \<Rightarrow> Node \<Rightarrow> ending" where
  "lifecycle_shutdown io now fs inTime nd =
     (case Shutdown_agent io now fs nd of
        None \<Rightarrow> Panicked
      | Some (nd, fs, acts) \<Rightarrow> if inTime then Clean nd fs acts else Forced)"

definition ending_code :: "ending \<Rightarrow> nat" where
  "ending_code e = (case e of Panicked \<Rightarrow> 2 | _ \<Rightarrow> 0)"

section \<open>The manager program\<close>

datatype mgr_hook = HookManager

record ManagerNode =
  mdManager :: Manager
  mdClient :: "mgr_hook ircClient"
  mdServer :: bool
  mdPollStop :: stop_chan

definition NewManagerNode :: "(string \<Rightarrow> string \<Rightarrow> bool) \<Rightarrow> gotime \<Rightarrow> ManagerConfig \<Rightarrow> client_error + ManagerNode" where
  "NewManagerNode valid now cfg =
     map_sum (\<lambda>e. e) (\<lambda>(m, c). \<lparr>mdManager = m, mdClient = c, mdServer = False, mdPollStop = NoChan\<rparr>) (NewManager valid now cfg)"

datatype 'e mgr_start_error = IrcConnectFailed "'e connect_error" | WebServerFailed 'e

definition Start_manager :: "'e start_env \<Rightarrow> ManagerNode \<Rightarrow> 'e mgr_start_error option \<times> ManagerNode" where
  "Start_manager env mn =
     (let mn = mn\<lparr>mdClient := snd (OnMessage HookManager (mdClient mn))\<rparr>
      in case fst (Connect_irc (seDial env) (seWelcomed env) (mdClient mn)) of
           Some e \<Rightarrow> (Some (IrcConnectFailed e), mn)
         | None \<Rightarrow>
             let mn = mn\<lparr>mdServer := True\<rparr>
             in case seListen env of
                  Some e \<Rightarrow> (Some (WebServerFailed e), mn)
                | None \<Rightarrow> (None, mn\<lparr>mdPollStop := OpenChan\<rparr>))"

datatype mgr_act = ActStopPoll | ActStopServer | ActMgrIrc conn_cmd

definition Shutdown_manager :: "ManagerNode \<Rightarrow> (ManagerNode \<times> mgr_act list) option" where
  "Shutdown_manager mn =
     (if mdPollStop mn = ClosedChan then None
      else Some (mn\<lparr>mdPollStop := (if mdPollStop mn = OpenChan then ClosedChan else NoChan)\<rparr>,
                 (if mdPollStop mn = OpenChan then [ActStopPoll] else [])
                 @ (if mdServer mn then [ActStopServer] else []) @ map ActMgrIrc Disconnect))"

definition managerMain ::
  "build_info \<Rightarrow> ('e, mgrFileConfig) sys \<Rightarrow> (string \<Rightarrow> string \<Rightarrow> bool) \<Rightarrow> 'e start_env \<Rightarrow> gotime \<Rightarrow> string list
    \<Rightarrow> ManagerNode program" where
  "managerMain bd sys valid env now args =
     (if args \<noteq> [] \<and> hd args = ''--version'' then Exits 0 [versionLine ''queen'' bd]
      else
        case LoadConfig sys args of
          Inl e \<Rightarrow> Exits (load_exit e) []
        | Inr cfg \<Rightarrow>
            if Validate (mgIRC cfg) \<noteq> [] then Exits 1 []
            else
              case NewManagerNode valid now cfg of
                Inl e \<Rightarrow> Exits 1 []
              | Inr mn \<Rightarrow>
                  (case Start_manager env mn of
                     (Some e, _) \<Rightarrow> Exits 1 (printBanner_manager bd cfg)
                   | (None, mn) \<Rightarrow> Up (Setup_logging (mgLogLevel cfg) (mgLogFmt cfg)) (printBanner_manager bd cfg) mn))"

section \<open>The running manager\<close>

fun runMgrHook ::
  "json_codec \<Rightarrow> (string \<Rightarrow> float64 option) \<Rightarrow> gotime \<Rightarrow> mgr_hook \<times> client_event \<Rightarrow> Manager \<Rightarrow> Manager option" where
  "runMgrHook js other now (HookManager, EvMessage ev) m = handleIRCMessage js other now ev m"
| "runMgrHook js other now _ m = Some m"

fun runMgrHooks ::
  "json_codec \<Rightarrow> (string \<Rightarrow> float64 option) \<Rightarrow> gotime \<Rightarrow> (mgr_hook \<times> client_event) list \<Rightarrow> Manager \<Rightarrow> Manager option" where
  "runMgrHooks js other now [] m = Some m"
| "runMgrHooks js other now (c # cs) m = Option.bind (runMgrHook js other now c m) (runMgrHooks js other now cs)"

text \<open>What reaches a manager: an event of the IRC library, a request, the end of an event stream, a tick of the poller.  None is a panic.\<close>

datatype 'e mgr_op =
  MIrc gotime string irc_input
| MHttp "'e host" "gotime \<times> gotime \<times> gotime" nat request
| MGone nat
| MPoll fetch gotime

fun manager_step ::
  "json_codec \<Rightarrow> (string \<Rightarrow> float64 option) \<Rightarrow> 'e web \<Rightarrow> 'e mgr_op \<Rightarrow> ManagerNode \<Rightarrow> ManagerNode option" where
  "manager_step js other web (MIrc now me x) mn =
     (case callback now me x (mdClient mn) of
        None \<Rightarrow> None
      | Some (c, calls, _) \<Rightarrow>
          map_option (\<lambda>m. mn\<lparr>mdClient := c, mdManager := m\<rparr>) (runMgrHooks js other now calls (mdManager mn)))"
| "manager_step js other web (MHttp host clk c req) mn =
     map_option (\<lambda>(_, m). mn\<lparr>mdManager := m\<rparr>) (serveManager host js web clk c req (mdManager mn))"
| "manager_step js other web (MGone c) mn =
     map_option (\<lambda>h. mn\<lparr>mdManager := (mdManager mn)\<lparr>mnHub := h\<rparr>\<rparr>) (Unregister c (mnHub (mdManager mn)))"
| "manager_step js other web (MPoll ft now) mn = Some (mn\<lparr>mdManager := pollAgentDashboards ft now (mdManager mn)\<rparr>)"

inductive manager_run ::
  "json_codec \<Rightarrow> (string \<Rightarrow> float64 option) \<Rightarrow> 'e web \<Rightarrow> (string \<Rightarrow> string \<Rightarrow> bool) \<Rightarrow> 'e start_env \<Rightarrow> ManagerConfig
    \<Rightarrow> ManagerNode \<Rightarrow> bool"
  for js other web valid env cfg where
  up: "NewManagerNode valid t cfg = Inr mn0 \<Longrightarrow> Start_manager env mn0 = (None, mn)
         \<Longrightarrow> manager_run js other web valid env cfg mn"
| op: "manager_run js other web valid env cfg mn \<Longrightarrow> manager_step js other web x mn = Some mn'
         \<Longrightarrow> manager_run js other web valid env cfg mn'"

text \<open>The IRC library delivers no event of these kinds without its first parameter, except a notice of the server.\<close>

fun has_target :: "irc_input \<Rightarrow> bool" where
  "has_target (InPrivmsg e) = (ieArguments e \<noteq> [])"
| "has_target (InNotice e) = (ieArguments e \<noteq> [] \<or> ieNick e = [])"
| "has_target (InJoin e) = (ieArguments e \<noteq> [])"
| "has_target (InPart e) = (ieArguments e \<noteq> [])"
| "has_target (InKick e) = (ieArguments e \<noteq> [])"
| "has_target (InErr e) = True"
| "has_target InWelcome = True"

fun proper :: "'e mgr_op \<Rightarrow> bool" where
  "proper (MIrc _ _ x) = has_target x"
| "proper _ = True"

lemma callback_defined: "has_target x \<Longrightarrow> \<exists>c' calls cmds. callback now me x c = Some (c', calls, cmds)"
  by (cases x) (auto simp: onPrivmsg_def onNotice_def onJoin_def onPart_def onKick_def onError_def onWelcome_def Let_def
      split: list.split)

lemma handleIRCMessage_open:
  assumes "hub_open (mnHub m)"
  shows "\<exists>m'. handleIRCMessage js other now ev m = Some m' \<and> hub_open (mnHub m')"
proof (cases "IsProtocolMessage (meMessage ev)")
  case proto: True
  show ?thesis
  proof (cases "Parse (meMessage ev)")
    case (Inl e)
    with assms proto show ?thesis by (simp add: handleIRCMessage_def)
  next
    case (Inr msg)
    from handleIRCMessage_result [OF assms proto Inr, where js = js and other = other and now = now] show ?thesis by auto
  qed
qed (use assms in \<open>simp add: handleIRCMessage_def\<close>)

lemma runMgrHooks_open:
  "hub_open (mnHub m) \<Longrightarrow> \<exists>m'. runMgrHooks js other now calls m = Some m' \<and> hub_open (mnHub m')"
proof (induction calls arbitrary: m)
  case (Cons c cs)
  obtain h ev where c: "c = (h, ev)" by (cases c)
  have "\<exists>m1. runMgrHook js other now c m = Some m1 \<and> hub_open (mnHub m1)"
    using handleIRCMessage_open [OF Cons.prems] Cons.prems by (cases h; cases ev) (auto simp: c)
  with Cons.IH show ?case by auto
qed simp

lemma Unregister_open:
  assumes "hub_open h"
  shows "\<exists>h'. Unregister c h = Some h' \<and> hub_open h'"
proof (cases "c \<in> set (hubClients h)")
  case True
  with assms obtain conn where "hubConns h c = Some conn" "\<not> wcClosed conn" by (auto simp: hub_open_def)
  with True assms show ?thesis by (auto simp: Unregister_def close_send_def hub_open_def)
qed (use assms in \<open>simp add: Unregister_def\<close>)

lemma poll_hub: "mnHub (pollAgentDashboards ft now m) = mnHub m"
proof -
  have "mnHub (fold (\<lambda>rec m. if arDashboardURL rec = [] then m else pollSingleAgent ft now (arNick rec) (arDashboardURL rec) m) recs m)
      = mnHub m" for recs
    by (induction recs arbitrary: m) (simp_all add: pollSingleAgent_def Let_def split: option.split)
  then show ?thesis by (simp add: pollAgentDashboards_def)
qed

definition manager_sound :: "ManagerNode \<Rightarrow> bool" where
  "manager_sound mn \<longleftrightarrow> hub_open (mnHub (mdManager mn)) \<and> clMsgHandlers (mdClient mn) = [(0, HookManager)]
     \<and> mdServer mn \<and> mdPollStop mn = OpenChan"

lemma manager_step_sound:
  assumes "manager_sound mn" "manager_step js other web x mn = Some mn'"
  shows "manager_sound mn'"
proof (cases x)
  case (MIrc now me i)
  from assms(2) obtain c calls cmds m where
    step: "callback now me i (mdClient mn) = Some (c, calls, cmds)" "runMgrHooks js other now calls (mdManager mn) = Some m"
      "mn' = mn\<lparr>mdClient := c, mdManager := m\<rparr>" by (auto simp: MIrc split: option.splits)
  have "hub_open (mnHub m)"
    using runMgrHooks_open [of "mdManager mn" js other now calls] assms(1) step(2) by (simp add: manager_sound_def)
  with callback_keeps_handlers [OF step(1)] assms(1) show ?thesis by (simp add: step(3) manager_sound_def)
next
  case (MHttp host clk c req)
  with assms serveManager_open [of "mdManager mn" host js web clk c req] show ?thesis
    by (auto simp: manager_sound_def)
next
  case (MGone c)
  with assms Unregister_open [of "mnHub (mdManager mn)" c] show ?thesis by (auto simp: manager_sound_def)
qed (use assms in \<open>auto simp: manager_sound_def poll_hub\<close>)

lemma manager_step_defined:
  assumes "manager_sound mn" "proper x"
  shows "\<exists>mn'. manager_step js other web x mn = Some mn'"
proof (cases x)
  case (MIrc now me i)
  with assms(2) callback_defined [of i now me "mdClient mn"] obtain c calls cmds where
    "callback now me i (mdClient mn) = Some (c, calls, cmds)" by auto
  with MIrc assms(1) runMgrHooks_open [of "mdManager mn" js other now calls] show ?thesis by (auto simp: manager_sound_def)
next
  case (MHttp host clk c req)
  with assms serveManager_open [of "mdManager mn" host js web clk c req] show ?thesis by (auto simp: manager_sound_def)
next
  case (MGone c)
  with assms Unregister_open [of "mnHub (mdManager mn)" c] show ?thesis by (auto simp: manager_sound_def)
qed simp

lemma manager_up_sound:
  assumes "NewManagerNode valid t cfg = Inr mn0" "Start_manager env mn0 = (None, mn)"
  shows "manager_sound mn"
proof -
  from assms(1) have mn0: "mn0 = \<lparr>mdManager = NewWithClient cfg, mdClient = freshClient t (mgIRC cfg), mdServer = False, mdPollStop = NoChan\<rparr>"
    by (auto simp: NewManagerNode_def NewManager_def NewClient_def split: if_splits)
  with assms(2) have "mn = mn0\<lparr>mdClient := snd (OnMessage HookManager (mdClient mn0)), mdServer := True, mdPollStop := OpenChan\<rparr>"
    by (auto simp: Start_manager_def Let_def split: option.splits)
  then show ?thesis by (simp add: mn0 manager_sound_def OnMessage_def freshClient_def Let_def)
qed

lemma manager_run_sound: "manager_run js other web valid env cfg mn \<Longrightarrow> manager_sound mn"
  by (induction rule: manager_run.induct) (auto intro: manager_up_sound manager_step_sound)


section \<open>From the manager's request to the running agent\<close>

lemma registered_client:
  "clConn (registerHandlers (snd (OnMessage h c))) = clConn c" "clCfg (registerHandlers (snd (OnMessage h c))) = clCfg c"
  "clConnHandlers c = [] \<Longrightarrow> clConnHandlers (registerHandlers (snd (OnMessage h c))) = [(clNextID c + 6, HookLog)]"
  by (simp_all add: registerHandlers_def OnMessage_def OnJoin_def OnPart_def OnKick_def OnError_def OnConnect_def OnDisconnect_def
      Let_def)

text \<open>
  C18.  A spawned agent comes up as it was asked for: the agent program, run with the arguments that the spawner builds from a valid
  configuration (whose extra flags are text flags and whose list items have no comma and no outer blanks), in an environment without a
  configuration file where the dashboard can listen and the server welcomes it, does not exit; it runs under the nick and with the credentials asked for,
  its dashboard is up exactly when an address is set, no federation is running, and at the server's welcome it asks to join
  exactly the channels asked for, in their order.
\<close>

theorem spawned_agent_comes_up:
  assumes "Validate_spawn cfg = (None :: 'e spawn_error option)" "syGetenv sys ''BORG_CONFIG'' = []"
    and "\<forall>(k, v) \<in> set (scExtraFlags cfg). extra_text k"
    and "\<forall>s \<in> set (scChannels cfg @ scCapabilities cfg @ scRoles cfg). plain_item s"
    and "seListen env = None" "seDial env = None" "seWelcomed env" "valid (scNick cfg) (scUsername cfg)"
  shows "\<exists>lg banner nd.
    agentMain bd sys valid None io fs env now (BuildCLIArgs cfg) = Up lg banner nd
    \<and> cnNick (clConn (ndClient nd)) = scNick cfg \<and> cnSASLPassword (clConn (ndClient nd)) = scPassword cfg
    \<and> ndFederation nd = None
    \<and> ndDashboard nd = (ov (scDashboardAddr cfg) (syGetenv sys ''DASHBOARD_ADDR'') \<noteq> [])
    \<and> (\<exists>nd'. nodeInput q t me InWelcome nd
          = Some (nd', [], map CmdJoin (ov (scChannels cfg) (splitTrim (syGetenv sys ''IRC_CHANNELS'')))))"
proof -
  from spawned_config [OF assms(1-4)] obtain app where
    app: "Load_config sys (BuildCLIArgs cfg) = Inr app" "Validate (cfIRC app) = []"
      "icNick (cfIRC app) = scNick cfg" "icUsername (cfIRC app) = scUsername cfg" "icPassword (cfIRC app) = scPassword cfg"
      "icChannels (cfIRC app) = ov (scChannels cfg) (splitTrim (syGetenv sys ''IRC_CHANNELS''))"
      "cfDashboardAddr app = ov (scDashboardAddr cfg) (syGetenv sys ''DASHBOARD_ADDR'')" "cfFederationServers app = []"
    by blast
  have "scServer cfg \<noteq> []" using assms(1) by (auto simp: Validate_spawn_def split: if_splits)
  then have args: "(BuildCLIArgs cfg \<noteq> [] \<and> hd (BuildCLIArgs cfg) = ''--version'') = False" by (simp add: BuildCLIArgs_def)
  let ?client = "freshClient now (cfIRC app) :: hook ircClient"
  let ?nd = "NewWithClient_agent io fs now app ?client"
  let ?up = "startHeartbeat (?nd\<lparr>ndDashboard := cfDashboardAddr app \<noteq> []\<rparr>)"
  have "NewClient valid now (cfIRC app) = Inr ?client" using app assms(8) by (simp add: NewClient_def)
  then have new: "NewAgent valid None io fs now app = Inr ?nd" by (simp add: NewAgent_def)
  have nd: "ndCfg ?nd = app" "ndDashboard ?nd = False" "ndClient ?nd = registerHandlers (snd (OnMessage HookDispatch ?client))"
    "ndFederation ?nd = None" by (simp_all add: NewWithClient_agent_def)
  have start: "Start_agent env now ?nd = (None, ?up)"
    using assms(5-7) by (simp add: Start_agent_def Connect_irc_def nd app(8) Let_def)
  have up: "ndClient ?up = ndClient ?nd" "ndFederation ?up = None" "ndDashboard ?up = (cfDashboardAddr app \<noteq> [])"
    by (simp_all add: startHeartbeat_def nd)
  have "clConn ?client = newConn (cfIRC app)" "clCfg ?client = cfIRC app" "clConnHandlers ?client = []" "clNextID ?client = 0"
    by (simp_all add: freshClient_def)
  then have client: "clConn (ndClient ?nd) = newConn (cfIRC app)" "clCfg (ndClient ?nd) = cfIRC app"
    "clConnHandlers (ndClient ?nd) = [(6, HookLog)]"
    unfolding nd(3) by (simp_all add: registered_client)
  have joins: "\<exists>nd'. nodeInput q t me InWelcome ?up = Some (nd', [], map CmdJoin (icChannels (cfIRC app)))"
    by (simp add: nodeInput_def onWelcome_def up client call_all_def Let_def)
  have main: "agentMain bd sys valid None io fs env now (BuildCLIArgs cfg)
      = Up (Setup_logging (cfLogLevel app) (cfLogFmt app)) (printBanner_agent bd app) ?up"
    unfolding agentMain_def args if_False app(1) sum.case new start by (simp add: app(2))
  have "cnNick (newConn (cfIRC app)) = scNick cfg" "cnSASLPassword (newConn (cfIRC app)) = scPassword cfg"
    using app(3,5) by (simp_all add: newConn_def)
  with joins up client app(6,7) have "cnNick (clConn (ndClient ?up)) = scNick cfg \<and> cnSASLPassword (clConn (ndClient ?up)) = scPassword cfg
    \<and> ndFederation ?up = None \<and> ndDashboard ?up = (ov (scDashboardAddr cfg) (syGetenv sys ''DASHBOARD_ADDR'') \<noteq> [])
    \<and> (\<exists>nd'. nodeInput q t me InWelcome ?up
          = Some (nd', [], map CmdJoin (ov (scChannels cfg) (splitTrim (syGetenv sys ''IRC_CHANNELS'')))))"
    by simp
  with main show ?thesis by blast
qed

section \<open>When a program comes up\<close>

text \<open>
  The agent program comes up exactly when it was not asked for its version, its configuration loads and is acceptable, the IRC library takes the nick,
  the OpenTelemetry set-up, if there is one, succeeds, and the agent starts; it exits with 0 exactly when it was asked for its version or
  for help.
\<close>

theorem agent_comes_up_iff:
  "(\<exists>lg banner nd. agentMain bd sys valid otel io fs env now args = Up lg banner nd) \<longleftrightarrow>
     (\<nexists>rest. args = ''--version'' # rest)
     \<and> (\<exists>cfg. Load_config sys args = Inr cfg \<and> Validate (cfIRC cfg) = [] \<and> valid (icNick (cfIRC cfg)) (icUsername (cfIRC cfg))
          \<and> (otEndpoint (cfOTel cfg) = [] \<or> otel = None)
          \<and> (cfDashboardAddr cfg = [] \<or> seListen env = None) \<and> seDial env = None \<and> seWelcomed env
          \<and> (\<forall>srv \<in> set (cfFederationServers cfg). Validate (fsIRC srv) = []
               \<and> seValid env (icNick (fsIRC srv)) (icUsername (fsIRC srv)) \<and> seLinkConnect env (fsName srv) = None))"
proof (cases "Load_config sys args")
  case (Inl e)
  then show ?thesis by (simp add: agentMain_def)
next
  case (Inr cfg)
  let ?nd = "NewWithClient_agent io fs now cfg (freshClient now (cfIRC cfg))"
  have cfg: "ndCfg ?nd = cfg" by (simp add: NewWithClient_agent_def)
  have version: "(args \<noteq> [] \<and> hd args = ''--version'') = (\<exists>rest. args = ''--version'' # rest)" by (cases args) auto
  have new: "NewAgent valid otel io fs now cfg =
      (if Validate (cfIRC cfg) \<noteq> [] then Inl (CreateClientFailed (ErrConfig (Validate (cfIRC cfg))))
       else if \<not> valid (icNick (cfIRC cfg)) (icUsername (cfIRC cfg)) then Inl (CreateClientFailed ErrInvalidNickOrUser)
       else case (if otEndpoint (cfOTel cfg) \<noteq> [] then otel else None) of
              Some e \<Rightarrow> Inl (SetupOTelFailed e)
            | None \<Rightarrow> Inr ?nd)"
    by (simp add: NewAgent_def NewClient_def)
  show ?thesis
    using start_succeeds_iff [of env now ?nd, unfolded cfg]
    by (auto simp: agentMain_def Inr version new split: option.splits prod.splits)
qed

theorem agent_exits_cleanly_iff:
  "(\<exists>out. agentMain bd sys valid otel io fs env now args = Exits 0 out) \<longleftrightarrow>
     (\<exists>rest. args = ''--version'' # rest) \<or> Load_config sys args = Inl (ErrFlag HelpRequested)"
  by (cases args)
    (auto simp: agentMain_def load_exit_def split: sum.splits option.splits prod.splits load_error.splits if_splits)

section \<open>A demonstration\<close>

definition demo_build :: build_info where
  "demo_build = \<lparr>bdVersion = ''dev'', bdCommit = ''unknown'', bdTime = ''unknown'', bdFixed1 = (\<lambda>_. ''2.0'')\<rparr>"

theorem spawned_agent_comes_up_witness:
  "\<exists>lg banner nd.
    agentMain demo_build (demo_sys\<lparr>syGetenv := \<lambda>_. []\<rparr>) (\<lambda>_ _. True) None toy_io Map.empty calm 5 (BuildCLIArgs demo_spawn) = Up lg banner nd
    \<and> cnNick (clConn (ndClient nd)) = ''drone''
    \<and> (\<exists>nd'. nodeInput (\<lambda>s. s) 6 ''drone'' InWelcome nd = Some (nd', [], [CmdJoin ''#a'', CmdJoin ''#b'']))"
proof -
  have extra: "\<forall>(k, v) \<in> set (scExtraFlags demo_spawn). extra_text k"
    by (simp add: demo_spawn_def extra_text_def loaderFlags_def)
  have items: "\<forall>s \<in> set (scChannels demo_spawn @ scCapabilities demo_spawn @ scRoles demo_spawn). plain_item s"
    by (simp add: demo_spawn_def) code_simp
  have ok: "Validate_spawn demo_spawn = (None :: unit spawn_error option)"
    by (simp add: demo_spawn_def Validate_spawn_def)
  have env: "seListen calm = None" "seDial calm = None" "seWelcomed calm" by (simp_all add: calm_def)
  have "scNick demo_spawn = ''drone''" "scChannels demo_spawn = [''#a'', ''#b'']" by (simp_all add: demo_spawn_def)
  with spawned_agent_comes_up [OF ok _ extra items env, where sys = "demo_sys\<lparr>syGetenv := \<lambda>_. []\<rparr>" and valid = "\<lambda>_ _. True"
      and bd = demo_build and io = toy_io and fs = Map.empty and now = 5 and q = "\<lambda>s. s" and t = 6 and me = "''drone''"]
  show ?thesis by (simp add: ov_def) blast
qed

definition demo_manager_config :: ManagerConfig where
  "demo_manager_config = defaultManagerConfig\<lparr>mgIRC := DefaultConfig\<lparr>icServer := ''irc:6697'', icNick := ''queen'', icUsername := ''u'',
     icPassword := ''p''\<rparr>\<rparr>"


end
