(* ===== verification/Provision.thy ===== *)
theory Provision
  imports IrcClient Flags
begin

text \<open>
  The account tool, \<^verbatim>\<open>cmd/provision/main.go\<close>: its flags and commands, the connection it makes, the commands it sends to
  the services of the server, and how it collects their replies.  A run is described by its exit code, the lines it prints and the
  commands that reach the IRC connection.
\<close>

section \<open>Environment and configuration\<close>

text \<open>
  The environment variables, the number syntax of flags, whether the IRC library accepts a nick and user, the outcome of dialling, whether the
  welcome arrives within the thirty seconds, when the command is sent, and the messages that the server delivers, each with its time.
\<close>

record 'e prov_env =
  pvGetenv :: "string \<Rightarrow> string"
  pvNum :: numsyntax
  pvValid :: "string \<Rightarrow> string \<Rightarrow> bool"
  pvDial :: "'e option"
  pvWelcomed :: bool
  pvSent :: gotime
  pvMessages :: "(gotime \<times> MessageEvent) list"
  pvTie :: "gotime \<Rightarrow> bool"

record provisionConfig =
  pcServer :: string
  pcUsername :: string
  pcPassword :: string
  pcOperName :: string
  pcOperPass :: string
  pcTLSInsecure :: bool

datatype 'e prov_error =
  MissingServer | MissingUsername | MissingPassword | MissingOperPass | NickRequiredFor string | AccountPasswordRequired
| CreateClient client_error | ConnectTo string "'e connect_error"

datatype 'e exit = ExitOk | ExitUsage | ExitFlag flag_error | ExitUnknownCommand string | ExitFatal "'e prov_error"

text \<open>The flag package exits with 0 for a request for help and with 2 for an error; the program itself exits with 1.\<close>

fun exit_code :: "'e exit \<Rightarrow> nat" where
  "exit_code ExitOk = 0"
| "exit_code (ExitFlag e) = (if e = HelpRequested then 0 else 2)"
| "exit_code _ = 1"

definition envOrDefault :: "'e prov_env \<Rightarrow> string \<Rightarrow> string \<Rightarrow> string" where
  "envOrDefault env key d = (let v = pvGetenv env key in if v \<noteq> [] then v else d)"

definition provisionFlags :: formal where
  "provisionFlags =
     [(''server'', FString), (''username'', FString), (''password'', FString), (''oper-name'', FString), (''oper-pass'', FString),
      (''tls-insecure'', FBool)]"

text \<open>The value of a text flag with a default.\<close>

definition flagValue :: "actual \<Rightarrow> string \<Rightarrow> string \<Rightarrow> string" where
  "flagValue actual name d = (case map_of actual name of None \<Rightarrow> d | Some v \<Rightarrow> vstring v)"

definition provisionSettings :: "'e prov_env \<Rightarrow> actual \<Rightarrow> provisionConfig" where
  "provisionSettings env actual =
     \<lparr>pcServer = flagValue actual ''server'' (envOrDefault env ''PROVISION_SERVER'' []),
      pcUsername = flagValue actual ''username'' (envOrDefault env ''PROVISION_USERNAME'' []),
      pcPassword = flagValue actual ''password'' (envOrDefault env ''PROVISION_PASSWORD'' []),
      pcOperName = flagValue actual ''oper-name'' (envOrDefault env ''PROVISION_OPER_NAME'' ''admin''),
      pcOperPass = flagValue actual ''oper-pass'' (envOrDefault env ''PROVISION_OPER_PASS'' []),
      pcTLSInsecure = (case map_of actual ''tls-insecure'' of None \<Rightarrow> False | Some v \<Rightarrow> vbool v)\<rparr>"

section \<open>Connection\<close>

definition provisionIRC :: "provisionConfig \<Rightarrow> Config" where
  "provisionIRC cfg =
     DefaultConfig\<lparr>icServer := pcServer cfg, icNick := pcUsername cfg, icUsername := pcUsername cfg, icPassword := pcPassword cfg,
       icTLSInsecureSkipVerify := pcTLSInsecure cfg, icReconnect := False, icChannels := []\<rparr>"

text \<open>
  \<^verbatim>\<open>strings.EqualFold\<close> with an ASCII name: bytes compare without case; two runes outside ASCII, the long s and the Kelvin sign, fold
  to a letter.
\<close>

fun fold_runes :: "string \<Rightarrow> string" where
  "fold_runes [] = []"
| "fold_runes [c] = [lower_byte c]"
| "fold_runes [c, d] = (if c = CHR 0xC5 \<and> d = CHR 0xBF then ''s'' else lower_byte c # fold_runes [d])"
| "fold_runes (c # d # e # s) =
     (if c = CHR 0xC5 \<and> d = CHR 0xBF then CHR ''s'' # fold_runes (e # s)
      else if c = CHR 0xE2 \<and> d = CHR 0x84 \<and> e = CHR 0xAA then CHR ''k'' # fold_runes s
      else lower_byte c # fold_runes (d # e # s))"

definition isNickServ :: "string \<Rightarrow> bool" where
  "isNickServ nick \<longleftrightarrow> fold_runes nick = ''nickserv''"

text \<open>The replies that the handler puts into the channel, in the order of their arrival.\<close>

definition nickServReplies :: "(gotime \<times> MessageEvent) list \<Rightarrow> (gotime \<times> string) list" where
  "nickServReplies msgs = map (\<lambda>(t, ev). (t, meMessage ev)) (filter (\<lambda>(_, ev). isNickServ (meNick ev)) msgs)"

definition operCommand :: "provisionConfig \<Rightarrow> string" where
  "operCommand cfg = ''OPER '' @ pcOperName cfg @ '' :'' @ pcOperPass cfg"

definition connectAndOper :: "'e prov_env \<Rightarrow> provisionConfig \<Rightarrow> 'e prov_error option \<times> conn_cmd list" where
  "connectAndOper env cfg =
     (case (NewClient (pvValid env) 0 (provisionIRC cfg) :: client_error + unit ircClient) of
        Inl e \<Rightarrow> (Some (CreateClient e), [])
      | Inr client \<Rightarrow>
          (case Connect_irc (pvDial env) (pvWelcomed env) client of
             (Some e, cmds) \<Rightarrow> (Some (ConnectTo (pcServer cfg) e), cmds)
           | (None, cmds) \<Rightarrow> (None, cmds @ [CmdRaw (operCommand cfg)])))"

section \<open>Replies\<close>

text \<open>
  Lines are taken until none has come for the idle time.  What came before is waiting in the channel and is taken at once; when a line
  comes at the very instant of the time-out, the run-time chooses.  The time of the return is the second result.
\<close>

fun collectReplies :: "(gotime \<Rightarrow> bool) \<Rightarrow> duration \<Rightarrow> gotime \<Rightarrow> (gotime \<times> string) list \<Rightarrow> string list \<times> gotime" where
  "collectReplies tie idle now [] = ([], now + idle)"
| "collectReplies tie idle now ((t, line) # ms) =
     (if t < now + idle \<or> t = now + idle \<and> tie t
      then (case collectReplies tie idle (max now t) ms of (lines, t') \<Rightarrow> (line # lines, t'))
      else ([], now + idle))"

definition noResponse :: string where
  "noResponse = ''No response from NickServ (command may have succeeded '' @ [CHR 0xE2, CHR 0x80, CHR 0x94] @ '' verify with 'info')''"

definition execNickServ :: "'e prov_env \<Rightarrow> string \<Rightarrow> string list \<times> conn_cmd list" where
  "execNickServ env command =
     (let replies = fst (collectReplies (pvTie env) 2000000000 (pvSent env) (nickServReplies (pvMessages env)))
      in (if length replies = 0 then [noResponse] else replies, [CmdPrivmsg ''NickServ'' command]))"

section \<open>Commands\<close>

type_synonym 'e run = "'e exit \<times> string list \<times> conn_cmd list"

text \<open>Connect, become operator, send one command, print the replies, and disconnect on the way out.\<close>

definition withOper :: "'e prov_env \<Rightarrow> provisionConfig \<Rightarrow> string \<Rightarrow> 'e run" where
  "withOper env cfg command =
     (case connectAndOper env cfg of
        (Some e, cmds) \<Rightarrow> (ExitFatal e, [], cmds)
      | (None, cmds) \<Rightarrow>
          (case execNickServ env command of (printed, cmds') \<Rightarrow> (ExitOk, printed, cmds @ cmds' @ Disconnect)))"

definition runCreate :: "'e prov_env \<Rightarrow> provisionConfig \<Rightarrow> string list \<Rightarrow> 'e run" where
  "runCreate env cfg args =
     (case parse_args (pvNum env) [(''nick'', FString), (''account-password'', FString)] args [] of
        Inl e \<Rightarrow> (ExitFlag e, [], [])
      | Inr (actual, _) \<Rightarrow>
          let nick = flagValue actual ''nick'' []; accountPass = flagValue actual ''account-password'' []
          in if nick = [] then (ExitFatal (NickRequiredFor ''create''), [], [])
             else if accountPass = [] then (ExitFatal AccountPasswordRequired, [], [])
             else withOper env cfg (''SAREGISTER '' @ nick @ '' * '' @ accountPass))"

definition runList :: "'e prov_env \<Rightarrow> provisionConfig \<Rightarrow> 'e run" where
  "runList env cfg = withOper env cfg ''LIST *''"

definition runInfo :: "'e prov_env \<Rightarrow> provisionConfig \<Rightarrow> string list \<Rightarrow> 'e run" where
  "runInfo env cfg args =
     (case parse_args (pvNum env) [(''nick'', FString)] args [] of
        Inl e \<Rightarrow> (ExitFlag e, [], [])
      | Inr (actual, _) \<Rightarrow>
          let nick = flagValue actual ''nick'' []
          in if nick = [] then (ExitFatal (NickRequiredFor ''info''), [], []) else withOper env cfg (''INFO '' @ nick))"

definition runDelete :: "'e prov_env \<Rightarrow> provisionConfig \<Rightarrow> string list \<Rightarrow> 'e run" where
  "runDelete env cfg args =
     (case parse_args (pvNum env) [(''nick'', FString)] args [] of
        Inl e \<Rightarrow> (ExitFlag e, [], [])
      | Inr (actual, _) \<Rightarrow>
          let nick = flagValue actual ''nick'' []
          in if nick = [] then (ExitFatal (NickRequiredFor ''delete''), [], []) else withOper env cfg (''SADROP '' @ nick))"

definition provisionCommand :: "'e prov_env \<Rightarrow> provisionConfig \<Rightarrow> string \<Rightarrow> string list \<Rightarrow> 'e run" where
  "provisionCommand env cfg cmd cmdArgs =
     (if cmd = ''create'' then runCreate env cfg cmdArgs
      else if cmd = ''list'' then runList env cfg
      else if cmd = ''info'' then runInfo env cfg cmdArgs
      else if cmd = ''delete'' then runDelete env cfg cmdArgs
      else (ExitUnknownCommand cmd, [], []))"

definition checkSettings :: "provisionConfig \<Rightarrow> 'e prov_error option" where
  "checkSettings cfg =
     (if pcServer cfg = [] then Some MissingServer
      else if pcUsername cfg = [] then Some MissingUsername
      else if pcPassword cfg = [] then Some MissingPassword
      else if pcOperPass cfg = [] then Some MissingOperPass else None)"

text \<open>The arguments are those after the program's name.\<close>

definition provisionMain :: "'e prov_env \<Rightarrow> string \<Rightarrow> string list \<Rightarrow> 'e run" where
  "provisionMain env version args =
     (if length args > 0 \<and> hd args = ''--version'' then (ExitOk, [version], [])
      else
        case parse_args (pvNum env) provisionFlags args [] of
          Inl e \<Rightarrow> (ExitFlag e, [], [])
        | Inr (actual, rest) \<Rightarrow>
            let cfg = provisionSettings env actual
            in (case rest of
                  [] \<Rightarrow> (ExitUsage, [], [])
                | cmd # cmdArgs \<Rightarrow>
                    (case checkSettings cfg of
                       Some e \<Rightarrow> (ExitFatal e, [], [])
                     | None \<Rightarrow> provisionCommand env cfg cmd cmdArgs)))"

section \<open>What a run does\<close>

definition complete :: "provisionConfig \<Rightarrow> bool" where
  "complete cfg \<longleftrightarrow> pcServer cfg \<noteq> [] \<and> pcUsername cfg \<noteq> [] \<and> pcPassword cfg \<noteq> [] \<and> pcOperPass cfg \<noteq> []"

text \<open>The commands to the services, with arguments that are not empty.\<close>

definition service_command :: "string \<Rightarrow> bool" where
  "service_command c \<longleftrightarrow> c = ''LIST *''
     \<or> (\<exists>nick. nick \<noteq> [] \<and> (c = ''INFO '' @ nick \<or> c = ''SADROP '' @ nick
          \<or> (\<exists>pass. pass \<noteq> [] \<and> c = ''SAREGISTER '' @ nick @ '' * '' @ pass)))"

definition run_ok :: "'e prov_env \<Rightarrow> provisionConfig \<Rightarrow> 'e run \<Rightarrow> bool" where
  "run_ok env cfg r \<longleftrightarrow>
     (case r of
        (ExitOk, _, cmds) \<Rightarrow>
          \<exists>c. service_command c \<and> cmds = [CmdRaw (operCommand cfg), CmdPrivmsg ''NickServ'' c, CmdQuit]
      | (_, printed, cmds) \<Rightarrow> printed = [] \<and> set cmds \<subseteq> {CmdQuit} \<and> (cmds \<noteq> [] \<longrightarrow> pvDial env = None \<and> \<not> pvWelcomed env))"

lemma withOper_ok: "service_command c \<Longrightarrow> run_ok env cfg (withOper env cfg c)"
  by (cases "NewClient (pvValid env) 0 (provisionIRC cfg) :: client_error + unit ircClient")
    (auto simp: run_ok_def withOper_def connectAndOper_def execNickServ_def Connect_irc_def Disconnect_def Let_def split: option.split)

lemma early_exit_ok: "e \<noteq> ExitOk \<Longrightarrow> run_ok env cfg (e, [], [])"
  by (cases e) (simp_all add: run_ok_def)

lemma provisionCommand_ok: "run_ok env cfg (provisionCommand env cfg cmd cmdArgs)"
proof -
  have "service_command (''SAREGISTER '' @ nick @ '' * '' @ pass)" if "nick \<noteq> []" "pass \<noteq> []" for nick pass
    using that unfolding service_command_def by blast
  moreover have "service_command (''INFO '' @ nick)" "service_command (''SADROP '' @ nick)" if "nick \<noteq> []" for nick
    using that unfolding service_command_def by blast+
  moreover have "service_command ''LIST *''" by (simp add: service_command_def)
  ultimately show ?thesis
    by (simp add: provisionCommand_def runCreate_def runList_def runInfo_def runDelete_def withOper_ok early_exit_ok Let_def
        del: append.simps split: sum.split)
qed

lemma checkSettings_complete: "checkSettings cfg = None \<longleftrightarrow> complete cfg"
  by (simp add: checkSettings_def complete_def)


section \<open>Which replies are printed\<close>

definition last_time :: "gotime \<Rightarrow> (gotime \<times> string) list \<Rightarrow> gotime" where
  "last_time now ms = fold (\<lambda>(t, _) n. max n t) ms now"

lemma last_time_simps [simp]: "last_time now [] = now" "last_time now ((t, l) # ms) = last_time (max now t) ms"
  by (simp_all add: last_time_def)

text \<open>
  The collected lines are the longest run of replies without a pause of the idle time: every line that is taken came within
  that time of the one before it, the first that is not taken did not, and the call returns exactly the idle time after the last.
\<close>

theorem collected_replies:
  assumes "collectReplies tie idle now ms = (lines, t)"
  shows "lines = map snd (take (length lines) ms) \<and> t = last_time now (take (length lines) ms) + idle
    \<and> (\<forall>i < length lines. fst (ms ! i) \<le> last_time now (take i ms) + idle)
    \<and> (length lines < length ms \<longrightarrow> t \<le> fst (ms ! length lines))"
  using assms
proof (induction tie idle now ms arbitrary: lines t rule: collectReplies.induct)
  case (2 tie idle now u line ms)
  show ?case
  proof (cases "u < now + idle \<or> u = now + idle \<and> tie u")
    case True
    obtain lines' t' where r: "collectReplies tie idle (max now u) ms = (lines', t')"
      by (cases "collectReplies tie idle (max now u) ms")
    with True "2.prems" have l: "lines = line # lines'" "t = t'" by simp_all
    have "i < length lines \<Longrightarrow> fst (((u, line) # ms) ! i) \<le> last_time now (take i ((u, line) # ms)) + idle" for i
      using "2.IH" [OF True r] True l by (cases i) auto
    with "2.IH" [OF True r] l show ?thesis by auto
  next
    case False
    with "2.prems" show ?thesis by auto
  qed
qed simp

section \<open>A run\<close>

definition demo_notice :: "string \<Rightarrow> string \<Rightarrow> MessageEvent" where
  "demo_notice nick text =
     \<lparr>meChannel = ''admin'', meNick = nick, meUser = [], meHost = [], meMessage = text, meIsNotice = True, meTimestamp = 1\<rparr>"

definition demo_prov :: "string prov_env" where
  "demo_prov =
     \<lparr>pvGetenv = (\<lambda>k. if k = ''PROVISION_SERVER'' then ''irc:6697'' else if k = ''PROVISION_USERNAME'' then ''admin''
                     else if k = ''PROVISION_PASSWORD'' then ''pw'' else if k = ''PROVISION_OPER_PASS'' then ''op'' else []),
      pvNum = \<lparr>nsInt = (\<lambda>_. None), nsFloat = (\<lambda>_. None)\<rparr>, pvValid = (\<lambda>_ _. True), pvDial = None, pvWelcomed = True,
      pvSent = 1000000000,
      pvMessages = [(1, demo_notice ''NickServ'' ''hello''), (1200000000, demo_notice ''ann'' ''noise''),
        (1500000000, demo_notice ''nickserv'' ''account created''), (9000000000, demo_notice ''NickServ'' ''late'')],
      pvTie = (\<lambda>_. True)\<rparr>"

lemma demo_prov_run:
  "provisionMain demo_prov ''v'' [''create'', ''--nick'', ''drone'', ''--account-password'', ''s3cret''] =
     (ExitOk, [''hello'', ''account created''],
      [CmdRaw ''OPER admin :op'', CmdPrivmsg ''NickServ'' ''SAREGISTER drone * s3cret'', CmdQuit])"
  by code_simp


theorem collected_replies_witness:
  "collectReplies (\<lambda>_. True) 2000000000 1000000000 (nickServReplies (pvMessages demo_prov)) = ([''hello'', ''account created''], 3500000000)
   \<and> last_time 1000000000 (take 2 (nickServReplies (pvMessages demo_prov))) = 1500000000"
proof -
  have c: "collectReplies (\<lambda>_. True) 2000000000 1000000000 (nickServReplies (pvMessages demo_prov)) = ([''hello'', ''account created''], 3500000000)"
    by code_simp
  with collected_replies [OF c] show ?thesis by (simp add: numeral_2_eq_2)
qed

end
