(* ===== verification/Team.thy ===== *)
theory Team
  imports Agent
begin

text \<open>
  Several agents on one channel: each message that one of them sends is heard by all the others, in one order for all.  What an agent
  sends by itself on hearing a message (acknowledgements, answers, notifications, messages of its roles) is collected as the replies.
\<close>

section \<open>A team on a channel\<close>

definition nick_of :: "Agent \<Rightarrow> string" where
  "nick_of a = pdSelfNick (agProtocol a)"

definition hears :: "(string \<Rightarrow> string) \<Rightarrow> gotime \<Rightarrow> string \<Rightarrow> string \<times> string \<Rightarrow> Agent \<Rightarrow> Agent \<times> outbox" where
  "hears q now nick o1 a =
     (case o1 of (target, text) \<Rightarrow>
        receiveEvent q now \<lparr>meChannel = target, meNick = nick, meUser = [], meHost = [], meMessage = text, meIsNotice = False,
          meTimestamp = now\<rparr> a)"

definition deliver :: "(string \<Rightarrow> string) \<Rightarrow> gotime \<Rightarrow> string \<Rightarrow> string \<times> string \<Rightarrow> Agent list \<Rightarrow> Agent list \<times> outbox" where
  "deliver q now nick o1 team =
     (let rs = map (\<lambda>a. if nick_of a = nick then (a, []) else hears q now nick o1 a) team
      in (map fst rs, concat (map snd rs)))"

fun deliver_all :: "(string \<Rightarrow> string) \<Rightarrow> gotime \<Rightarrow> string \<Rightarrow> outbox \<Rightarrow> Agent list \<Rightarrow> Agent list \<times> outbox" where
  "deliver_all q now nick [] team = (team, [])"
| "deliver_all q now nick (o1 # os) team =
     (case deliver q now nick o1 team of (team, rs) \<Rightarrow>
        (case deliver_all q now nick os team of (team, rs') \<Rightarrow> (team, rs @ rs')))"

definition team_send ::
  "(string \<Rightarrow> string) \<Rightarrow> gotime \<Rightarrow> nat \<Rightarrow> string \<Rightarrow> Message \<Rightarrow> Agent list \<Rightarrow> Agent list \<times> outbox" where
  "team_send q now i target m team =
     (case SendProtocolMessage now target m (team ! i) of
        (_, a, out) \<Rightarrow> deliver_all q now (nick_of (team ! i)) out (team[i := a]))"

fun team_run ::
  "(string \<Rightarrow> string) \<Rightarrow> (gotime \<times> nat \<times> string \<times> Message) list \<Rightarrow> Agent list \<Rightarrow> Agent list \<times> outbox" where
  "team_run q [] team = (team, [])"
| "team_run q ((now, i, target, m) # rs) team =
     (case team_send q now i target m team of (team, out) \<Rightarrow>
        (case team_run q rs team of (team, out') \<Rightarrow> (team, out @ out')))"

section \<open>Agreement\<close>

text \<open>What stays fixed of an agent, and what it shares with the others.\<close>

definition fixed :: "Agent \<Rightarrow> string \<times> ACLEngine option" where
  "fixed a = (pdSelfNick (agProtocol a), pdAcl (agProtocol a))"

definition picture :: "Agent \<Rightarrow> StateStore \<times> TaskBoard option \<times> HandoffStore option \<times> ReviewStore option \<times> ConsensusStore option
    \<times> ContextEntry gomap" where
  "picture a = sharedView (agProtocol a)"

definition agree :: "Agent list \<Rightarrow> bool" where
  "agree team \<longleftrightarrow> (\<forall>a \<in> set team. \<forall>b \<in> set team. picture a = picture b)"

lemma updateCoordination_fixed [simp]:
  "pdSelfNick (updateCoordinationStores now m pd) = pdSelfNick pd" "pdAcl (updateCoordinationStores now m pd) = pdAcl pd"
  by (simp_all add: updateCoordinationStores_def)

lemma updateLocalState_fixed:
  "pdSelfNick (fst (updateLocalState now m pd)) = pdSelfNick pd" "pdAcl (fst (updateLocalState now m pd)) = pdAcl pd"
  by (simp_all add: updateLocalState_def Let_def case_prod_beta)

lemma handleMessage_fixed:
  "pdSelfNick (fst (handleMessage now ev pd)) = pdSelfNick pd" "pdAcl (fst (handleMessage now ev pd)) = pdAcl pd"
  by (simp_all add: handleMessage_def processMessage_def Let_def case_prod_beta split: sum.split)

lemma SendProtocolMessage_cases:
  assumes "SendProtocolMessage now target m a = (e, a', out)"
  obtains "a' = a" "out = []"
  | "agProtocol a' = fst (updateLocalState now (m\<lparr>msgChannel := target, msgNick := nick_of a,
        msgTimestamp := (if isZero (msgTimestamp m) then now else msgTimestamp m)\<rparr>) (agProtocol a))" "out = [(target, String_Message m)]"
  using assms by (cases "Sanitize m") (auto simp: SendProtocolMessage_def nick_of_def Let_def split: if_splits)

lemma sendAll_silent:
  "sendAll now ms a = (a', []) \<Longrightarrow> a' = a"
proof (induction now ms a arbitrary: a' rule: sendAll.induct)
  case (2 now target m ms a)
  obtain e a1 out1 where 1: "SendProtocolMessage now target m a = (e, a1, out1)" by (cases "SendProtocolMessage now target m a")
  obtain a2 out2 where 2: "sendAll now ms a1 = (a2, out2)" by (cases "sendAll now ms a1")
  from "2.prems" 1 2 have "out1 = []" "out2 = []" "a' = a2" by auto
  moreover from 1 have "a1 = a"
  proof (cases rule: SendProtocolMessage_cases)
    case 2
    with \<open>out1 = []\<close> show ?thesis by simp
  qed
  ultimately show ?case using "2.IH" [OF 1 [symmetric] refl] 2 by simp
qed simp

lemma runHandler_silent: "runHandler q now c a = (a', []) \<Longrightarrow> agProtocol a' = agProtocol a"
proof (induction q now c a rule: runHandler.induct)
  case (5 q now msg a)
  then show ?case by (auto split: option.splits dest: sendAll_silent)
qed (auto split: if_splits)

lemma runHandlers_silent: "runHandlers q now cs a = (a', []) \<Longrightarrow> agProtocol a' = agProtocol a"
proof (induction cs arbitrary: a a')
  case (Cons c cs)
  obtain a1 out1 where 1: "runHandler q now c a = (a1, out1)" by (cases "runHandler q now c a")
  obtain a2 out2 where 2: "runHandlers q now cs a1 = (a2, out2)" by (cases "runHandlers q now cs a1")
  from Cons.prems 1 2 have "out1 = []" "out2 = []" "a' = a2" by auto
  with Cons.IH [of a1 a2] 1 2 runHandler_silent [of q now c a a1] show ?case by simp
qed simp

lemma receiveEvent_silent:
  assumes "receiveEvent q now ev a = (a', [])"
  shows "agProtocol a' = fst (handleMessage now ev (agProtocol a))"
proof -
  obtain pd ef where 1: "handleMessage now ev (agProtocol a) = (pd, ef)" by (cases "handleMessage now ev (agProtocol a)")
  obtain a2 out where 2: "runHandlers q now (efCalls ef) (a\<lparr>agProtocol := pd\<rparr>) = (a2, out)"
    by (cases "runHandlers q now (efCalls ef) (a\<lparr>agProtocol := pd\<rparr>)")
  from assms 1 2 have "out = []" "a' = a2\<lparr>agMetrics := RecordRawMessageReceived (agMetrics a2)\<rparr>"
    by (auto simp: receiveEvent_def)
  with runHandlers_silent [of q now "efCalls ef" "a\<lparr>agProtocol := pd\<rparr>" a2] 2 1 show ?thesis by simp
qed

text \<open>A run in which the agents' rules allow every message, whose messages are well-formed and without a time of their own.\<close>

definition round_ok :: "Agent list \<Rightarrow> gotime \<times> nat \<times> string \<times> Message \<Rightarrow> bool" where
  "round_ok team = (\<lambda>(now, i, target, m). now \<noteq> 0 \<and> i < length team \<and> wf_Message m \<and> msgTimestamp m = 0
     \<and> (\<forall>a \<in> set team. case snd (fixed a) of None \<Rightarrow> True | Some acl \<Rightarrow> Check acl (nick_of (team ! i)) target (msgAction m)))"

lemma round_ok_fixed: "map fixed team = map fixed team' \<Longrightarrow> round_ok team = round_ok team'"
proof -
  assume fx: "map fixed team = map fixed team'"
  then have len: "length team = length team'" by (rule map_eq_imp_length_eq)
  from fx have "fixed ` set team = fixed ` set team'" by (metis set_map)
  then have acl: "snd ` fixed ` set team = snd ` fixed ` set team'" by simp
  have nick: "nick_of (team ! i) = nick_of (team' ! i)" if "i < length team" for i
    using fx that len by (metis fixed_def fst_conv nick_of_def nth_map)
  have "(\<forall>a \<in> set team. P (snd (fixed a))) = (\<forall>a \<in> set team'. P (snd (fixed a)))" for P
  proof -
    have "(\<forall>a \<in> set t. P (snd (fixed a))) = (\<forall>x \<in> snd ` fixed ` set t. P x)" for t
      by simp
    then show ?thesis by (simp only: acl)
  qed
  note acl = this
  show ?thesis
  proof
    fix r :: "gotime \<times> nat \<times> string \<times> Message"
    obtain now i target m where r: "r = (now, i, target, m)" by (cases r)
    show "round_ok team r = round_ok team' r"
    proof (cases "i < length team")
      case True
      show ?thesis unfolding r round_ok_def prod.case nick [OF True] acl [of "\<lambda>x. case x of None \<Rightarrow> True | Some acl \<Rightarrow> Check acl (nick_of (team' ! i)) target (msgAction m)"] len ..
    qed (simp add: r round_ok_def len)
  qed
qed

lemma team_send_agree:
  assumes d: "distinct (map nick_of team)" and ag: "agree team" and ok: "round_ok team (now, i, target, m)"
    and run: "team_send q now i target m team = (team', [])"
  shows "agree team' \<and> map fixed team' = map fixed team"
proof -
  from ok have i: "i < length team" and wf: "wf_Message m" and t: "now \<noteq> 0" "msgTimestamp m = 0" by (simp_all add: round_ok_def)
  let ?a = "team ! i" and ?n = "nick_of (team ! i)"
  obtain e a out where s: "SendProtocolMessage now target m ?a = (e, a, out)" by (cases "SendProtocolMessage now target m ?a")
  from s show ?thesis
  proof (cases rule: SendProtocolMessage_cases)
    case 1
    with s run have "team' = team" by (simp add: team_send_def)
    with ag show ?thesis by simp
  next
    case 2
    let ?loc = "m\<lparr>msgChannel := target, msgNick := ?n, msgTimestamp := now\<rparr>"
    have a: "agProtocol a = fst (updateLocalState now ?loc (agProtocol ?a))" using 2(1) t(2) by (simp add: isZero_def)
    then have fa: "fixed a = fixed ?a" "nick_of a = ?n" by (simp_all add: fixed_def nick_of_def updateLocalState_fixed)
    let ?f = "\<lambda>b. if nick_of b = ?n then (b, []) else hears q now ?n (target, String_Message m) b"
    have run': "team' = map (fst \<circ> ?f) (team[i := a])" "\<forall>b \<in> set (team[i := a]). snd (?f b) = []"
      using run s 2(2) by (auto simp: team_send_def deliver_def Let_def)
    have others: "b = a" if "b \<in> set (team[i := a])" "nick_of b = ?n" for b
    proof -
      from that(1) obtain j where j: "j < length team" "b = team[i := a] ! j" by (auto simp: in_set_conv_nth)
      show ?thesis
      proof (cases "j = i")
        case False
        with j that(2) d i show ?thesis by (simp add: distinct_conv_nth)
      qed (use j i in simp)
    qed
    have key: "picture (fst (?f b)) = picture a \<and> fixed (fst (?f b)) = fixed b" if b: "b \<in> set (team[i := a])" for b
    proof (cases "nick_of b = ?n")
      case True
      with others [OF b] show ?thesis by simp
    next
      case False
      from b False fa have "b \<in> set team" using set_update_subset_insert [of team i a] by auto
      with ag i have "picture ?a = picture b" unfolding agree_def by (meson nth_mem)
      then have view: "sharedView (agProtocol ?a) = sharedView (agProtocol b)" by (simp only: picture_def)
      have "snd (hears q now ?n (target, String_Message m) b) = []" using bspec [OF run'(2) b] False by simp
      then obtain b' where b': "hears q now ?n (target, String_Message m) b = (b', [])"
        by (cases "hears q now ?n (target, String_Message m) b") simp
      let ?ev = "\<lparr>meChannel = target, meNick = ?n, meUser = [], meHost = [], meMessage = String_Message m, meIsNotice = False,
        meTimestamp = now\<rparr>"
      from b' have pd: "agProtocol b' = fst (handleMessage now ?ev (agProtocol b))"
        by (simp add: hears_def receiveEvent_silent)
      have "case pdAcl (agProtocol b) of None \<Rightarrow> True | Some acl \<Rightarrow> Check acl ?n target (msgAction m)"
        using ok \<open>b \<in> set team\<close> by (simp add: round_ok_def fixed_def)
      then have "sharedView (agProtocol b') = sharedView (agProtocol a)"
        unfolding pd a using False t(1) by (intro receiver_agrees [OF wf view]) (simp_all add: nick_of_def)
      moreover have "fixed b' = fixed b" unfolding fixed_def pd handleMessage_fixed ..
      moreover have "fst (?f b) = b'" using False b' by simp
      ultimately show ?thesis unfolding picture_def by simp
    qed
    have "agree team'" unfolding agree_def run'(1) using key by auto
    moreover have "map fixed team' = map fixed (team[i := a])" using key by (simp add: run'(1))
    moreover have "map fixed (team[i := a]) = map fixed team" using i fa by (simp add: map_update) (metis list_update_id nth_map length_map)
    ultimately show ?thesis by simp
  qed
qed

lemma fixed_nicks: "map fixed team = map fixed team' \<Longrightarrow> map nick_of team = map nick_of team'"
proof -
  have "map nick_of t = map fst (map fixed t)" for t
    by (induction t) (simp_all add: nick_of_def fixed_def)
  then show "map fixed team = map fixed team' \<Longrightarrow> map nick_of team = map nick_of team'" by (simp only:)
qed


section \<open>A fresh team\<close>

text \<open>Agents that start from the same configuration and the same files agree.\<close>

lemma initProtocol_picture:
  "picture (initProtocol io fs n cfg) =
     (loadedState io fs cfg, Some (NewTaskBoard (cfClaimJitter cfg)), Some NewHandoffStore,
      Some (NewReviewStore (cfMaxReviewIterations cfg)), Some NewConsensusStore, ctsEntries NewContextStore)"
proof -
  note defs = initProtocol_def OnProtocolMessage_def NewProtocolDispatcher_def Let_def
  have "pdState (agProtocol (initProtocol io fs n cfg)) = loadedState io fs cfg"
    "pdTaskBoard (agProtocol (initProtocol io fs n cfg)) = Some (NewTaskBoard (cfClaimJitter cfg))"
    "pdHandoff (agProtocol (initProtocol io fs n cfg)) = Some NewHandoffStore"
    "pdReview (agProtocol (initProtocol io fs n cfg)) = Some (NewReviewStore (cfMaxReviewIterations cfg))"
    "pdConsensus (agProtocol (initProtocol io fs n cfg)) = Some NewConsensusStore"
    "pdContext (agProtocol (initProtocol io fs n cfg)) = NewContextStore"
    by (simp_all add: defs split: option.split)
  then show ?thesis by (simp add: picture_def sharedView_def)
qed

lemma picture_fresh: "picture (initProtocol io fs n cfg) = picture (initProtocol io fs n' cfg)"
  by (simp add: initProtocol_picture)

lemma fresh_team_agrees: "agree (map (\<lambda>n. initProtocol io fs n cfg) nicks)"
  unfolding agree_def using picture_fresh by fastforce

definition demo_team :: "Agent list" where
  "demo_team = map (\<lambda>n. initProtocol demo_io Map.empty n defaultAppConfig) [''ann'', ''bob'', ''cy'']"


section \<open>Who acknowledges\<close>

text \<open>
  The automatic acknowledgement of an unblocked task counts as work on it: whoever hears it records the acknowledging agent as the
  last agent of the task, its tag as the tags of the task, and the task as what that agent works on; the acknowledging agent itself, which
  sends the text past its own stores, records none of this.
\<close>

theorem acknowledgement_takes_the_task:
  assumes "wf_Message (ackMsg name completed)" "name \<noteq> []" "t \<noteq> 0" "pdSelfNick pd \<noteq> nick" "pdAcl pd = None"
    and "meMessage ev = String_Message (ackMsg name completed)" "meChannel ev = ch" "meNick ev = nick" "meTimestamp ev = t"
  shows "\<exists>info st. GetTask (pdState (fst (handleMessage now ev pd))) name = Some info
    \<and> tiLastAgent info = nick \<and> tiTags info = [''auto-unblock''] \<and> tiUpdatedAt info = t
    \<and> GetAgentStatus (pdState (fst (handleMessage now ev pd))) nick = Some st \<and> asTaskName st = name"
proof -
  let ?loc = "(ackMsg name completed)\<lparr>msgChannel := ch, msgNick := nick, msgTimestamp := t\<rparr>"
  from receiver_agrees [OF assms(1) refl assms(6-9,3,4), of now] assms(5)
  have "pdState (fst (handleMessage now ev pd)) = updateTaskState now ?loc (pdState pd)"
    by (simp add: sharedView_local) (simp add: sharedView_def)
  moreover have "Get ?loc ''task'' = name" "msgAction ?loc = ActionAcknowledged" "msgTags ?loc = [''auto-unblock'']"
    by (simp_all add: ackMsg_def mkMessage_def Get_def mgetd_def)
  ultimately show ?thesis
    using assms(2) by (simp add: updateTaskState_def stateActions_def UpdateTask_def UpdateAgentStatus_def GetTask_def GetAgentStatus_def
        switchInfo_def Let_def)
qed

theorem acknowledgement_takes_the_task_witness:
  "\<exists>info. GetTask (pdState (fst (handleMessage 9 (demo_ev ''#dev'' ''cy'' (String_Message (ackMsg ''ui'' ''api'')))
      (NewProtocolDispatcher ''ann'' NewStateStore NewContextStore)))) ''ui'' = Some info \<and> tiLastAgent info = ''cy''"
proof -
  have "wf_Message (ackMsg ''ui'' ''api'')" by code_simp
  from acknowledgement_takes_the_task [OF this, where t = 7 and nick = "''cy''" and ch = "''#dev''" and now = 9
      and pd = "NewProtocolDispatcher ''ann'' NewStateStore NewContextStore"
      and ev = "demo_ev ''#dev'' ''cy'' (String_Message (ackMsg ''ui'' ''api''))"]
  show ?thesis by (auto simp: NewProtocolDispatcher_def demo_ev_def)
qed

end
