(* ===== verification/Replies.thy ===== *)
theory Replies
  imports Team
begin

text \<open>
  What a team of agents says by itself: automatic answers, acknowledgements, notifications and messages of roles, in rounds.  Every
  automatic text is of a lower kind than the text that it reacts to, so the talk comes to an end.  In the model all
  other agents hear every text, also one that is addressed to a single nick; the bound does not depend on who hears.
\<close>

section \<open>The action of a text\<close>

lemma strip_prefixes_stop:
  assumes "c \<notin> set (concat ws)"
  shows "strip_prefixes ws (u @ c # v) = strip_prefixes ws u @ c # v"
  using assms
proof (induction ws u rule: strip_prefixes.induct)
  case (1 ws u)
  have "prefix w (u @ c # v) = prefix w u" if "w \<in> set ws" for w
  proof
    assume p: "prefix w (u @ c # v)"
    from that "1.prems" have c: "c \<notin> set w" by auto
    then have "w \<noteq> u @ c # zs" for zs by auto
    with p show "prefix w u" by (auto simp: prefix_append prefix_Cons)
  qed auto
  then have f: "find (\<lambda>w. w \<noteq> [] \<and> prefix w (u @ c # v)) ws = find (\<lambda>w. w \<noteq> [] \<and> prefix w u) ws"
    by (intro find_cong) auto
  show ?case
  proof (cases "find (\<lambda>w. w \<noteq> [] \<and> prefix w u) ws")
    case None
    then show ?thesis using f by (simp add: strip_prefixes.simps [of ws "u @ c # v"] strip_prefixes.simps [of ws u])
  next
    case (Some w)
    then have "prefix w u" by (auto simp: find_Some_iff)
    then have "length w \<le> length u" by (rule prefix_length_le)
    with Some f "1.IH" [OF Some "1.prems"] show ?thesis
      by (simp add: strip_prefixes.simps [of ws "u @ c # v"] strip_prefixes.simps [of ws u])
  qed
qed

lemma TrimRight_stop:
  assumes "c \<notin> set (concat ws_runes)"
  shows "TrimRight (s @ c # t) = s @ c # TrimRight t"
proof -
  have "c \<notin> set (concat (map rev ws_runes))" using assms by simp
  from strip_prefixes_stop [OF this, of "rev t" "rev s"] show ?thesis by (simp add: TrimRight_def)
qed

lemma TrimSpace_action:
  assumes "at_blank body"
  shows "\<exists>body'. TrimSpace (action_string a @ body) = action_string a @ body' \<and> at_blank body'"
proof -
  obtain s c where a: "action_string a = s @ [c]" using action_string_facts(1) [of a] by (metis rev_exhaust)
  have "last (action_string a) \<notin> set (concat ws_runes)" by (cases a) (simp_all add: ws_runes_def)
  then have "TrimRight (action_string a @ body) = action_string a @ TrimRight body" using TrimRight_stop [of c s body] a by simp
  moreover have "at_blank (TrimRight body)"
    using assms prefix_TrimRight [of body] by (auto simp: at_blank_def prefix_def split: list.splits)
  ultimately show ?thesis using no_ws_left_action by (auto simp: TrimSpace_def)
qed

text \<open>The action that an agent sees in a text, if any.\<close>

definition text_action :: "string \<Rightarrow> Action option" where
  "text_action text =
     (if IsProtocolMessage text then (case Parse text of Inl _ \<Rightarrow> None | Inr m \<Rightarrow> Some (msgAction m)) else None)"

lemma text_action_word: "at_blank body \<Longrightarrow> text_action (action_string a @ body) \<in> {None, Some a}"
proof -
  assume "at_blank body"
  from TrimSpace_action [OF this, of a] obtain body' where b: "TrimSpace (action_string a @ body) = action_string a @ body'" "at_blank body'"
    by blast
  then have "takeWhile (\<lambda>c. \<not> blank c) (TrimSpace (action_string a @ body)) = action_string a"
    using action_string_facts(2) [of a] by simp
  with b(1) Parse_word [of "action_string a @ body" a] action_string_facts(1) [of a] show ?thesis
    by (auto simp: text_action_def)
qed

lemma text_action_String: "text_action (String_Message m) \<in> {None, Some (msgAction m)}"
proof (cases "msgAction m = ActionSharingContext")
  case True
  then show ?thesis
    using text_action_word [of "if msgPayload m \<noteq> [] then '' '' @ msgPayload m else []" "msgAction m"]
    by (auto simp: String_Message_def at_blank_def blank_def)
next
  case False
  have "at_blank (concat (map (\<lambda>k. fieldToken k (Get m k)) (sort (mkeys (msgFields m)))) @ concat (map tagToken (msgTags m)))"
    by simp
  from text_action_word [OF this, of "msgAction m"] False show ?thesis by (simp add: String_Message_def)
qed

section \<open>Ranks\<close>

text \<open>
  What an automatic text can set off: a review request sets off verdicts, verdicts, completions and escalations set off new work and
  acknowledgements, questions set off answers; everything else that is a protocol message at most a notification, which is none.
\<close>

definition action_rank :: "Action \<Rightarrow> nat" where
  "action_rank a = (if a = ActionReviewRequest then 3
     else if a \<in> {ActionReviewComplete, ActionCompleted, ActionEscalate, ActionRequestContext, ActionDiscover} then 2 else 1)"

definition text_rank :: "string \<Rightarrow> nat" where
  "text_rank text = (case text_action text of None \<Rightarrow> 0 | Some a \<Rightarrow> action_rank a)"

lemma text_rank_le: "text_rank text \<le> 3"
  by (simp add: text_rank_def action_rank_def split: option.split)

lemma text_rank_String: "text_rank (String_Message m) \<le> action_rank (msgAction m)"
  using text_action_String [of m] by (auto simp: text_rank_def)

text \<open>An agent with built-in roles only and without formatters of its own.\<close>

definition tame :: "Agent \<Rightarrow> bool" where
  "tame a \<longleftrightarrow> (case agRoleEngine a of None \<Rightarrow> True | Some re \<Rightarrow> builtin_engine re)
     \<and> list_all (\<lambda>r. nrFormatter r = None) (agNotifier a)"

lemma builtin_response_rank:
  assumes "BuiltinBehavior role = Some b" "Matches b msg" "r \<in> set (rbHandler b msg)"
  shows "action_rank (msgAction r) < action_rank (msgAction msg)"
  using assms
  by (auto simp: BuiltinBehavior_def Let_def Matches_def builtin_handlers mkMessage_def action_rank_def split: if_splits)

lemma role_response_rank:
  assumes "builtin_engine re" "r \<in> set (HandleMessage re msg)"
  shows "action_rank (msgAction r) < action_rank (msgAction msg)"
proof -
  from assms(2) obtain b where "b \<in> set (reBehaviors re)" "Matches b msg" "r \<in> set (rbHandler b msg)"
    by (auto simp: HandleMessage_eq)
  with assms(1) builtin_response_rank show ?thesis by (fastforce simp: builtin_engine_def list_all_iff)
qed

lemma notification_rank:
  assumes "list_all (\<lambda>r. nrFormatter r = None) n" "(ch, text) \<in> set (HandleNotification q n msg)"
  shows "text_rank text = 0"
proof -
  from assms obtain ev where "text = DefaultNotificationFormatter q ev msg" "text \<noteq> []"
    by (auto simp: HandleNotification_def list_all_iff Let_def split: option.splits if_splits)
  then obtain s where s: "text = CHR ''['' # s" by (auto simp: DefaultNotificationFormatter_def Let_def split: NotificationEvent.splits if_splits)
  have "TrimSpace text = CHR ''['' # TrimRight s"
    using TrimRight_stop [of "CHR ''[''" "[]" s] no_ws_left_Cons [of "CHR ''[''" s]
    by (simp add: s TrimSpace_def ws_runes_def ws_lead_def)
  moreover have "\<not> prefix (action_string a @ t) (CHR ''['' # u)" for a t u
  proof -
    have "hd (action_string a) \<noteq> CHR ''[''" by (cases a) simp_all
    obtain c v where "action_string a = c # v" using action_string_facts(1) [of a] by (cases "action_string a") auto
    with \<open>hd (action_string a) \<noteq> CHR ''[''\<close> show ?thesis by simp
  qed
  moreover from this [where t = "[]"] have "Valid (CHR ''['' # u) = None" for u
    using Valid_SomeD [of "CHR ''['' # u"] by (cases "Valid (CHR ''['' # u)") (simp, metis append_Nil2 prefix_order.refl)
  ultimately have "\<not> IsProtocolMessage text" by (simp add: IsProtocolMessage_def actionPrefixes_def list_ex_iff)
  then show ?thesis by (simp add: text_rank_def text_action_def)
qed

section \<open>Replies are of a lower rank\<close>

text \<open>Sending and receiving change neither the roles nor the notification rules.\<close>

definition habits :: "Agent \<Rightarrow> RoleEngine option \<times> Notifier \<times> string" where
  "habits a = (agRoleEngine a, agNotifier a, nick_of a)"

lemma tame_habits: "habits a = habits b \<Longrightarrow> tame a = tame b"
  by (simp add: habits_def tame_def)

lemma SendProtocolMessage_habits:
  "SendProtocolMessage now target m a = (e, a', out) \<Longrightarrow>
     habits a' = habits a \<and> out \<in> {[], [(target, String_Message m)]}"
  by (cases "Sanitize m")
    (auto simp: SendProtocolMessage_def habits_def nick_of_def updateLocalState_fixed Let_def split: if_splits)

lemma sendAll_habits:
  "sendAll now ms a = (a', out) \<Longrightarrow>
     habits a' = habits a \<and> set out \<subseteq> (\<lambda>(t, m). (t, String_Message m)) ` set ms"
proof (induction now ms a arbitrary: a' out rule: sendAll.induct)
  case (2 now target m ms a)
  obtain e a1 out1 where 1: "SendProtocolMessage now target m a = (e, a1, out1)" by (cases "SendProtocolMessage now target m a")
  obtain a2 out2 where 2: "sendAll now ms a1 = (a2, out2)" by (cases "sendAll now ms a1")
  from "2.prems" 1 2 have "a' = a2" "out = out1 @ out2" by simp_all
  with SendProtocolMessage_habits [OF 1] "2.IH" [OF 1 [symmetric] refl 2] show ?case by auto
qed simp

lemma runHandler_tame:
  assumes "runHandler q now (h, msg) a = (a', out)" "tame a"
  shows "habits a' = habits a \<and> (\<forall>(ch, text) \<in> set out. text_rank text < action_rank (msgAction msg))"
proof (cases h)
  case HNotifier
  have pos: "0 < action_rank (msgAction msg)" by (simp add: action_rank_def)
  from assms(2) have "list_all (\<lambda>r. nrFormatter r = None) (agNotifier a)" by (simp add: tame_def)
  with HNotifier assms(1) notification_rank pos show ?thesis by fastforce
next
  case HRoles
  show ?thesis
  proof (cases "agRoleEngine a")
    case None
    with HRoles assms(1) show ?thesis by simp
  next
    case (Some re)
    with assms(2) have re: "builtin_engine re" by (simp add: tame_def)
    from HRoles Some assms(1) have "sendAll now (map (\<lambda>resp. (msgChannel msg, resp)) (HandleMessage re msg)) a = (a', out)" by simp
    from sendAll_habits [OF this] have h: "habits a' = habits a"
      and o: "set out \<subseteq> (\<lambda>m. (msgChannel msg, String_Message m)) ` set (HandleMessage re msg)" by auto
    have "text_rank tx < action_rank (msgAction msg)" if "(ch, tx) \<in> set out" for ch tx
    proof -
      from o that obtain r where "r \<in> set (HandleMessage re msg)" "tx = String_Message r" by auto
      with role_response_rank [OF re] text_rank_String [of r] show ?thesis by fastforce
    qed
    with h show ?thesis by auto
  qed
qed (use assms(1) in \<open>auto simp: habits_def nick_of_def split: if_splits\<close>)

lemma runHandlers_tame:
  assumes "runHandlers q now cs a = (a', out)" "tame a" "\<forall>(h, m) \<in> set cs. m = msg"
  shows "habits a' = habits a \<and> (\<forall>(ch, text) \<in> set out. text_rank text < action_rank (msgAction msg))"
  using assms
proof (induction cs arbitrary: a out)
  case (Cons c cs)
  from Cons.prems(3) obtain h where c: "c = (h, msg)" by (cases c) auto
  obtain a1 out1 where 1: "runHandler q now c a = (a1, out1)" by (cases "runHandler q now c a")
  obtain a2 out2 where 2: "runHandlers q now cs a1 = (a2, out2)" by (cases "runHandlers q now cs a1")
  from runHandler_tame [OF 1 [unfolded c] Cons.prems(2)] have 3: "habits a1 = habits a"
    "\<forall>(ch, text) \<in> set out1. text_rank text < action_rank (msgAction msg)" by auto
  have "tame a1" using tame_habits [OF 3(1)] Cons.prems(2) by simp
  from Cons.IH [OF _ this] 2 Cons.prems(1,3) 1 3 show ?case by auto
qed simp

lemma processMessage_replies:
  "\<forall>(ch, text) \<in> set (efSends (snd (processMessage now msg pd))). text_rank text < action_rank (msgAction msg)"
proof -
  have ack: "text_rank (String_Message (ackMsg n c)) < action_rank ActionCompleted" for n c
    using text_rank_String [of "ackMsg n c"] by (simp add: ackMsg_def mkMessage_def action_rank_def)
  have ctx: "text_rank (String_Message (contextReply e)) < action_rank ActionRequestContext"
    "text_rank (String_Message (payloadReply e)) < action_rank ActionRequestContext" for e
    using text_rank_String [of "contextReply e"] text_rank_String [of "payloadReply e"]
    by (simp_all add: contextReply_def payloadReply_def mkMessage_def action_rank_def)
  have caps: "text_rank (String_Message (mkMessage ActionCapabilities fs ts)) < action_rank ActionDiscover" for fs ts
    using text_rank_String [of "mkMessage ActionCapabilities fs ts"] by (simp add: mkMessage_def action_rank_def)
  show ?thesis
    by (auto simp: processMessage_def OnTaskCompleted_def HandleContextRequest_def handleDiscover_def Let_def case_prod_beta ack ctx caps
        split: option.splits if_splits)
qed

lemma handleMessage_replies:
  assumes "handleMessage now ev pd = (pd', ef)"
  shows "(efSends ef = [] \<and> efCalls ef = [])
    \<or> (\<exists>msg. text_action (meMessage ev) = Some (msgAction msg) \<and> (\<forall>(h, m) \<in> set (efCalls ef). m = msg)
        \<and> (\<forall>(ch, text) \<in> set (efSends ef). text_rank text < action_rank (msgAction msg)))"
proof (cases "IsProtocolMessage (meMessage ev) \<and> meNick ev \<noteq> pdSelfNick pd")
  case True
  show ?thesis
  proof (cases "Parse (meMessage ev)")
    case (Inl e)
    with True assms show ?thesis by (auto simp: handleMessage_def noEffects_def)
  next
    case (Inr m)
    let ?msg = "enrich now ev m"
    have act: "text_action (meMessage ev) = Some (msgAction ?msg)" using True Inr by (simp add: text_action_def enrich_def)
    show ?thesis
    proof (cases "case pdAcl pd of None \<Rightarrow> False | Some acl \<Rightarrow> \<not> Check acl (msgNick ?msg) (msgChannel ?msg) (msgAction ?msg)")
      case True': True
      with True Inr assms show ?thesis by (auto simp: handleMessage_def noEffects_def Let_def split: option.splits)
    next
      case False
      with True Inr assms have p: "processMessage now ?msg pd = (pd', ef)" by (simp add: handleMessage_def Let_def)
      then have "\<forall>(h, m) \<in> set (efCalls ef). m = ?msg" by (auto simp: processMessage_def Let_def case_prod_beta)
      with processMessage_replies [of now ?msg pd] p act show ?thesis by (intro disjI2 exI [of _ ?msg]) simp
    qed
  qed
next
  case False
  with assms have "ef = noEffects" by (cases "IsProtocolMessage (meMessage ev)") (simp_all add: handleMessage_def)
  then show ?thesis by (simp add: noEffects_def)
qed

lemma hears_tame:
  assumes "hears q now nick (target, text) a = (a', out)" "tame a"
  shows "habits a' = habits a \<and> (\<forall>(ch, t) \<in> set out. text_rank t < text_rank text)"
proof -
  let ?ev = "\<lparr>meChannel = target, meNick = nick, meUser = [], meHost = [], meMessage = text, meIsNotice = False, meTimestamp = now\<rparr>"
  obtain pd ef where h: "handleMessage now ?ev (agProtocol a) = (pd, ef)" by (cases "handleMessage now ?ev (agProtocol a)")
  let ?a = "a\<lparr>agProtocol := pd\<rparr>"
  have fx: "habits ?a = habits a" using handleMessage_fixed(1) [of now ?ev "agProtocol a"] h by (simp add: habits_def nick_of_def)
  obtain a2 out2 where r: "runHandlers q now (efCalls ef) ?a = (a2, out2)" by (cases "runHandlers q now (efCalls ef) ?a")
  from assms(1) h r have a': "a' = a2\<lparr>agMetrics := RecordRawMessageReceived (agMetrics a2)\<rparr>" "out = efSends ef @ out2"
    by (auto simp: hears_def receiveEvent_def)
  have hb: "habits a' = habits a2" by (simp add: a'(1) habits_def nick_of_def)
  have t: "tame ?a" using tame_habits [OF fx] assms(2) by simp
  from handleMessage_replies [OF h] show ?thesis
  proof
    assume "efSends ef = [] \<and> efCalls ef = []"
    with r a'(2) hb fx show ?thesis by simp
  next
    assume "\<exists>msg. text_action (meMessage ?ev) = Some (msgAction msg) \<and> (\<forall>(h, m) \<in> set (efCalls ef). m = msg)
        \<and> (\<forall>(ch, text) \<in> set (efSends ef). text_rank text < action_rank (msgAction msg))"
    then obtain msg where m: "text_action text = Some (msgAction msg)" "\<forall>(h, m) \<in> set (efCalls ef). m = msg"
      "\<forall>(ch, text) \<in> set (efSends ef). text_rank text < action_rank (msgAction msg)" by auto
    from runHandlers_tame [OF r t m(2)] m a'(2) hb fx show ?thesis by (auto simp: text_rank_def)
  qed
qed

section \<open>Rounds\<close>

text \<open>One round: each text of the last round, said by a nick to a target, is heard by all others; what they reply is the next round.\<close>

fun hear_round ::
  "(string \<Rightarrow> string) \<Rightarrow> gotime \<Rightarrow> (string \<times> string \<times> string) list \<Rightarrow> Agent list \<Rightarrow> Agent list \<times> (string \<times> string \<times> string) list" where
  "hear_round q now [] team = (team, [])"
| "hear_round q now ((nick, o1) # said) team =
     (let rs = map (\<lambda>a. if nick_of a = nick then (a, []) else hears q now nick o1 a) team;
          replies = concat (map (\<lambda>(a, out). map (\<lambda>r. (nick_of a, r)) out) rs)
      in case hear_round q now said (map fst rs) of (team, later) \<Rightarrow> (team, replies @ later))"

fun settle ::
  "(string \<Rightarrow> string) \<Rightarrow> gotime list \<Rightarrow> (string \<times> string \<times> string) list \<Rightarrow> Agent list \<Rightarrow> Agent list \<times> (string \<times> string \<times> string) list" where
  "settle q [] said team = (team, said)"
| "settle q (now # ts) said team = (case hear_round q now said team of (team, replies) \<Rightarrow> settle q ts replies team)"

lemma hear_round_lowers:
  assumes "hear_round q now said team = (team', replies)" "\<forall>a \<in> set team. tame a"
    and "\<forall>(_, _, text) \<in> set said. text_rank text \<le> n"
  shows "(\<forall>a \<in> set team'. tame a) \<and> (\<forall>(_, _, text) \<in> set replies. text_rank text < n)"
  using assms
proof (induction said arbitrary: team team' replies)
  case (Cons s said)
  obtain nick target tx where s: "s = (nick, target, tx)" by (cases s) auto
  let ?f = "\<lambda>a. if nick_of a = nick then (a, []) else hears q now nick (target, tx) a"
  let ?replies = "concat (map (\<lambda>(a, out). map (\<lambda>r. (nick_of a, r)) out) (map ?f team))"
  obtain team2 later where r: "hear_round q now said (map fst (map ?f team)) = (team2, later)"
    by (cases "hear_round q now said (map fst (map ?f team))")
  have "hear_round q now (s # said) team = (team2, ?replies @ later)" by (simp only: s hear_round.simps Let_def r prod.case)
  with Cons.prems(1) have t: "team' = team2" "replies = ?replies @ later" by simp_all
  have n: "text_rank tx \<le> n" using Cons.prems(3) s by simp
  have f: "tame (fst (?f a)) \<and> (\<forall>(ch, t) \<in> set (snd (?f a)). text_rank t < n)" if "a \<in> set team" for a
  proof (cases "nick_of a = nick")
    case True
    with that Cons.prems(2) show ?thesis by simp
  next
    case False
    obtain a' out where h: "hears q now nick (target, tx) a = (a', out)" by (cases "hears q now nick (target, tx) a")
    from that Cons.prems(2) have "tame a" by blast
    from hears_tame [OF h this] tame_habits [of a' a] \<open>tame a\<close> n False h show ?thesis by fastforce
  qed
  then have "\<forall>a \<in> set (map fst (map ?f team)). tame a" by auto
  from Cons.IH [OF r this] Cons.prems(3) have "(\<forall>a \<in> set team2. tame a) \<and> (\<forall>(_, _, text) \<in> set later. text_rank text < n)" by simp
  moreover have "\<forall>(_, _, text) \<in> set ?replies. text_rank text < n"
  proof (clarify)
    fix nick' target' reply
    assume "(nick', target', reply) \<in> set ?replies"
    then obtain a where "a \<in> set team" "(target', reply) \<in> set (snd (?f a))" by (auto simp: case_prod_beta split: if_splits)
    with f show "text_rank reply < n" by blast
  qed
  ultimately show ?case unfolding t set_append ball_Un by blast
qed simp

lemma settle_lowers:
  assumes "\<forall>a \<in> set team. tame a" "\<forall>(_, _, text) \<in> set said. text_rank text < length ts"
  shows "snd (settle q ts said team) = []"
  using assms
proof (induction ts arbitrary: said team)
  case Nil
  then show ?case by (cases said) auto
next
  case (Cons now ts)
  obtain team' replies where r: "hear_round q now said team = (team', replies)" by (cases "hear_round q now said team")
  from hear_round_lowers [OF r Cons.prems(1), of "length ts"] Cons.prems(2)
  have "\<forall>a \<in> set team'. tame a" "\<forall>(_, _, text) \<in> set replies. text_rank text < length ts" by (auto simp: less_Suc_eq_le)
  from Cons.IH [OF this] r show ?case by simp
qed

text \<open>
  C36.  A team cannot talk for ever: whatever texts are said on its channels, by whomever, the automatic answers, acknowledgements, notifications
  and role messages of agents with any built-in roles and any notification rules in the default format come to an end; after the texts
  themselves and three rounds of replies have been heard, nobody says anything more.
\<close>

theorem team_settles:
  assumes "\<forall>a \<in> set team. tame a" "length ts = 4"
  shows "snd (settle q ts said team) = []"
proof -
  have "\<forall>(_, _, text) \<in> set said. text_rank text < length ts" by (auto intro!: le_less_trans [OF text_rank_le] simp: assms(2))
  with assms(1) show ?thesis by (rule settle_lowers)
qed

text \<open>The agents that \<^verbatim>\<open>initProtocol\<close> makes are of this kind.\<close>

lemma builtin_engine_fold:
  "builtin_engine re \<Longrightarrow>
     builtin_engine (fold (\<lambda>role re. case BuiltinBehavior role of None \<Rightarrow> re | Some b \<Rightarrow> RegisterBehavior b re) roles re)"
proof (induction roles arbitrary: re)
  case (Cons role roles)
  have "builtin_engine (case BuiltinBehavior role of None \<Rightarrow> re | Some b \<Rightarrow> RegisterBehavior b re)"
  proof (cases "BuiltinBehavior role")
    case (Some b)
    then have "rbRole b = role" by (auto simp: BuiltinBehavior_def split: if_splits)
    with Some Cons.prems show ?thesis by (simp add: builtin_engine_def RegisterBehavior_def)
  qed (simp add: Cons.prems)
  from Cons.IH [OF this] show ?case by simp
qed simp

lemma initProtocol_tame: "tame (initProtocol io fs nick cfg)"
proof -
  have "builtin_engine (NewRoleEngine roles)" for roles by (simp add: builtin_engine_def NewRoleEngine_def)
  then show ?thesis using builtin_engine_fold
    by (simp add: tame_def initProtocol_def Let_def roleEngineFor_def NewNotifier_def)
qed

definition demo_reviewers :: "Agent list" where
  "demo_reviewers = map (\<lambda>(n, role). initProtocol demo_io Map.empty n (defaultAppConfig\<lparr>cfRoles := [role]\<rparr>))
     [(''rev'', ''security-reviewer''), (''merge'', ''merge-coordinator'')]"

theorem team_settles_witness:
  "let said = [(''dev'', ''#dev'', ''REVIEW-REQUEST task=login review-type=security'')]
   in map (\<lambda>n. map (\<lambda>(nick, _, text). (nick, text_action text)) (snd (settle (\<lambda>s. s) (replicate n 7) said demo_reviewers))) [1, 2]
        = [[(''rev'', Some ActionReviewComplete)], [(''merge'', Some ActionStarted)]]
      \<and> snd (settle (\<lambda>s. s) [7, 7, 7, 7] said demo_reviewers) = []"
proof -
  have t: "\<forall>a \<in> set demo_reviewers. tame a" using initProtocol_tame by (auto simp: demo_reviewers_def)
  have "map (\<lambda>n. map (\<lambda>(nick, _, text). (nick, text_action text)) (snd (settle (\<lambda>s. s) (replicate n 7)
      [(''dev'', ''#dev'', ''REVIEW-REQUEST task=login review-type=security'')] demo_reviewers))) [1, 2]
    = [[(''rev'', Some ActionReviewComplete)], [(''merge'', Some ActionStarted)]]"
    by code_simp
  with team_settles [OF t, of "[7, 7, 7, 7]"] show ?thesis by (simp add: Let_def)
qed

end
