(* ===== verification/Telemetry.thy ===== *)
theory Telemetry
  imports ConfigLoader
begin

text \<open>
  The OpenTelemetry set-up of \<^verbatim>\<open>internal/otel/otel.go\<close>.  The constructors and shutdowns of the SDK are parameters, by the error they
  return; the two global providers that the SDK keeps are the state.
\<close>

record 'e otel_sdk =
  skResource :: "'e option"
  skTraceExporter :: "'e option"
  skMetricExporter :: "'e option"
  skStopTracer :: "'e option"
  skStopMeter :: "'e option"

text \<open>A tracer provider by its service name and sampling rate, a meter provider by its service name.\<close>

record OTelProvider =
  otTracer :: "(string \<times> float64) option"
  otMeter :: "string option"

datatype 'e otel_error = ResourceFailed 'e | TraceExporterFailed 'e | MetricExporterFailed 'e

definition otelDefaults :: "OTelConfig \<Rightarrow> OTelConfig" where
  "otelDefaults cfg =
     (let cfg = (if otServiceName cfg = [] then cfg\<lparr>otServiceName := ''borg''\<rparr> else cfg)
      in if otSampleRate cfg \<le> 0 \<or> otSampleRate cfg > 1 then cfg\<lparr>otSampleRate := 1\<rparr> else cfg)"

definition Setup_otel :: "'e otel_sdk \<Rightarrow> OTelConfig \<Rightarrow> OTelProvider \<Rightarrow> ('e otel_error + OTelProvider) \<times> OTelProvider" where
  "Setup_otel sdk cfg g =
     (if otEndpoint cfg = [] then (Inr \<lparr>otTracer = None, otMeter = None\<rparr>, g)
      else
        let cfg = otelDefaults cfg
        in case skResource sdk of
             Some e \<Rightarrow> (Inl (ResourceFailed e), g)
           | None \<Rightarrow>
               (case skTraceExporter sdk of
                  Some e \<Rightarrow> (Inl (TraceExporterFailed e), g)
                | None \<Rightarrow>
                    let tp = Some (otServiceName cfg, otSampleRate cfg); g = g\<lparr>otTracer := tp\<rparr>
                    in case skMetricExporter sdk of
                         Some e \<Rightarrow> (Inl (MetricExporterFailed e), g)
                       | None \<Rightarrow>
                           let mp = Some (otServiceName cfg)
                           in (Inr \<lparr>otTracer = tp, otMeter = mp\<rparr>, g\<lparr>otMeter := mp\<rparr>)))"

text \<open>Both providers are stopped; the first error is reported.\<close>

definition Shutdown_otel :: "'e otel_sdk \<Rightarrow> OTelProvider option \<Rightarrow> 'e option" where
  "Shutdown_otel sdk p =
     (case p of
        None \<Rightarrow> None
      | Some p \<Rightarrow>
          let firstErr = (if otTracer p \<noteq> None then skStopTracer sdk else None)
          in if otMeter p \<noteq> None then (case firstErr of None \<Rightarrow> skStopMeter sdk | Some e \<Rightarrow> Some e) else firstErr)"

definition TracerProvider :: "OTelProvider option \<Rightarrow> (string \<times> float64) option" where
  "TracerProvider p = (case p of None \<Rightarrow> None | Some p \<Rightarrow> otTracer p)"

definition MeterProvider :: "OTelProvider option \<Rightarrow> string option" where
  "MeterProvider p = (case p of None \<Rightarrow> None | Some p \<Rightarrow> otMeter p)"

text \<open>
  Telemetry is set up with a name and with a sampling rate between 0, exclusively, and 1, and has both providers or, without an endpoint,
  neither; a failure keeps the globals as they were, except that a failing metric exporter leaves the tracer provider installed, which nobody
  shuts down as no provider is returned.
\<close>

theorem otel_setup_bounds:
  assumes "Setup_otel sdk cfg g = (res, g')"
  shows "case res of
      Inr p \<Rightarrow> (if otEndpoint cfg = [] then otTracer p = None \<and> otMeter p = None \<and> g' = g
                else \<exists>name rate. name \<noteq> [] \<and> 0 < rate \<and> rate \<le> 1 \<and> otTracer p = Some (name, rate) \<and> otMeter p = Some name \<and> g' = p)
    | Inl (MetricExporterFailed e) \<Rightarrow> otTracer g' \<noteq> None \<and> otMeter g' = otMeter g
    | Inl _ \<Rightarrow> g' = g"
proof -
  have "otServiceName (otelDefaults cfg) \<noteq> []" "0 < otSampleRate (otelDefaults cfg)" "otSampleRate (otelDefaults cfg) \<le> 1"
    by (auto simp: otelDefaults_def Let_def)
  with assms show ?thesis by (auto simp: Setup_otel_def Let_def split: option.splits if_splits)
qed

theorem otel_setup_bounds_witness:
  "snd (Setup_otel \<lparr>skResource = None, skTraceExporter = None, skMetricExporter = Some ''refused'', skStopTracer = None, skStopMeter = None\<rparr>
      \<lparr>otEndpoint = ''localhost:4318'', otServiceName = [], otSampleRate = 2\<rparr> \<lparr>otTracer = None, otMeter = None\<rparr>)
    = \<lparr>otTracer = Some (''borg'', 1), otMeter = None\<rparr>
   \<and> otTracer (snd (Setup_otel \<lparr>skResource = None, skTraceExporter = None, skMetricExporter = Some ''refused'', skStopTracer = None, skStopMeter = None\<rparr>
      \<lparr>otEndpoint = ''localhost:4318'', otServiceName = [], otSampleRate = 2\<rparr> \<lparr>otTracer = None, otMeter = None\<rparr>)) \<noteq> None"
proof -
  let ?s = "Setup_otel \<lparr>skResource = None, skTraceExporter = None, skMetricExporter = Some ''refused'', skStopTracer = None, skStopMeter = None\<rparr>
      \<lparr>otEndpoint = ''localhost:4318'', otServiceName = [], otSampleRate = 2\<rparr> \<lparr>otTracer = None, otMeter = None\<rparr>"
  have s: "?s = (Inl (MetricExporterFailed ''refused''), \<lparr>otTracer = Some (''borg'', 1), otMeter = None\<rparr>)"
    by (simp add: Setup_otel_def otelDefaults_def)
  from otel_setup_bounds [OF this] s show ?thesis by simp
qed

end
