(* ===== verification/Spec2Isabelle.thy ===== *)
theory Spec2Isabelle
  imports Observability Programs Provision Federation Replies Telemetry
begin

text \<open>
  \<^bold>\<open>Borg: agents that coordinate over IRC.\<close>  The program (Go, under \<^verbatim>\<open>src/\<close>) runs agents that share one
  or more IRC channels.  An agent announces what it works on by one-line protocol messages; every
  agent that hears a line parses it and updates its own copy of a set of stores (tasks and their
  dependencies, offers and claims, handoffs, reviews, votes, shared contexts, capabilities).  The
  development models the protocol, all of these stores, the dispatcher that feeds them, the
  agent that sends, the IRC client below it, the manager, which watches the channels, starts and
  stops agents and streams what happens to browsers, the web servers of both, and the programs that run them.

  \<^bold>\<open>How the parts interact.\<close>  The IRC client delivers an event (nick, channel, text, time).
  \<^verbatim>\<open>ProtocolDispatcher.handleMessage\<close> drops what is not a protocol message, what the agent said itself,
  what does not parse and what the access rules deny; then it updates the stores and answers
  questions (context, capabilities), and finally runs the registered handlers, by which the agent counts
  metrics, marks its state dirty, notifies, acknowledges unblocked tasks and lets its roles respond.  An
  agent's own messages take the other way: \<^verbatim>\<open>SendProtocolMessage\<close> vets the message, applies it to the
  agent's own stores through \<^verbatim>\<open>updateLocalState\<close> and writes the text.

  \<^bold>\<open>Theories and source files.\<close>
  \<^item> \<open>Prelude\<close>: representation of Go's data (strings as bytes, maps as association lists, times as
    nanoseconds), the functions of \<^verbatim>\<open>strings\<close>, \<^verbatim>\<open>strconv\<close>, \<^verbatim>\<open>sort\<close> that are called, generic lemmas.
  \<^item> \<open>Interfaces\<close>: the contracts that several components have in common, as locales: a store whose
    operations keep an invariant (\<open>guarded_store\<close>), a printer with its parser (\<open>wire_format\<close>), a list of
    rules of which the first matching one decides (\<open>first_match\<close>), a list of entries per key
    (\<open>keyed_history\<close>), a value per key of which the last write is read (\<open>last_write\<close>).  Each is
    interpreted on the model's definitions, and the claims rest on the facts of the interpretation.
  \<^item> \<open>Protocol\<close> (\<^verbatim>\<open>pkg/protocol/message.go, parser.go, serializer.go, errors.go\<close>): actions, messages,
    \<open>Parse\<close> and \<open>String_Message\<close>; round trip, meaning of every error, soundness of the fast path.
  \<^item> \<open>Sanitizer\<close> (\<^verbatim>\<open>sanitizer.go\<close>): the credential patterns with a matcher that is proved against
    the language of the pattern; exactly which messages \<open>Sanitize\<close> accepts.
  \<^item> \<open>StateStore\<close>, \<open>StateGraph\<close> (\<^verbatim>\<open>internal/agent/state.go\<close>): the operations; the invariant (acyclic,
    no duplicate edge, filed under their names), exactness of the depth-first and the breadth-first
    search, what a completion unblocks, the statistics.
  \<^item> \<open>Coordinator\<close> (\<^verbatim>\<open>coordinator.go\<close>), \<open>TaskBoard\<close> (\<^verbatim>\<open>taskboard.go\<close>: claims, timers and arbitration as a
    step relation), \<open>Handoff\<close> (\<^verbatim>\<open>handoff.go\<close>), \<open>Review\<close> (\<^verbatim>\<open>review.go\<close>), \<open>Consensus\<close> (\<^verbatim>\<open>consensus.go\<close>),
    \<open>ContextStore\<close> (\<^verbatim>\<open>context_sharing.go\<close>), \<open>Discovery\<close> (\<^verbatim>\<open>discovery.go\<close>): the other stores, each with its
    state as a record, one definition per method, its invariant over any sequence of operations, and
    what its queries answer after such a sequence.
  \<^item> \<open>PathMatch\<close> (Go's \<^verbatim>\<open>path.Match\<close>), \<open>ACL\<close> (\<^verbatim>\<open>acl.go\<close>), \<open>Workflow\<close> (\<^verbatim>\<open>workflow.go\<close>), \<open>Roles\<close> (\<^verbatim>\<open>role.go\<close>),
    \<open>Federation\<close> (\<^verbatim>\<open>federation.go\<close>), \<open>Inspector\<close> (\<^verbatim>\<open>inspector.go\<close>), \<open>Metrics\<close> (\<^verbatim>\<open>metrics.go\<close> and the counts of
    \<^verbatim>\<open>health.go\<close>), \<open>Persistence\<close> (\<^verbatim>\<open>persistence.go\<close>), \<open>Notifier\<close> (\<^verbatim>\<open>notifier.go\<close>).
  \<^item> \<open>IrcEvents\<close> (\<^verbatim>\<open>pkg/ircclient/client.go\<close>): the event record and the list of texts sent.
  \<^item> \<open>Dispatcher\<close> (\<^verbatim>\<open>protocol.go\<close>) composes the stores the way the code does; \<open>Agent\<close> (\<^verbatim>\<open>agent.go\<close>) adds
    sending, the announcement methods, the handlers and the heartbeat.
  \<^item> \<open>Float64\<close>: binary64 without overflow and signed zero, as rationals that are rounded after every operation
    (ties to even), with Go's decimal printing and parsing; \<open>Flags\<close>: the parser of Go's \<^verbatim>\<open>flag\<close> package.
  \<^item> \<open>IrcConfig\<close> (\<^verbatim>\<open>pkg/ircclient/config.go\<close>), \<open>Throttle\<close> (\<^verbatim>\<open>backoff.go, ratelimiter.go\<close>), \<open>IrcClient\<close> (\<^verbatim>\<open>connection.go\<close>):
    the checks of a configuration; bounds of the delays and of the sends at one instant; the client with its
    handlers, joined channels, callbacks, rate-limited sends and reconnect loop, over the IRC library as a source of events.
  \<^item> \<open>ConfigLoader\<close> (\<^verbatim>\<open>internal/config/loader.go\<close>): the four layers of the configuration and their precedence;
    \<open>Health\<close> (\<^verbatim>\<open>internal/agent/health.go\<close>): the health check and its duration text.
  \<^item> \<open>Cost\<close> (\<^verbatim>\<open>internal/cost/store.go, adapter.go\<close>): the costs, their groups, the report that an adapter sends.
  \<^item> \<open>Spawner\<close> (\<^verbatim>\<open>internal/spawner\<close>): the argument lists and the lifecycle of local, remote and container agents, with the
    contract that all three keep as the locale \<open>spawner_contract\<close>, and what an agent reads from its arguments.
  \<^item> \<open>Registry\<close>, \<open>Hub\<close>, \<open>ManagerConfig\<close>, \<open>Manager\<close> (\<^verbatim>\<open>internal/manager/registry.go, hub.go, config.go, manager.go\<close>): the
    manager's records of agents, its event stream (with the readers of \<^verbatim>\<open>server.go\<close>, as a step relation), its configuration, its
    message handler and its operations; \<open>Supervision\<close>: what starting, stopping and polling do to the registry.
  \<^item> \<open>Mux\<close>: the routing of Go's \<^verbatim>\<open>http.ServeMux\<close> (methods, wildcards, the most specific pattern, redirects of unclean paths) and
    the replies; \<open>Dashboard\<close> (\<^verbatim>\<open>internal/agent/dashboard.go\<close>) and \<open>ManagerServer\<close> (\<^verbatim>\<open>internal/manager/server.go, templates.go\<close>): the routes
    and handlers of both web servers, which page is where, what a request may change; \<open>Observability\<close>: what the manager shows
    of an agent after it has polled that agent's dashboard.
  \<^item> \<open>Node\<close> (the rest of \<^verbatim>\<open>internal/agent/agent.go\<close>): the running agent, with the handlers it registers on its client, its start with
    every partial failure, its federation set-up, its shutdown and restart; \<open>Team\<close>: several agents that hear the same
    messages and keep the same stores; \<open>Replies\<close>: the rounds of their automatic replies, which end because every reply is of a lower rank
    than what it answers (review requests 3, verdicts, completions, escalations and questions 2, other messages 1).
  \<^item> \<open>Programs\<close> (\<^verbatim>\<open>cmd/agent/main.go, cmd/manager/main.go, internal/agent/lifecycle.go, internal/logging/logger.go\<close>, start and shutdown of
    \<^verbatim>\<open>manager.go\<close>): the programs from their command line to the state in which they run, the running manager as a step relation, and
    the way from the manager's request to the agent that comes up; \<open>Provision\<close> (\<^verbatim>\<open>cmd/provision/main.go\<close>): the account tool;
    \<open>Telemetry\<close> (\<^verbatim>\<open>internal/otel/otel.go\<close>): set-up and shutdown of the providers.
  \<^item> This theory: what an agent sends, which spans the agent, the sanitizer, the access rules, the
    context store and persistence.

  \<^bold>\<open>State and operations.\<close>  A struct is a record whose fields carry a short prefix (\<open>tiStatus\<close> is
  \<^verbatim>\<open>TaskInfo.Status\<close>); a method that changes its receiver returns the changed record, last argument the
  receiver; what it sends, calls back or returns comes beside it.  Each store of the program is guarded
  by one mutex that a method holds from beginning to end, so a method is one atomic step, and an
  interleaving of goroutines is a sequence of steps; claim timers and the debounce timer are
  parts of the state and their firing is a step of its own.  The claims about stores quantify over all
  such sequences.  A pointer receiver is nil or not: an absent store is \<^const>\<open>None\<close>.

  \<^bold>\<open>Termination.\<close>  No definition uses fuel.  The two graph searches, the tokenizer, the pattern
  matchers, the polling loops of the local spawner and the index loops of the manager's configuration are total by a measure
  that is proved at the definition; the rate limiter's \<open>Wait\<close>, which may never return, is a partial function whose value
  is then \<^const>\<open>None\<close>, and that it returns is proved where it does; the reconnect loop runs over the
  list of connections; the other loops run over lists.

  \<^bold>\<open>Assumptions.\<close>  The clock is read once per handled message.  The file system, the JSON and YAML codecs, the
  environment, the IRC library and remote clients, the operating system that the spawners use (\<open>host\<close>), the answers of
  dashboards (\<open>fetch\<close>), the outcome of dialling and listening (\<open>start_env\<close>) and the OpenTelemetry SDK (\<open>otel_sdk\<close>) are parameters; a claim that relies on one of them says so in a
  hypothesis (\<open>json_roundtrip\<close>, \<open>fresh_temp\<close>, \<open>rand_in_range\<close>, a caller who does not give up) and its witness instantiates it.  A Go \<^verbatim>\<open>int\<close> that only
  counts entries of a store is unbounded; numbers read from text carry the range check of \<^verbatim>\<open>strconv\<close>,
  token counts are 64-bit integers that wrap, and atomic counters are 64-bit words.

  \<^bold>\<open>Claims.\<close>  C1 to C6 are the promises of the system as a whole: no input brings the stores out of
  shape, and agents and manager that hear the same messages hold the same picture.  C7 to C14 and C21 to C40 are the contracts
  of the components, C15 to C20 those of their composition into running programs.  Further theorems of the same kind stand
  beside them in the theories, among them those that record behaviour that departs from what a comment or the documentation
  says.

  \<^bold>\<open>Not modelled.\<close>  The texts of the HTML pages and of the usage messages, what is logged, the spans of the tracer and the counters it
  mirrors have no effect on the program's state.  Which signal ends a run is not distinguished.  The demonstration under
  \<^verbatim>\<open>examples\<close> and the mock server under \<^verbatim>\<open>test\<close> are no part of the program.  The IRC library, the network, the operating system, the
  OpenTelemetry SDK, the JSON, YAML and template packages are parameters.
\<close>

section \<open>What an agent sends\<close>

definition acl_allows :: "Agent \<Rightarrow> string \<Rightarrow> Message \<Rightarrow> bool" where
  "acl_allows a target m =
     (case pdAcl (agProtocol a) of
        None \<Rightarrow> True | Some acl \<Rightarrow> Check acl (pdSelfNick (agProtocol a)) target (msgAction m))"

lemma updateLocalState_frame [simp]:
  "pdAcl (fst (updateLocalState now m pd)) = pdAcl pd"
  "pdSelfNick (fst (updateLocalState now m pd)) = pdSelfNick pd"
  by (simp_all add: updateLocalState_def updateCoordinationStores_def Let_def case_prod_beta)

lemma SendProtocolMessage_out:
  "snd (snd (SendProtocolMessage now target m a)) =
     (if Sanitize m = None \<and> acl_allows a target m then [(target, String_Message m)] else [])"
  by (simp add: SendProtocolMessage_def acl_allows_def Let_def split: option.split)

lemma SendProtocolMessage_frame:
  "acl_allows (fst (snd (SendProtocolMessage now target m a))) = acl_allows a"
  by (intro ext) (simp add: SendProtocolMessage_def acl_allows_def Let_def split: option.split)

lemma sendAll_out:
  "snd (sendAll now ms a) =
     map (\<lambda>(target, m). (target, String_Message m))
       (filter (\<lambda>(target, m). Sanitize m = None \<and> acl_allows a target m) ms)"
proof (induction ms arbitrary: a)
  case (Cons tm ms)
  then show ?case
    by (cases tm) (auto simp: case_prod_beta SendProtocolMessage_out SendProtocolMessage_frame)
qed simp

text \<open>
  C38.  Everything the role engine answers and everything the heartbeat announces is vetted: from the
  messages they produce, exactly those that carry no credential and that the agent's own access rules allow
  are sent, in order, and the ones refused in between change nothing about the others.
\<close>

theorem automatic_sends_are_vetted:
  "snd (runHandler q now (HRoles, msg) a) =
     (case agRoleEngine a of
        None \<Rightarrow> []
      | Some re \<Rightarrow> map (\<lambda>m. (msgChannel msg, String_Message m))
          (filter (\<lambda>m. Sanitize m = None \<and> acl_allows a (msgChannel msg) m) (HandleMessage re msg)))
   \<and> snd (heartbeat now joined a) =
       (let m = mkMessage ActionCapabilities [(''expertise'', Join (agCapabilities a) '','')] []
        in map (\<lambda>ch. (ch, String_Message m))
             (filter (\<lambda>ch. agCapabilities a \<noteq> [] \<and> Sanitize m = None \<and> acl_allows a ch m) joined))"
  by (auto simp: sendAll_out heartbeat_def announceCapabilities_def Let_def filter_map comp_def case_prod_beta
      split: option.split)

text \<open>
  Replies to context requests are not vetted: a stored payload that \<open>Sanitize\<close> would refuse is sent to
  whoever asks for the component, as the dispatcher sends it directly.
\<close>

theorem context_replies_bypass_sanitizer:
  assumes "GetContext (pdContext pd) c = Some e" "credentialLike (ctPayload e)" "c \<noteq> []"
    and "IsProtocolMessage (meMessage ev)" "Parse (meMessage ev) = Inr m"
    and "msgAction m = ActionRequestContext" "Get m ''component'' = c"
    and "meNick ev \<noteq> pdSelfNick pd" "pdAcl pd = None" "meChannel ev = ch" "ch \<noteq> []"
  shows "(ch, String_Message (payloadReply e)) \<in> set (efSends (snd (handleMessage now ev pd)))
    \<and> Sanitize (payloadReply e) \<noteq> None"
proof -
  have "ctPayload e \<noteq> []" using assms(2) by auto
  moreover have "GetContext (TrackRequest msg cs) c = GetContext cs c" for msg cs
    by (simp add: GetContext_def)
  ultimately show ?thesis
    using assms
    by (simp add: handleMessage_def processMessage_def enrich_def Let_def case_prod_beta updateContext_def
        HandleContextRequest_def updateCoordinationStores_def Sanitize_None_iff payloadReply_def mkMessage_def)
qed

definition leaky :: Dispatcher where
  "leaky =
     fold (\<lambda>text pd. fst (handleMessage 9 (demo_ev ''#dev'' ''ann'' text) pd))
       [''CONTEXT component=db'', ''SHARING-CONTEXT use Bearer abc.def'']
       (wiredDispatcher ''bot'' None 0 [] 0 0)"

theorem context_replies_bypass_sanitizer_witness:
  "(''#dev'', ''SHARING-CONTEXT use Bearer abc.def'')
     \<in> set (efSends (snd (handleMessage 9 (demo_ev ''#dev'' ''bob'' ''REQUEST-CONTEXT component=db'') leaky)))"
proof -
  let ?e = "the (GetContext (pdContext leaky) ''db'')"
  let ?m = "mkMessage ActionRequestContext [(''component'', ''db'')] []"
  have "GetContext (pdContext leaky) ''db'' = Some ?e" "credentialLike (ctPayload ?e)"
    "IsProtocolMessage ''REQUEST-CONTEXT component=db''" "Parse ''REQUEST-CONTEXT component=db'' = Inr ?m"
    "pdSelfNick leaky = ''bot''" "pdAcl leaky = None"
    "String_Message (payloadReply ?e) = ''SHARING-CONTEXT use Bearer abc.def''" by code_simp+
  with context_replies_bypass_sanitizer [of leaky "''db''" ?e "demo_ev ''#dev'' ''bob'' ''REQUEST-CONTEXT component=db''" ?m "''#dev''" 9]
  show ?thesis by (simp add: demo_ev_def mkMessage_def Get_def mgetd_def)
qed

section \<open>What an agent saves\<close>

lemma updateTaskState_records:
  "msgAction m \<in> set stateActions \<Longrightarrow> Get m ''task'' = t \<Longrightarrow> t \<noteq> [] \<Longrightarrow>
   GetTask (updateTaskState now m s) t \<noteq> None
   \<and> map_option asTaskName (GetAgentStatus (updateTaskState now m s) (msgNick m)) = Some t"
  by (simp add: updateTaskState_def UpdateTask_def UpdateAgentStatus_def GetTask_def GetAgentStatus_def Let_def)

lemma SendProtocolMessage_stores:
  assumes "SendProtocolMessage now target m a = (None, a', out)"
  shows "\<exists>loc. msgAction loc = msgAction m \<and> Get loc = Get m \<and> msgNick loc = pdSelfNick (agProtocol a)
    \<and> pdState (agProtocol a') = updateTaskState now loc (pdState (agProtocol a))
    \<and> agPersist a' = (if msgAction m \<in> set dirtyOnSend then map_option (MarkDirty now) (agPersist a) else agPersist a)"
proof -
  define loc where "loc = m\<lparr>msgChannel := target, msgNick := pdSelfNick (agProtocol a),
    msgTimestamp := (if isZero (msgTimestamp m) then now else msgTimestamp m)\<rparr>"
  have "pdState (agProtocol a') = updateTaskState now loc (pdState (agProtocol a))
      \<and> agPersist a' = (if msgAction m \<in> set dirtyOnSend then map_option (MarkDirty now) (agPersist a) else agPersist a)"
    using assms unfolding SendProtocolMessage_def Let_def loc_def [symmetric]
    by (auto simp: updateLocalState_def updateCoordinationStores_def Let_def case_prod_beta
        split: option.splits if_splits)
  moreover have "msgAction loc = msgAction m" "Get loc = Get m" "msgNick loc = pdSelfNick (agProtocol a)"
    by (simp_all add: loc_def fun_eq_iff)
  ultimately show ?thesis by blast
qed

text \<open>
  An agent's own coordination messages change its task store without scheduling a save: after it has sent an
  OFFER, CLAIM, ASSIGN, ACCEPT, DECLINE, YIELD, CHECKPOINT or HANDOFF, the store records the task while the
  debounce timer is as before, although the same message from another agent re-arms it.
\<close>

theorem own_coordination_message_not_saved:
  assumes "SendProtocolMessage now target m a = (None, a', out)"
    and "msgAction m \<in> set stateActions" "msgAction m \<notin> set dirtyOnSend" "Get m ''task'' = t" "t \<noteq> []"
  shows "agPersist a' = agPersist a
    \<and> GetTask (pdState (agProtocol a')) t \<noteq> None
    \<and> map_option asTaskName (GetAgentStatus (pdState (agProtocol a')) (pdSelfNick (agProtocol a))) = Some t
    \<and> agPersist (fst (runHandler q now (HPersist, m) a)) = map_option (MarkDirty now) (agPersist a)"
proof -
  obtain loc where loc: "msgAction loc = msgAction m" "Get loc = Get m" "msgNick loc = pdSelfNick (agProtocol a)"
    and a': "pdState (agProtocol a') = updateTaskState now loc (pdState (agProtocol a))" "agPersist a' = agPersist a"
    using SendProtocolMessage_stores [OF assms(1)] assms(3) by (auto split: if_splits)
  have "GetTask (updateTaskState now loc s) t \<noteq> None
      \<and> map_option asTaskName (GetAgentStatus (updateTaskState now loc s) (msgNick loc)) = Some t" for s
    by (rule updateTaskState_records) (use loc assms in simp_all)
  then show ?thesis using a' loc(3) assms(2) by simp
qed

definition demo_config :: AppConfig where
  "demo_config = defaultAppConfig\<lparr>cfStateFile := ''state.json''\<rparr>"

definition demo_agent :: Agent where
  "demo_agent = (initProtocol demo_io Map.empty ''bot'' demo_config)\<lparr>agInspector := NewDebugInspector 2\<rparr>"

theorem own_coordination_message_not_saved_witness:
  "let m = mkMessage ActionOffer [(''task'', ''t'')] []; a' = fst (snd (SendProtocolMessage 5 ''#dev'' m demo_agent))
   in GetTask (pdState (agProtocol a')) ''t'' \<noteq> None \<and> agPersist a' = agPersist demo_agent
      \<and> map_option spDebounce (agPersist demo_agent) = Some None"
proof -
  let ?m = "mkMessage ActionOffer [(''task'', ''t'')] []"
  let ?r = "SendProtocolMessage 5 ''#dev'' ?m demo_agent"
  have p: "map_option spDebounce (agPersist demo_agent) = Some None"
    by (simp add: demo_agent_def initProtocol_def demo_config_def defaultAppConfig_def NewStatePersistence_def Let_def)
  have s: "Sanitize ?m = None" by code_simp
  have acl: "pdAcl (agProtocol demo_agent) = None"
    by (simp add: demo_agent_def initProtocol_def demo_config_def defaultAppConfig_def Let_def OnProtocolMessage_def
        NewProtocolDispatcher_def roleEngineFor_def)
  from s acl have r: "SendProtocolMessage 5 ''#dev'' ?m demo_agent = (None, fst (snd ?r), snd (snd ?r))"
    by (simp add: SendProtocolMessage_def Let_def)
  have t: "Get ?m ''task'' = ''t''" "msgAction ?m = ActionOffer" by code_simp+
  from own_coordination_message_not_saved [OF r, of "''t''" id] t p show ?thesis
    by (simp add: Let_def stateActions_def dirtyOnSend_def)
qed

section \<open>Numbers on the wire\<close>

text \<open>Loads and progress values that fit a 64-bit int survive the text form.\<close>

lemma claim_load_survives:
  assumes "is_int64 load"
  shows "intField (wire_image (claimMessage task load)) ''load'' = load"
proof -
  have "Get (claimMessage task load) ''load'' = itoa load"
    by (simp add: claimMessage_def mkMessage_def Get_def mgetd_def)
  with assms show ?thesis by (simp add: intField_def Atoi_itoa)
qed

lemma checkpoint_progress_survives:
  assumes "is_int64 progress"
  shows "intField (wire_image (checkpointMessage task progress summary)) ''progress'' = progress"
proof -
  have "Get (checkpointMessage task progress summary) ''progress'' = itoa progress"
    by (simp add: checkpointMessage_def mkMessage_def Get_def mgetd_def)
  with assms show ?thesis by (simp add: intField_def Atoi_itoa)
qed

end
